(* ===== verification/Elchi_Prelude.thy ===== *)
theory Elchi_Prelude
  imports Complex_Main
begin

text \<open>
  The vocabulary every component of the development shares.

  \<^item> Money and numbers. Amounts read from the database are finite; they are exact rationals
    (\<open>money\<close>). A number that arrives in a request may be anything JavaScript's \<open>Number(x)\<close>
    yields, so it is a \<open>jsnum\<close> with \<open>NaN\<close> and the infinities as values of their own.
  \<^item> Identifiers. Primary keys and foreign keys are \<open>bigint\<close> columns handled as decimal strings
    by the code; \<open>ident\<close> is \<open>string\<close>, and a table hands out the decimal string of its sequence.
  \<^item> Errors. \<open>RpcException\<close> is a value \<open>Rpc status message\<close>; a fallible operation returns
    \<open>rpc_error + 'a\<close>, with \<open>Inl\<close> the exception.
  \<^item> Tables. A table is the list of its rows in insertion order; the locale \<open>table\<close> states what
    the components rely on when they look a row up by its key, save it back or insert it.
  \<^item> Redelivery. The locale \<open>at_most_once\<close> states the contract of a handler that recognises a
    request it has already applied, and derives what redelivery does.
\<close>

section \<open>Collections of facts\<close>

named_theorems result_simps \<open>rewriting the sum-typed results of operations\<close>
named_theorems table_simps \<open>lookups and sums after a table update\<close>

section \<open>Numbers\<close>

type_synonym money = rat
type_synonym time = int
type_synonym ident = string

text \<open>The values of \<open>Number(x)\<close>: the two infinities, \<open>NaN\<close>, or a finite number.\<close>

datatype jsnum = NaN | PosInf | NegInf | Num rat

fun isFinite :: "jsnum \<Rightarrow> bool" where
  "isFinite (Num _) = True"
| "isFinite _ = False"

text \<open>\<open>x > 0\<close>, \<open>x < 0\<close>: comparisons with \<open>NaN\<close> are false.\<close>

fun js_pos :: "jsnum \<Rightarrow> bool" where
  "js_pos (Num r) = (0 < r)"
| "js_pos PosInf = True"
| "js_pos _ = False"

fun js_neg :: "jsnum \<Rightarrow> bool" where
  "js_neg (Num r) = (r < 0)"
| "js_neg NegInf = True"
| "js_neg _ = False"

text \<open>\<open>Math.max(x, 0)\<close>: \<open>NaN\<close> is kept.\<close>

fun js_max0 :: "jsnum \<Rightarrow> jsnum" where
  "js_max0 (Num r) = Num (max r 0)"
| "js_max0 PosInf = PosInf"
| "js_max0 NegInf = Num 0"
| "js_max0 NaN = NaN"

text \<open>\<open>Math.round(x)\<close> rounds halves up.\<close>

definition js_round :: "rat \<Rightarrow> int" where
  "js_round x = \<lfloor>x + 1 / 2\<rfloor>"

section \<open>Strings\<close>

definition is_space :: "char \<Rightarrow> bool" where
  "is_space c \<longleftrightarrow> c \<in> {CHR '' '', CHR 0x09, CHR 0x0A, CHR 0x0B, CHR 0x0C, CHR 0x0D}"

text \<open>\<open>s.trim()\<close>\<close>

definition trim :: "string \<Rightarrow> string" where
  "trim s = rev (dropWhile is_space (rev (dropWhile is_space s)))"

lemma trim_trim: "trim (trim s) = trim s"
proof -
  define u where "u = dropWhile is_space s"
  have again: "dropWhile is_space (dropWhile is_space xs) = dropWhile is_space xs" for xs by (induction xs) auto
  have "u = trim s @ rev (takeWhile is_space (rev u))"
    unfolding trim_def u_def [symmetric] by (metis rev_append rev_rev_ident takeWhile_dropWhile_id)
  then have "trim s = [] \<or> hd (trim s) = hd u \<and> u \<noteq> []" by (metis append_is_Nil_conv hd_append2)
  moreover have "\<not> is_space (hd u)" if "u \<noteq> []" using that hd_dropWhile unfolding u_def by blast
  ultimately have "dropWhile is_space (trim s) = trim s" by (cases "trim s") auto
  moreover have "rev (dropWhile is_space (rev (trim s))) = trim s" by (simp add: trim_def again)
  ultimately show ?thesis by (simp add: trim_def [of "trim s"])
qed

text \<open>\<open>s.toLowerCase()\<close> on ASCII letters, and \<open>s.includes(t)\<close>.\<close>

definition lower_char :: "char \<Rightarrow> char" where
  "lower_char c =
     (if 65 \<le> (of_char c :: nat) \<and> (of_char c :: nat) \<le> 90
      then char_of ((of_char c :: nat) + 32) else c)"

definition lower :: "string \<Rightarrow> string" where
  "lower s = map lower_char s"

definition upper_char :: "char \<Rightarrow> char" where
  "upper_char c =
     (if 97 \<le> (of_char c :: nat) \<and> (of_char c :: nat) \<le> 122
      then char_of ((of_char c :: nat) - 32) else c)"

definition upper :: "string \<Rightarrow> string" where
  "upper s = map upper_char s"

fun starts_with :: "string \<Rightarrow> string \<Rightarrow> bool" where
  "starts_with [] s = True"
| "starts_with (p # ps) [] = False"
| "starts_with (p # ps) (c # cs) = (p = c \<and> starts_with ps cs)"

fun includes_str :: "string \<Rightarrow> string \<Rightarrow> bool" where
  "includes_str t [] = (t = [])"
| "includes_str t (c # cs) = (starts_with t (c # cs) \<or> includes_str t cs)"

text \<open>\<open>/^\d+$/.test(s)\<close>\<close>

definition is_digits :: "string \<Rightarrow> bool" where
  "is_digits s \<longleftrightarrow> s \<noteq> [] \<and> list_all (\<lambda>c. c \<in> set ''0123456789'') s"

text \<open>\<open>String(x ?? '')\<close> for a nullable string, and JavaScript truthiness of it.\<close>

definition str_or_empty :: "string option \<Rightarrow> string" where
  "str_or_empty x = (case x of None \<Rightarrow> [] | Some s \<Rightarrow> s)"

definition truthy :: "string option \<Rightarrow> bool" where
  "truthy x \<longleftrightarrow> str_or_empty x \<noteq> []"

text \<open>\<open>x ? String(x) : null\<close>\<close>

definition nonempty_or_null :: "string option \<Rightarrow> string option" where
  "nonempty_or_null x = (if truthy x then x else None)"

lemma str_or_empty_simps [simp]:
  "str_or_empty None = []" "str_or_empty (Some s) = s"
  by (simp_all add: str_or_empty_def)

lemma truthy_simps [simp]:
  "\<not> truthy None" "truthy (Some s) \<longleftrightarrow> s \<noteq> []"
  by (simp_all add: truthy_def)

lemma nonempty_or_null_simps [simp]:
  "nonempty_or_null None = None"
  "nonempty_or_null (Some s) = (if s = [] then None else Some s)"
  by (simp_all add: nonempty_or_null_def)

text \<open>The decimal string of a sequence value.\<close>

fun digit_char :: "nat \<Rightarrow> char" where
  "digit_char n = (''0123456789'' ! n)"

fun string_of_nat :: "nat \<Rightarrow> string" where
  "string_of_nat n =
     (if n < 10 then [digit_char n]
      else string_of_nat (n div 10) @ [digit_char (n mod 10)])"

declare string_of_nat.simps [simp del]

definition char_digit :: "char \<Rightarrow> nat" where
  "char_digit c = of_char c - 48"

definition nat_of_string :: "string \<Rightarrow> nat" where
  "nat_of_string s = foldl (\<lambda>n c. 10 * n + char_digit c) 0 s"

lemma char_digit_digit_char: "d < 10 \<Longrightarrow> char_digit (digit_char d) = d"
proof -
  assume "d < 10"
  then have "d \<in> {0, 1, 2, 3, 4, 5, 6, 7, 8, 9}" by auto
  then show ?thesis by (auto simp: char_digit_def)
qed

text \<open>Printing a sequence value and reading it back gives the value, so keys never collide.\<close>

lemma nat_of_string_of_nat [simp]: "nat_of_string (string_of_nat n) = n"
proof (induction n rule: string_of_nat.induct)
  case (1 n)
  show ?case
  proof (cases "n < 10")
    case True
    then show ?thesis
      using char_digit_digit_char [OF True]
      by (simp add: string_of_nat.simps [of n] nat_of_string_def del: digit_char.simps)
  next
    case False
    with 1 have "nat_of_string (string_of_nat (n div 10)) = n div 10" by simp
    then show ?thesis
      using False char_digit_digit_char [of "n mod 10"]
      by (simp add: string_of_nat.simps [of n] nat_of_string_def del: digit_char.simps)
  qed
qed

lemma string_of_nat_inject [simp]: "string_of_nat m = string_of_nat n \<longleftrightarrow> m = n"
  by (metis nat_of_string_of_nat)

lemma digit_char_mem: "d < 10 \<Longrightarrow> digit_char d \<in> set ''0123456789''"
proof -
  assume "d < 10"
  then have "d \<in> {0, 1, 2, 3, 4, 5, 6, 7, 8, 9}" by auto
  then show ?thesis by auto
qed

lemma is_digits_string_of_nat [simp]: "is_digits (string_of_nat n)"
proof (induction n rule: string_of_nat.induct)
  case (1 n)
  then show ?case
    using digit_char_mem [of n] digit_char_mem [of "n mod 10"]
    by (cases "n < 10")
      (simp_all add: string_of_nat.simps [of n] is_digits_def del: digit_char.simps set_simps)
qed

section \<open>Errors\<close>

datatype rpc_error = Rpc nat string

abbreviation badRequest :: "string \<Rightarrow> rpc_error" where "badRequest m \<equiv> Rpc 400 m"
abbreviation forbidden :: "string \<Rightarrow> rpc_error" where "forbidden m \<equiv> Rpc 403 m"
abbreviation notFound :: "string \<Rightarrow> rpc_error" where "notFound m \<equiv> Rpc 404 m"
abbreviation internalError :: "string \<Rightarrow> rpc_error" where "internalError m \<equiv> Rpc 500 m"

abbreviation conflict :: "string \<Rightarrow> rpc_error" where
  "conflict m \<equiv> Rpc 409 m"

text \<open>An error of the database that no handler translates.\<close>

definition db_error :: rpc_error where
  "db_error = internalError ''Internal server error''"

fun rbind :: "'e + 'a \<Rightarrow> ('a \<Rightarrow> 'e + 'b) \<Rightarrow> 'e + 'b" where
  "rbind (Inl e) f = Inl e"
| "rbind (Inr x) f = f x"

lemma rbind_ok: "\<exists>y. m = Inr y \<Longrightarrow> (\<And>y. \<exists>z. f y = Inr z) \<Longrightarrow> \<exists>z. rbind m f = Inr z"
  by (cases m) auto

lemma fst_result: "fst x = r \<Longrightarrow> (\<And>a b. x = (r, a, b) \<Longrightarrow> thesis) \<Longrightarrow> thesis"
  by (cases x) auto

text \<open>A guard that throws.\<close>

definition require :: "bool \<Rightarrow> 'e \<Rightarrow> 'e + unit" where
  "require b e = (if b then Inr () else Inl e)"

lemma rbind_Inr [result_simps]: "rbind x f = Inr y \<longleftrightarrow> (\<exists>a. x = Inr a \<and> f a = Inr y)"
  by (cases x) auto

lemma rbind_Inl [result_simps]:
  "rbind x f = Inl e \<longleftrightarrow> x = Inl e \<or> (\<exists>a. x = Inr a \<and> f a = Inl e)"
  by (cases x) auto

lemma require_Inr [result_simps]: "require b e = Inr u \<longleftrightarrow> b"
  by (simp add: require_def)

lemma require_Inl [result_simps]: "require b e = Inl e' \<longleftrightarrow> \<not> b \<and> e' = e"
  by (auto simp: require_def)

lemma rbind_require [simp]:
  "rbind (require True e) f = f ()" "rbind (require False e) f = Inl e"
  by (simp_all add: require_def)

text \<open>\<open>Array.from(new Set(xs))\<close> keeps the first occurrences, in order.\<close>

fun dedup :: "'a list \<Rightarrow> 'a list" where
  "dedup [] = []"
| "dedup (x # xs) = x # filter (\<lambda>y. y \<noteq> x) (dedup xs)"

lemma dedup_set [simp]: "set (dedup xs) = set xs"
  by (induction xs) auto

lemma dedup_distinct [simp]: "distinct (dedup xs)"
  by (induction xs) auto

text \<open>\<open>find_or e P xs\<close>: the first row that satisfies \<open>P\<close>, or the exception.\<close>

definition find_or :: "'e \<Rightarrow> ('r \<Rightarrow> bool) \<Rightarrow> 'r list \<Rightarrow> 'e + 'r" where
  "find_or e P xs = (case find P xs of None \<Rightarrow> Inl e | Some r \<Rightarrow> Inr r)"

lemma find_or_Inr [result_simps]: "find_or e P xs = Inr r \<longleftrightarrow> find P xs = Some r"
  by (auto simp: find_or_def split: option.splits)

lemma find_or_Inl [result_simps]: "find_or e P xs = Inl e' \<longleftrightarrow> find P xs = None \<and> e' = e"
  by (auto simp: find_or_def split: option.splits)

lemma find_Some_mem: "find P xs = Some r \<Longrightarrow> r \<in> set xs \<and> P r"
  by (auto simp: find_Some_iff)

lemma find_None_all: "find P xs = None \<longleftrightarrow> (\<forall>r\<in>set xs. \<not> P r)"
  by (auto simp: find_None_iff)

lemma find_append_None: "find P xs = None \<Longrightarrow> find P (xs @ [r]) = (if P r then Some r else None)"
  by (induction xs) (auto split: if_splits)

lemma find_append_Some: "find P xs = Some r \<Longrightarrow> find P (xs @ ys) = Some r"
  by (induction xs) (auto split: if_splits)

text \<open>A row that is found is found again after an update that keeps what the query looks at.\<close>

lemma find_map_stable:
  "(\<And>r. r \<in> set xs \<Longrightarrow> P (f r) = P r) \<Longrightarrow> find P (map f xs) = map_option f (find P xs)"
  by (induction xs) auto

section \<open>Who sends a request\<close>

text \<open>The requester the gateway puts into a message: the user, the roles and the branch of the token.\<close>

record requester =
  rq_id :: "string option"
  rq_roles :: "string list"
  rq_branch_id :: "string option"

section \<open>The audit trail\<close>

text \<open>
  \<open>ActivityLogService.log\<close> appends a row and never fails the caller. The columns that identify
  the event are kept; the JSON snapshots are not.
\<close>

record audit_entry =
  au_entity_type :: string
  au_entity_id :: string
  au_action :: string
  au_actor :: "ident option"

definition audit_row :: "string \<Rightarrow> string \<Rightarrow> string \<Rightarrow> ident option \<Rightarrow> audit_entry" where
  "audit_row t i a u = \<lparr>au_entity_type = t, au_entity_id = i, au_action = a, au_actor = u\<rparr>"

section \<open>Tables\<close>

text \<open>
  \<open>repo.save(row)\<close> on a loaded entity writes the row with its primary key; \<open>update_where\<close> is an
  \<open>UPDATE ... WHERE\<close>.
\<close>

definition save_row :: "('r \<Rightarrow> 'k) \<Rightarrow> 'r \<Rightarrow> 'r list \<Rightarrow> 'r list" where
  "save_row key r rs = map (\<lambda>x. if key x = key r then r else x) rs"

definition update_where :: "('r \<Rightarrow> bool) \<Rightarrow> ('r \<Rightarrow> 'r) \<Rightarrow> 'r list \<Rightarrow> 'r list" where
  "update_where P f rs = map (\<lambda>x. if P x then f x else x) rs"

text \<open>A query does not see a saved row that is hidden from it before and after.\<close>

lemma filter_save_hidden:
  "(\<And>x. x \<in> set rs \<Longrightarrow> key x = key r \<Longrightarrow> \<not> P x) \<Longrightarrow> \<not> P r \<Longrightarrow> filter P (save_row key r rs) = filter P rs"
  by (induction rs) (auto simp: save_row_def)

locale table =
  fixes key :: "'r \<Rightarrow> ident"
begin

definition wf :: "nat \<Rightarrow> 'r list \<Rightarrow> bool" where
  "wf n rs \<longleftrightarrow> distinct (map key rs) \<and> (\<forall>r\<in>set rs. \<exists>i<n. key r = string_of_nat i)"

lemma wf_empty: "wf n []"
  by (simp add: wf_def)

lemma keys_save: "map key (save_row key r rs) = map key rs"
  by (induction rs) (auto simp: save_row_def)

lemma wf_save: "wf n rs \<Longrightarrow> wf n (save_row key r rs)"
proof -
  assume wf: "wf n rs"
  have "key ` set (save_row key r rs) = key ` set rs"
    using keys_save [of r rs] by (metis list.set_map)
  with wf show ?thesis
    unfolding wf_def keys_save by (metis (no_types, opaque_lifting) image_iff)
qed

lemma wf_insert: "wf n rs \<Longrightarrow> key r = string_of_nat n \<Longrightarrow> wf (Suc n) (rs @ [r])"
  by (force simp: wf_def less_Suc_eq)

lemma fresh: "wf n rs \<Longrightarrow> r \<in> set rs \<Longrightarrow> key r \<noteq> string_of_nat n"
  by (force simp: wf_def)

lemma wf_update_where:
  "(\<And>r. key (f r) = key r) \<Longrightarrow> wf n rs \<Longrightarrow> wf n (update_where P f rs)"
proof -
  assume k: "\<And>r. key (f r) = key r" and wf: "wf n rs"
  have "map key (update_where P f rs) = map key rs"
    by (simp add: update_where_def k)
  then show ?thesis
    using wf unfolding wf_def by (metis (no_types, opaque_lifting) image_iff list.set_map)
qed

lemma mem_unique: "wf n rs \<Longrightarrow> a \<in> set rs \<Longrightarrow> b \<in> set rs \<Longrightarrow> key a = key b \<Longrightarrow> a = b"
  by (auto simp: wf_def distinct_map inj_on_def)

lemma mem_save: "x \<in> set (save_row key r rs) \<Longrightarrow> x = r \<or> x \<in> set rs \<and> key x \<noteq> key r"
  by (auto simp: save_row_def split: if_splits)

lemma save_mem: "x \<in> set rs \<Longrightarrow> key x = key r \<Longrightarrow> r \<in> set (save_row key r rs)"
  by (force simp: save_row_def image_iff)

lemma other_save: "x \<in> set rs \<Longrightarrow> key x \<noteq> key r \<Longrightarrow> x \<in> set (save_row key r rs)"
  by (force simp: save_row_def image_iff)

lemma find_key_save:
  "find (\<lambda>x. key x = k) (save_row key r rs) =
     (if k = key r \<and> find (\<lambda>x. key x = k) rs \<noteq> None then Some r
      else find (\<lambda>x. key x = k) rs)"
  by (induction rs) (auto simp: save_row_def)

lemma find_key_mem: "wf n rs \<Longrightarrow> r \<in> set rs \<Longrightarrow> find (\<lambda>x. key x = key r) rs = Some r"
proof -
  assume wf: "wf n rs" and r: "r \<in> set rs"
  then have "find (\<lambda>x. key x = key r) rs \<noteq> None" by (auto simp: find_None_iff)
  then obtain y where y: "find (\<lambda>x. key x = key r) rs = Some y" by blast
  from find_Some_mem [OF y] have "y = r" using mem_unique [OF wf] r by blast
  with y show ?thesis by simp
qed

lemma update_where_key:
  assumes "wf n rs" and "r \<in> set rs" and "key (f r) = key r"
  shows "update_where (\<lambda>x. key x = key r) f rs = save_row key (f r) rs"
  using assms mem_unique [OF assms(1)]
  by (auto simp: update_where_def save_row_def intro!: map_cong)

text \<open>Updating a list of distinct rows one by one updates exactly those rows, once each.\<close>

lemma fold_update_where:
  assumes "\<And>r. key (f r) = key r" and "distinct (map key xs)"
  shows "fold (\<lambda>x. update_where (\<lambda>r. key r = key x) f) xs rs
       = map (\<lambda>r. if key r \<in> key ` set xs then f r else r) rs"
  using assms(2)
proof (induction xs arbitrary: rs)
  case (Cons x xs)
  have "key x \<notin> key ` set xs" using Cons.prems by simp
  then show ?case
    using Cons by (auto simp: update_where_def assms(1))
qed simp

lemma save_same: "wf n rs \<Longrightarrow> r \<in> set rs \<Longrightarrow> save_row key r rs = rs"
  using mem_unique by (auto simp: save_row_def intro!: map_idI)

text \<open>The sum of a column changes by what the saved row changes.\<close>

lemma sum_save:
  fixes f :: "'r \<Rightarrow> rat"
  assumes "wf n rs" and "x \<in> set rs" and "key x = key r"
  shows "(\<Sum>y\<leftarrow>save_row key r rs. f y) = (\<Sum>y\<leftarrow>rs. f y) - f x + f r"
  using assms
proof (induction rs)
  case Nil
  then show ?case by simp
next
  case (Cons y ys)
  have wf: "wf n ys" using Cons.prems(1) by (auto simp: wf_def)
  show ?case
  proof (cases "y = x")
    case True
    then have "key z \<noteq> key r" if "z \<in> set ys" for z
      using that Cons.prems by (simp add: wf_def) (metis image_eqI)
    then have "save_row key r ys = ys" by (auto simp: save_row_def map_idI)
    with True Cons.prems show ?thesis by (simp add: save_row_def)
  next
    case False
    with Cons.prems have x: "x \<in> set ys" by simp
    then have "key y \<noteq> key r"
      using Cons.prems by (simp add: wf_def) (metis image_eqI)
    with Cons.IH [OF wf x Cons.prems(3)] show ?thesis by (simp add: save_row_def)
  qed
qed

end

text \<open>
  A column that at most one row in use may carry: the contract of the partial unique indexes of the
  tables. \<open>dead\<close> tells the rows the index ignores.
\<close>

locale live_unique = table key for key :: "'r \<Rightarrow> ident" +
  fixes col :: "'r \<Rightarrow> 'k" and dead :: "'r \<Rightarrow> bool"
begin

definition uniq :: "'r list \<Rightarrow> bool" where
  "uniq rs \<longleftrightarrow> (\<forall>a\<in>set rs. \<forall>b\<in>set rs. \<not> dead a \<and> \<not> dead b \<and> col a = col b \<longrightarrow> a = b)"

lemma uniq_empty: "uniq []"
  by (simp add: uniq_def)

lemma uniq_insert: "uniq rs \<Longrightarrow> (\<And>x. x \<in> set rs \<Longrightarrow> \<not> dead x \<Longrightarrow> col x \<noteq> col r) \<Longrightarrow> uniq (rs @ [r])"
  unfolding uniq_def by auto blast

lemma uniq_save:
  assumes "uniq rs" and "\<And>x. x \<in> set rs \<Longrightarrow> key x \<noteq> key r \<Longrightarrow> \<not> dead x \<Longrightarrow> \<not> dead r \<Longrightarrow> col x \<noteq> col r"
  shows "uniq (save_row key r rs)"
  unfolding uniq_def
proof (intro ballI impI)
  fix a b
  assume "a \<in> set (save_row key r rs)" "b \<in> set (save_row key r rs)" and h: "\<not> dead a \<and> \<not> dead b \<and> col a = col b"
  then have "a = r \<or> a \<in> set rs \<and> key a \<noteq> key r" "b = r \<or> b \<in> set rs \<and> key b \<noteq> key r" using mem_save by blast+
  then show "a = b" using assms h unfolding uniq_def by metis
qed

lemma uniqD: "uniq rs \<Longrightarrow> a \<in> set rs \<Longrightarrow> b \<in> set rs \<Longrightarrow> \<not> dead a \<Longrightarrow> \<not> dead b \<Longrightarrow> col a = col b \<Longrightarrow> a = b"
  unfolding uniq_def by blast

end

section \<open>Handlers that recognise a request they have already applied\<close>

text \<open>
  \<open>step\<close> handles a delivery and returns the new state; \<open>rkey\<close> is the deduplication key a delivery
  carries, if any; \<open>applied\<close> says that the state records the key. The laws are what the code
  promises of a deduplicating handler: a delivery whose key is recorded changes nothing, a
  delivery with a key that changes the state records it, and a record is never lost. A request
  that was refused may be refused again or applied later.
\<close>

locale at_most_once =
  fixes step :: "'s \<Rightarrow> 'q \<Rightarrow> 's"
    and rkey :: "'q \<Rightarrow> 'k option"
    and applied :: "'s \<Rightarrow> 'k \<Rightarrow> bool"
    and ok :: "'s \<Rightarrow> bool"
  assumes replay: "ok s \<Longrightarrow> rkey q = Some k \<Longrightarrow> applied s k \<Longrightarrow> step s q = s"
    and recorded: "ok s \<Longrightarrow> rkey q = Some k \<Longrightarrow> step s q \<noteq> s \<Longrightarrow> applied (step s q) k"
    and kept: "ok s \<Longrightarrow> applied s k \<Longrightarrow> applied (step s q) k"
    and ok_step: "ok s \<Longrightarrow> ok (step s q)"
begin

definition run :: "'s \<Rightarrow> 'q list \<Rightarrow> 's" where
  "run = foldl step"

lemma run_simps [simp]: "run s [] = s" "run s (q # qs) = run (step s q) qs"
  by (simp_all add: run_def)

lemma run_ok: "ok s \<Longrightarrow> ok (run s qs)"
  by (induction qs arbitrary: s) (auto intro: ok_step)

lemma run_kept: "ok s \<Longrightarrow> applied s k \<Longrightarrow> applied (run s qs) k"
  by (induction qs arbitrary: s) (auto intro: ok_step kept)

text \<open>
  A request that took effect takes effect once: a later delivery with the same key, after any
  other traffic, leaves the state as it is.
\<close>

lemma redelivery:
  assumes "ok s" and "rkey q = Some k" and "rkey q' = Some k" and "step s q \<noteq> s"
  shows "step (run (step s q) qs) q' = run (step s q) qs"
  by (rule replay [where k = k]) (use assms in \<open>auto intro: run_ok ok_step run_kept recorded\<close>)

lemma redeliver_now:
  "ok s \<Longrightarrow> rkey q = Some k \<Longrightarrow> step (step s q) q = step s q"
  using redelivery [of s q k q "[]"] by (cases "step s q = s") auto

lemma redeliver_many:
  "ok s \<Longrightarrow> rkey q = Some k \<Longrightarrow> run s (replicate (Suc n) q) = step s q"
  by (induction n arbitrary: s) (auto simp: redeliver_now intro: ok_step)

end

end
