(* ===== verification/Elchi_Enums.thy ===== *)
theory Elchi_Enums
  imports Elchi_Prelude
begin

text \<open>
  The enumerations of \<open>libs/common/enums/index.ts\<close> and of the order entity, one datatype per
  enum with the constructors in the order of the source, and the wire strings of the ones the
  code compares as strings.
\<close>

datatype Roles =
    SUPERADMIN | ADMIN | COURIER | REGISTRATOR | MARKET | CUSTOMER | OPERATOR
  | MARKET_OPERATOR | MANAGER | BRANCH | INVESTOR

fun role_name :: "Roles \<Rightarrow> string" where
  "role_name SUPERADMIN = ''superadmin''"
| "role_name ADMIN = ''admin''"
| "role_name COURIER = ''courier''"
| "role_name REGISTRATOR = ''registrator''"
| "role_name MARKET = ''market''"
| "role_name CUSTOMER = ''customer''"
| "role_name OPERATOR = ''operator''"
| "role_name MARKET_OPERATOR = ''market_operator''"
| "role_name MANAGER = ''manager''"
| "role_name BRANCH = ''branch''"
| "role_name INVESTOR = ''investor''"

datatype BranchOwnership = OWNED | PARTNER

datatype CourierCompensationMode = SALARY_ONLY | PER_ORDER | SALARY_PLUS_PER_ORDER

datatype SettlementStatus = PENDING | COURIER_SETTLED | BRANCH_SETTLED | MARKET_SETTLED

datatype PaymentMethod = CASH | CLICK | CLICK_TO_MARKET

datatype Operation_type = INCOME | EXPENSE

datatype Commission_type = PERCENT | FIXED

datatype Source_type =
    COURIER_PAYMENT | BRANCH_TO_MAIN | MARKET_PAYMENT | MANUAL_EXPENSE | MANUAL_INCOME
  | CORRECTION | SALARY | SELL | CANCEL | EXTRA_COST | BILLS

datatype FinancialSource_type =
    F_SELL_PROFIT | F_SELL_EXTRA_COST | F_CANCEL_EXTRA_COST | F_MANUAL_INCOME
  | F_MANUAL_EXPENSE | F_SALARY | F_CORRECTION | F_BILLS

datatype ExpenseProofCondition =
    P_SELL_ANY | P_SELL_EXTRA_COST | P_SELL_ZERO_TOTAL
  | P_CANCEL_ANY | P_CANCEL_EXTRA_COST | P_CANCEL_ZERO_TOTAL

datatype Order_status =
    CREATED | NEW | RECEIVED | ON_THE_ROAD | WAITING | WAITING_CUSTOMER | SOLD | CANCELLED
  | RETURNED_TO_MARKET | PAID | PARTLY_PAID | CANCELLED_SENT | CLOSED

datatype Cashbox_type = C_MAIN | FOR_COURIER | FOR_MARKET | C_BRANCH

datatype Where_deliver = CENTER | ADDRESS

datatype OrderHolderType = H_HQ | H_BRANCH | H_COURIER | H_MARKET

text \<open>The three states of an order whose cash has been collected.\<close>

definition soldStates :: "Order_status list" where
  "soldStates = [SOLD, PAID, PARTLY_PAID]"

lemma soldStates_simps [simp]:
  "s \<in> set soldStates \<longleftrightarrow> s = SOLD \<or> s = PAID \<or> s = PARTLY_PAID"
  by (auto simp: soldStates_def)

end
