(* ===== verification/Order_Custody.thy ===== *)
theory Order_Custody
  imports Elchi_Enums
begin

text \<open>
  \<open>apps/order-service/src/custody/order-custody.service.ts\<close>: the tracking and custody events every
  order operation writes, how the action and the description of a tracking event are derived, and
  which of the requester's roles an event is attributed to. The JSON snapshots of an event are not
  kept.
\<close>

fun status_name :: "Order_status \<Rightarrow> string" where
  "status_name CREATED = ''created''"
| "status_name NEW = ''new''"
| "status_name RECEIVED = ''received''"
| "status_name ON_THE_ROAD = ''on the road''"
| "status_name WAITING = ''waiting''"
| "status_name WAITING_CUSTOMER = ''waiting_customer''"
| "status_name SOLD = ''sold''"
| "status_name CANCELLED = ''cancelled''"
| "status_name RETURNED_TO_MARKET = ''returned_to_market''"
| "status_name PAID = ''paid''"
| "status_name PARTLY_PAID = ''partly_paid''"
| "status_name CANCELLED_SENT = ''cancelled (sent)''"
| "status_name CLOSED = ''closed''"

subsection \<open>Deriving the action\<close>

fun action_of_target :: "Order_status \<Rightarrow> string" where
  "action_of_target CREATED = ''created''"
| "action_of_target NEW = ''created''"
| "action_of_target RECEIVED = ''received''"
| "action_of_target ON_THE_ROAD = ''sent''"
| "action_of_target WAITING = ''waiting''"
| "action_of_target WAITING_CUSTOMER = ''waiting_customer''"
| "action_of_target SOLD = ''sold''"
| "action_of_target PAID = ''paid''"
| "action_of_target PARTLY_PAID = ''partly_paid''"
| "action_of_target CANCELLED = ''cancelled''"
| "action_of_target CANCELLED_SENT = ''cancelled_sent''"
| "action_of_target RETURNED_TO_MARKET = ''returned_to_market''"
| "action_of_target CLOSED = ''closed''"

definition inferTrackingAction :: "Order_status option \<Rightarrow> Order_status \<Rightarrow> string option \<Rightarrow> string" where
  "inferTrackingAction fromStatus toStatus note =
     (let normalizedNote = lower (str_or_empty note) in
      if includes_str ''partly'' normalizedNote then ''partly_sold''
      else if includes_str ''rollback'' normalizedNote then ''rollback''
      else case fromStatus of
             None \<Rightarrow> if toStatus = CREATED \<or> toStatus = NEW then ''created'' else ''status_change''
           | Some f \<Rightarrow> if f = toStatus then ''note'' else action_of_target toStatus)"

definition action_descriptions :: "(string \<times> string) list" where
  "action_descriptions =
     [(''created'', ''Buyurtma yaratildi''), (''received'', ''Buyurtma qabul qilindi''),
      (''sent'', ''Buyurtma yo'lga chiqdi''), (''waiting'', ''Buyurtma kutilmoqda holatiga qaytarildi''),
      (''waiting_customer'', ''Mijoz kutilmoqda holatiga o'tkazildi''), (''sold'', ''Buyurtma sotildi''),
      (''paid'', ''Buyurtma to'landi''), (''partly_sold'', ''Buyurtma qisman sotildi''),
      (''partly_paid'', ''Buyurtma qisman sotildi''), (''cancelled'', ''Buyurtma bekor qilindi''),
      (''cancelled_sent'', ''Bekor qilingan buyurtma jo'natildi''),
      (''returned_to_market'', ''Buyurtma marketga qaytarildi''), (''closed'', ''Buyurtma yopildi''),
      (''rollback'', ''Buyurtma oldingi holatga qaytarildi''),
      (''note'', ''Buyurtma trackingiga izoh yozildi'')]"

definition describeTrackingAction :: "string \<Rightarrow> Order_status option \<Rightarrow> Order_status \<Rightarrow> string" where
  "describeTrackingAction act fromStatus toStatus =
     (case map_of action_descriptions act of
        Some d \<Rightarrow> d
      | None \<Rightarrow> (case fromStatus of None \<Rightarrow> ''empty'' | Some f \<Rightarrow> status_name f) @ '' holatidan ''
                  @ status_name toStatus @ '' holatiga o'zgartirildi'')"

definition note_descriptions :: "(string \<times> string) list" where
  "note_descriptions =
     [(''order created'', ''Buyurtma yaratildi''), (''order sold'', ''Buyurtma sotildi''),
      (''order partly sold'', ''Buyurtma qisman sotildi''), (''order canceled'', ''Buyurtma bekor qilindi''),
      (''rollback to waiting'', ''Buyurtma kutilmoqda holatiga qaytarildi''),
      (''rollback to cancelled'', ''Buyurtma bekor qilingan holatiga qaytarildi''),
      (''rollback to cancelled_sent'', ''Buyurtma bekor qilinib pochtaga qo'shildi''),
      (''order assigned to post'', ''Buyurtma pochtaga biriktirildi''),
      (''branch canceled post sent to hq'', ''Branch bekor qilingan pochtani HQga jo'natdi''),
      (''canceled order received by hq and held for market handover'', ''HQ bekor qilingan pochtani qabul qildi''),
      (''canceled order received by branch manager'', ''Branch manager bekor qilingan pochtani qabul qildi''),
      (''canceled post created'', ''Courier bekor qilingan pochtani branchga jo'natdi''),
      (''partly-sell unsold items canceled'', ''Qisman sotishdan qolgan mahsulotlar bekor qilindi''),
      (''partly-sell canceled items custody assigned'',
       ''Qisman sotishdan bekor qilingan buyurtma egasi belgilandi'')]"

definition describeTrackingNote :: "string option \<Rightarrow> string option" where
  "describeTrackingNote note =
     (let normalized = lower (trim (str_or_empty note)) in
      if normalized = [] then None
      else case map_of note_descriptions normalized of Some d \<Rightarrow> Some d | None \<Rightarrow> note)"

subsection \<open>Attribution\<close>

definition role_priority :: "Roles list" where
  "role_priority = [SUPERADMIN, ADMIN, MANAGER, REGISTRATOR, OPERATOR, COURIER, MARKET,
     MARKET_OPERATOR, BRANCH, INVESTOR, CUSTOMER]"

definition toTrackingRole :: "string list \<Rightarrow> string" where
  "toTrackingRole roles =
     (let normalized = filter (\<lambda>r. r \<noteq> []) (map (\<lambda>r. lower (trim r)) roles) in
      case find (\<lambda>r. r \<in> set normalized) (map role_name role_priority) of
        Some r \<Rightarrow> r
      | None \<Rightarrow> (case normalized of r # _ \<Rightarrow> r | [] \<Rightarrow> ''system''))"

subsection \<open>Events\<close>

record tracking =
  tr_order_id :: ident
  tr_from_status :: "Order_status option"
  tr_to_status :: Order_status
  tr_action :: string
  tr_description :: string
  tr_changed_by :: string
  tr_changed_by_role :: string
  tr_note :: "string option"

record custody =
  cu_order_id :: ident
  cu_from_holder_type :: "OrderHolderType option"
  cu_to_holder_type :: OrderHolderType
  cu_from_branch_id :: "ident option"
  cu_to_branch_id :: "ident option"
  cu_from_courier_id :: "ident option"
  cu_to_courier_id :: "ident option"
  cu_changed_by :: string
  cu_changed_by_role :: string
  cu_note :: "string option"

definition createTrackingEvent ::
  "ident \<Rightarrow> Order_status option \<Rightarrow> Order_status \<Rightarrow> string \<Rightarrow> string \<Rightarrow> string option \<Rightarrow> string option
   \<Rightarrow> string option \<Rightarrow> tracking" where
  "createTrackingEvent order_id from_status to_status changer role given description note =
     (let act = (case given of Some a \<Rightarrow> a | None \<Rightarrow> inferTrackingAction from_status to_status note)
      in \<lparr>tr_order_id = order_id, tr_from_status = from_status, tr_to_status = to_status,
          tr_action = act,
          tr_description = (case description of Some d \<Rightarrow> d
             | None \<Rightarrow> (case describeTrackingNote note of Some d \<Rightarrow> d
                       | None \<Rightarrow> describeTrackingAction act from_status to_status)),
          tr_changed_by = changer, tr_changed_by_role = role, tr_note = note\<rparr>)"

text \<open>The actor columns of an event written on behalf of an optional requester.\<close>

definition changed_by :: "string option \<Rightarrow> string" where
  "changed_by i = (case i of Some u \<Rightarrow> u | None \<Rightarrow> ''system'')"

definition changed_by_role :: "string option \<Rightarrow> string list \<Rightarrow> string" where
  "changed_by_role i roles = (if truthy i then toTrackingRole roles else ''system'')"

end
