(* ===== verification/Order_Status.thy ===== *)
theory Order_Status
  imports Elchi_Enums
begin

text \<open>
  The order lifecycle state machine of
  \<open>apps/order-service/src/domain/order-status.machine.ts\<close>: the transition table, the test the
  update path applies to every status write, and the status an order is first recorded under.
  The machine is also given as an inductive step relation, over which the reachability facts
  are proved.
\<close>

fun ORDER_STATUS_TRANSITIONS :: "Order_status \<Rightarrow> Order_status list" where
  "ORDER_STATUS_TRANSITIONS CREATED = [NEW, RECEIVED, CANCELLED]"
| "ORDER_STATUS_TRANSITIONS NEW = [RECEIVED, CANCELLED]"
| "ORDER_STATUS_TRANSITIONS RECEIVED = [ON_THE_ROAD, WAITING, CANCELLED]"
| "ORDER_STATUS_TRANSITIONS ON_THE_ROAD = [WAITING, WAITING_CUSTOMER, CANCELLED]"
| "ORDER_STATUS_TRANSITIONS WAITING_CUSTOMER =
     [ON_THE_ROAD, WAITING, RETURNED_TO_MARKET, CANCELLED]"
| "ORDER_STATUS_TRANSITIONS WAITING =
     [ON_THE_ROAD, SOLD, PARTLY_PAID, PAID, CANCELLED, RETURNED_TO_MARKET, CLOSED]"
| "ORDER_STATUS_TRANSITIONS SOLD = [PAID, WAITING, CLOSED]"
| "ORDER_STATUS_TRANSITIONS PARTLY_PAID = [PAID, WAITING, CLOSED]"
| "ORDER_STATUS_TRANSITIONS PAID = [WAITING, CLOSED]"
| "ORDER_STATUS_TRANSITIONS CANCELLED = [WAITING, CANCELLED_SENT, CLOSED]"
| "ORDER_STATUS_TRANSITIONS RETURNED_TO_MARKET = []"
| "ORDER_STATUS_TRANSITIONS CANCELLED_SENT = [CANCELLED, CLOSED]"
| "ORDER_STATUS_TRANSITIONS CLOSED = [WAITING]"

definition isValidStatusTransition :: "Order_status \<Rightarrow> Order_status \<Rightarrow> bool" where
  "isValidStatusTransition from to \<longleftrightarrow>
     (if from = to then True else to \<in> set (ORDER_STATUS_TRANSITIONS from))"

definition mapInitialStatusForTracking :: "Order_status \<Rightarrow> Order_status" where
  "mapInitialStatusForTracking status = (if status = NEW then CREATED else status)"

subsection \<open>The machine as a step relation\<close>

inductive status_step :: "Order_status \<Rightarrow> Order_status \<Rightarrow> bool" where
  "isValidStatusTransition s t \<Longrightarrow> s \<noteq> t \<Longrightarrow> status_step s t"

inductive_simps status_step_iff: "status_step s t"

lemma status_step_table: "status_step s t \<longleftrightarrow> s \<noteq> t \<and> t \<in> set (ORDER_STATUS_TRANSITIONS s)"
  by (auto simp: status_step_iff isValidStatusTransition_def)

text \<open>A run of the machine: consecutive statuses are steps.\<close>

fun status_run :: "Order_status list \<Rightarrow> bool" where
  "status_run [] = True"
| "status_run [s] = True"
| "status_run (s # t # ts) = (status_step s t \<and> status_run (t # ts))"

text \<open>How far an order has come: no step leads from a later phase back to intake.\<close>

fun phase :: "Order_status \<Rightarrow> nat" where
  "phase CREATED = 0"
| "phase NEW = 1"
| "phase RECEIVED = 2"
| "phase _ = 3"

lemma status_step_phase: "status_step s t \<Longrightarrow> phase s \<le> phase t"
  by (cases s) (auto simp: status_step_table)

lemma status_run_phase: "status_step\<^sup>*\<^sup>* s t \<Longrightarrow> phase s \<le> phase t"
  by (induction rule: rtranclp_induct) (auto dest: status_step_phase)

lemma into_sold: "status_step s t \<Longrightarrow> t \<in> set soldStates \<Longrightarrow> s = WAITING \<or> s \<in> set soldStates"
  by (cases s) (auto simp: status_step_table)

subsection \<open>Properties\<close>

text \<open>
  C40. Collecting cash goes through WAITING: a run of status changes that starts in a state where
  nothing has been sold and ends in SOLD, PAID or PARTLY_PAID passes through WAITING, the state
  in which the sale handlers lock the order.
\<close>

theorem sold_only_through_waiting:
  assumes "status_run (s # ts)" and "s \<notin> set soldStates" and "last (s # ts) \<in> set soldStates"
  shows "WAITING \<in> set (s # ts)"
  using assms
proof (induction ts arbitrary: s)
  case Nil
  then show ?case by simp
next
  case (Cons t ts)
  show ?case
  proof (cases "t \<in> set soldStates")
    case True
    with Cons.prems show ?thesis by (auto dest: into_sold)
  next
    case False
    with Cons show ?thesis by fastforce
  qed
qed

theorem sold_only_through_waiting_witness:
  "status_run (NEW # [RECEIVED, ON_THE_ROAD, WAITING, SOLD, PAID])
   \<and> WAITING \<in> set (NEW # [RECEIVED, ON_THE_ROAD, WAITING, SOLD, PAID])"
proof -
  have run: "status_run (NEW # [RECEIVED, ON_THE_ROAD, WAITING, SOLD, PAID])"
    by (simp add: status_step_table)
  show ?thesis
    using run sold_only_through_waiting [OF run] by simp
qed

text \<open>
  RETURNED_TO_MARKET is the only terminal status: it has no successor, and from every other
  status an order can still be brought to CLOSED.
\<close>

theorem returned_to_market_terminal:
  "((\<forall>t. \<not> status_step s t) \<longleftrightarrow> s = RETURNED_TO_MARKET)
   \<and> (status_step\<^sup>*\<^sup>* s CLOSED \<longleftrightarrow> s \<noteq> RETURNED_TO_MARKET)"
proof -
  have stuck: "\<not> status_step RETURNED_TO_MARKET t" for t by (simp add: status_step_table)
  have direct: "s \<noteq> CLOSED \<Longrightarrow> s \<noteq> RETURNED_TO_MARKET \<Longrightarrow>
      status_step s CLOSED \<or> status_step s CANCELLED" for s
    by (cases s) (auto simp: status_step_table)
  have "status_step CANCELLED CLOSED" by (simp add: status_step_table)
  with direct have reach: "s \<noteq> RETURNED_TO_MARKET \<Longrightarrow> status_step\<^sup>*\<^sup>* s CLOSED" for s
    by (metis converse_rtranclp_into_rtranclp rtranclp.rtrancl_refl)
  have "\<not> status_step\<^sup>*\<^sup>* RETURNED_TO_MARKET CLOSED"
    using stuck by (auto elim: converse_rtranclpE)
  with reach have "status_step\<^sup>*\<^sup>* s CLOSED \<longleftrightarrow> s \<noteq> RETURNED_TO_MARKET" by blast
  moreover have "(\<forall>t. \<not> status_step s t) \<longleftrightarrow> s = RETURNED_TO_MARKET"
    by (cases s) (auto simp: status_step_table)
  ultimately show ?thesis by blast
qed

end
