(* ===== verification/Order_Money.thy ===== *)
theory Order_Money
  imports Elchi_Enums
begin

text \<open>
  The cash-on-delivery split of one sold order, from
  \<open>apps/order-service/src/domain/order-money.ts\<close>: who keeps what, what is owed up the chain,
  and the conservation identity the module documents.
\<close>

definition round2 :: "money \<Rightarrow> money" where
  "round2 n = of_int (js_round (n * 100)) / 100"

definition computeSellProfit :: "money \<Rightarrow> money \<Rightarrow> money \<Rightarrow> money" where
  "computeSellProfit marketTariff courierShare branchShare =
     marketTariff - courierShare - branchShare"

text \<open>
  The actor of a sale as the split sees it: the compensation mode of a courier, or \<open>None\<close> for a
  null actor, a null mode or a mode string outside the enum.
\<close>

type_synonym actor_mode = "CourierCompensationMode option"

definition resolveCourierShare :: "actor_mode \<Rightarrow> money \<Rightarrow> money" where
  "resolveCourierShare courier courierTariff =
     (if courier = Some SALARY_ONLY then 0 else courierTariff)"

definition resolveSaleActorShare :: "bool \<Rightarrow> actor_mode \<Rightarrow> money \<Rightarrow> money" where
  "resolveSaleActorShare isManagerSale financialActor tariff =
     (if isManagerSale then tariff else resolveCourierShare financialActor tariff)"

definition resolveBranchCashboxSaleAmount :: "money \<Rightarrow> money \<Rightarrow> bool \<Rightarrow> money" where
  "resolveBranchCashboxSaleAmount totalPrice branchPayable isManagerSale = branchPayable"

record sale_share_inputs =
  total :: money
  marketTariff :: money
  courierShare :: money
  branchShare :: money

record sale_legs =
  marketReceivable :: money
  courierKept :: money
  branchKept :: money
  hqProfit :: money
  courierAmount :: money
  branchAmount :: money
  marketAmount :: money

definition computeSaleLegs :: "sale_share_inputs \<Rightarrow> sale_legs" where
  "computeSaleLegs i =
     \<lparr>marketReceivable = round2 (total i - marketTariff i),
      courierKept = round2 (courierShare i),
      branchKept = round2 (branchShare i),
      hqProfit = round2 (marketTariff i - courierShare i - branchShare i),
      courierAmount = round2 (total i - courierShare i),
      branchAmount = round2 (total i - courierShare i - branchShare i),
      marketAmount = round2 (total i - marketTariff i)\<rparr>"

subsection \<open>Rounding to two decimals\<close>

text \<open>The values a \<open>numeric(14,2)\<close> column can hold.\<close>

definition two_dp :: "money \<Rightarrow> bool" where
  "two_dp x \<longleftrightarrow> x * 100 \<in> \<int>"

lemma two_dp_diff: "two_dp x \<Longrightarrow> two_dp y \<Longrightarrow> two_dp (x - y)"
  by (simp add: two_dp_def left_diff_distrib)

lemma js_round_of_int [simp]: "js_round (of_int k) = k"
  by (simp add: js_round_def floor_unique)

lemma round2_id: "two_dp x \<Longrightarrow> round2 x = x"
  by (auto simp: two_dp_def round2_def elim!: Ints_cases)

lemma two_dp_round2: "two_dp (round2 x)"
  by (simp add: two_dp_def round2_def)

lemma round2_error: "\<bar>round2 x - x\<bar> \<le> 1 / 200"
proof -
  define k where "k = js_round (x * 100)"
  have "of_int k \<le> x * 100 + 1 / 2" and "x * 100 + 1 / 2 < of_int k + 1"
    unfolding k_def js_round_def by linarith+
  then have half: "\<bar>of_int k - x * 100\<bar> \<le> 1 / 2" by linarith
  have "round2 x - x = (of_int k - x * 100) / 100"
    by (simp add: round2_def k_def)
  then have eq: "\<bar>round2 x - x\<bar> = \<bar>of_int k - x * 100\<bar> / 100"
    by (simp only: abs_divide abs_numeral)
  show ?thesis unfolding eq using half by simp
qed

subsection \<open>Properties\<close>

text \<open>
  C38. Conservation of a sale: on amounts the money columns can hold, what the market receives,
  what the courier and the branch keep and HQ's profit add up to exactly the price the customer
  paid; each leg owed up the chain is the one above it less what the hop keeps.
\<close>

theorem sale_legs_conserve:
  assumes "two_dp (total i)" and "two_dp (marketTariff i)"
    and "two_dp (courierShare i)" and "two_dp (branchShare i)"
  shows "let l = computeSaleLegs i in
      marketReceivable l + courierKept l + branchKept l + hqProfit l = total i
      \<and> courierAmount l + courierKept l = total i
      \<and> branchAmount l + branchKept l = courierAmount l
      \<and> marketAmount l + hqProfit l = branchAmount l"
  using assms by (simp add: computeSaleLegs_def Let_def round2_id two_dp_diff)

theorem sale_legs_conserve_witness:
  "let l = computeSaleLegs \<lparr>total = 250000, marketTariff = 45000, courierShare = 20000,
                            branchShare = 24999 / 2\<rparr>
   in marketReceivable l + courierKept l + branchKept l + hqProfit l = 250000
      \<and> branchAmount l = 435001 / 2"
proof -
  let ?i = "\<lparr>total = 250000, marketTariff = 45000, courierShare = 20000,
             branchShare = 24999 / 2\<rparr> :: sale_share_inputs"
  have h: "two_dp (total ?i)" "two_dp (marketTariff ?i)" "two_dp (courierShare ?i)"
      "two_dp (branchShare ?i)"
    by (simp_all add: two_dp_def)
  have b: "branchAmount (computeSaleLegs ?i) = 435001 / 2"
    by (simp add: computeSaleLegs_def round2_id two_dp_def)
  show ?thesis using sale_legs_conserve [OF h] b by (simp add: Let_def)
qed


end
