(* ===== verification/Outbox.thy ===== *)
theory Outbox
  imports Elchi_Prelude "HOL-Library.Product_Lexorder" "HOL-Library.Multiset"
begin

text \<open>
  The transactional outbox of \<open>libs/common/src/outbox\<close>: the event table (\<open>OutboxService\<close>) and the
  polling publisher (\<open>OutboxPublisher\<close>). Time is an argument (milliseconds); the broker and the
  consumer behind it are a parameter of the publisher, a function that delivers one event to a
  consumer state and says whether the reply arrived.
\<close>

datatype OutboxStatus = Pending | Published | Failed

record 'p event =
  e_id :: ident
  e_target :: string
  e_pattern :: string
  e_payload :: 'p
  e_request_id :: string
  e_status :: OutboxStatus
  e_attempts :: nat
  e_last_error :: "string option"
  e_scheduled_at :: time
  e_published_at :: "time option"
  e_created_at :: time

record 'p outbox =
  events :: "'p event list"
  event_seq :: nat

definition empty_outbox :: "'p outbox" where
  "empty_outbox = \<lparr>events = [], event_seq = 0\<rparr>"

subsection \<open>OutboxService\<close>

text \<open>
  \<open>attachRequestId\<close> on an object payload: the payload's own non-empty \<open>request_id\<close> wins, then
  the option, then a random UUID.
\<close>

definition attachRequestId :: "string option \<Rightarrow> string option \<Rightarrow> string \<Rightarrow> string" where
  "attachRequestId own requestId uuid =
     (if truthy own then str_or_empty own
      else case requestId of Some r \<Rightarrow> r | None \<Rightarrow> uuid)"

definition enqueue ::
  "time \<Rightarrow> string \<Rightarrow> string \<Rightarrow> string \<Rightarrow> 'p \<Rightarrow> string option \<Rightarrow> string option \<Rightarrow> time option
   \<Rightarrow> 'p outbox \<Rightarrow> 'p outbox" where
  "enqueue now uuid target pattern payload own requestId scheduledAt ob =
     ob\<lparr>events := events ob @
          [\<lparr>e_id = string_of_nat (event_seq ob), e_target = target, e_pattern = pattern,
            e_payload = payload, e_request_id = attachRequestId own requestId uuid,
            e_status = Pending, e_attempts = 0, e_last_error = None,
            e_scheduled_at = (case scheduledAt of Some t \<Rightarrow> t | None \<Rightarrow> now),
            e_published_at = None, e_created_at = now\<rparr>],
        event_seq := Suc (event_seq ob)\<rparr>"

definition isDue :: "time \<Rightarrow> 'p event \<Rightarrow> bool" where
  "isDue now e \<longleftrightarrow> e_status e = Pending \<and> e_scheduled_at e \<le> now"

definition getDuePending :: "time \<Rightarrow> nat \<Rightarrow> 'p outbox \<Rightarrow> 'p event list" where
  "getDuePending now limit ob =
     take limit (sort_key (\<lambda>e. (e_scheduled_at e, nat_of_string (e_id e)))
       (filter (isDue now) (events ob)))"

definition countFailed :: "'p outbox \<Rightarrow> nat" where
  "countFailed ob = length (filter (\<lambda>e. e_status e = Failed) (events ob))"

definition markPublished :: "time \<Rightarrow> ident \<Rightarrow> 'p outbox \<Rightarrow> 'p outbox" where
  "markPublished now i ob =
     ob\<lparr>events := update_where (\<lambda>e. e_id e = i)
          (\<lambda>e. e\<lparr>e_status := Published, e_published_at := Some now, e_last_error := None\<rparr>)
          (events ob)\<rparr>"

abbreviation maxAttempts :: nat where "maxAttempts \<equiv> 10"

definition markFailed :: "time \<Rightarrow> ident \<Rightarrow> string \<Rightarrow> time \<Rightarrow> 'p outbox \<Rightarrow> 'p outbox" where
  "markFailed now i err backoffMs ob =
     (case find (\<lambda>e. e_id e = i) (events ob) of
        None \<Rightarrow> ob
      | Some event \<Rightarrow>
          let nextAttempts = e_attempts event + 1 in
          if maxAttempts \<le> nextAttempts
          then ob\<lparr>events := update_where (\<lambda>e. e_id e = i)
                 (\<lambda>e. e\<lparr>e_status := Failed, e_attempts := nextAttempts,
                        e_last_error := Some err\<rparr>) (events ob)\<rparr>
          else ob\<lparr>events := update_where (\<lambda>e. e_id e = i)
                 (\<lambda>e. e\<lparr>e_attempts := nextAttempts, e_last_error := Some err,
                        e_scheduled_at := now + backoffMs\<rparr>) (events ob)\<rparr>)"

definition pruneOldPublished :: "time \<Rightarrow> time \<Rightarrow> 'p outbox \<Rightarrow> 'p outbox" where
  "pruneOldPublished now olderThanMs ob =
     ob\<lparr>events := filter (\<lambda>e. \<not> (e_status e = Published \<and>
          (case e_published_at e of Some t \<Rightarrow> t < now - olderThanMs | None \<Rightarrow> False)))
        (events ob)\<rparr>"

subsection \<open>OutboxPublisher\<close>

definition backoff :: "nat \<Rightarrow> time" where
  "backoff attempts = min (2 ^ attempts * 1000) 60000"

text \<open>
  One pass over the due events. \<open>send e c\<close> is the request to the target's queue: the consumer's
  new state, and the error when the reply is an error or does not arrive before the timeout.
\<close>

definition publish_one ::
  "string set \<Rightarrow> ('p event \<Rightarrow> 'c \<Rightarrow> 'c \<times> string option) \<Rightarrow> time \<Rightarrow> 'p event
   \<Rightarrow> 'p outbox \<times> 'c \<Rightarrow> 'p outbox \<times> 'c" where
  "publish_one clients send now e = (\<lambda>(ob, c).
     if e_target e \<notin> clients
     then (markFailed now (e_id e) ''No client registered for target'' 60000 ob, c)
     else case send e c of
            (c', None) \<Rightarrow> (markPublished now (e_id e) ob, c')
          | (c', Some err) \<Rightarrow> (markFailed now (e_id e) err (backoff (e_attempts e)) ob, c'))"

definition tick ::
  "string set \<Rightarrow> ('p event \<Rightarrow> 'c \<Rightarrow> 'c \<times> string option) \<Rightarrow> nat \<Rightarrow> time
   \<Rightarrow> 'p outbox \<times> 'c \<Rightarrow> 'p outbox \<times> 'c" where
  "tick clients send batchSize now st =
     fold (publish_one clients send now) (getDuePending now batchSize (fst st)) st"

subsection \<open>The invariant of the event table\<close>

interpretation ev: table "e_id :: 'p event \<Rightarrow> ident" .

definition outbox_inv :: "'p outbox \<Rightarrow> bool" where
  "outbox_inv ob \<longleftrightarrow> ev.wf (event_seq ob) (events ob) \<and>
     (\<forall>e\<in>set (events ob). (e_status e = Pending \<longrightarrow> e_attempts e < maxAttempts)
        \<and> (e_status e = Failed \<longrightarrow> e_attempts e = maxAttempts))"

lemma outbox_inv_empty: "outbox_inv empty_outbox"
  by (simp add: outbox_inv_def empty_outbox_def ev.wf_empty)

lemma outbox_inv_enqueue:
  "outbox_inv ob \<Longrightarrow> outbox_inv (enqueue now uuid tg pat pl own rid sched ob)"
  by (auto simp: outbox_inv_def enqueue_def intro: ev.wf_insert)

text \<open>What one delivery attempt makes of an event.\<close>

definition published :: "time \<Rightarrow> 'p event \<Rightarrow> 'p event" where
  "published now e = e\<lparr>e_status := Published, e_published_at := Some now, e_last_error := None\<rparr>"

definition retried :: "time \<Rightarrow> string \<Rightarrow> time \<Rightarrow> 'p event \<Rightarrow> 'p event" where
  "retried now err b e =
     (if maxAttempts \<le> e_attempts e + 1
      then e\<lparr>e_status := Failed, e_attempts := e_attempts e + 1, e_last_error := Some err\<rparr>
      else e\<lparr>e_attempts := e_attempts e + 1, e_last_error := Some err,
             e_scheduled_at := now + b\<rparr>)"

lemma published_id [simp]: "e_id (published now e) = e_id e"
  by (simp add: published_def)

lemma retried_id [simp]: "e_id (retried now err b e) = e_id e"
  by (simp add: retried_def)

lemma markPublished_row:
  assumes "outbox_inv ob" and "e \<in> set (events ob)"
  shows "markPublished now (e_id e) ob = ob\<lparr>events := save_row e_id (published now e) (events ob)\<rparr>"
proof -
  have wf: "ev.wf (event_seq ob) (events ob)" using assms(1) by (simp add: outbox_inv_def)
  show ?thesis
    using ev.update_where_key [OF wf assms(2), of "published now"]
    by (simp add: markPublished_def published_def [abs_def])
qed

lemma markFailed_row:
  assumes "outbox_inv ob" and "e \<in> set (events ob)"
  shows "markFailed now (e_id e) err b ob = ob\<lparr>events := save_row e_id (retried now err b e) (events ob)\<rparr>"
proof -
  have wf: "ev.wf (event_seq ob) (events ob)" using assms(1) by (simp add: outbox_inv_def)
  have f: "find (\<lambda>x. e_id x = e_id e) (events ob) = Some e"
    by (rule ev.find_key_mem [OF wf assms(2)])
  show ?thesis
    using ev.update_where_key [OF wf assms(2), of
        "\<lambda>x. x\<lparr>e_status := Failed, e_attempts := Suc (e_attempts e), e_last_error := Some err\<rparr>"]
      ev.update_where_key [OF wf assms(2), of
        "\<lambda>x. x\<lparr>e_attempts := Suc (e_attempts e), e_last_error := Some err, e_scheduled_at := now + b\<rparr>"]
    by (simp add: markFailed_def f retried_def Let_def)
qed

text \<open>
  \<open>attempt\<close> is the event after the publisher has tried it once; the table of the publisher's
  next state is the old one with that row saved.
\<close>

definition attempt ::
  "string set \<Rightarrow> ('p event \<Rightarrow> 'c \<Rightarrow> 'c \<times> string option) \<Rightarrow> time \<Rightarrow> 'c \<Rightarrow> 'p event \<Rightarrow> 'p event" where
  "attempt clients send now c e =
     (if e_target e \<notin> clients then retried now ''No client registered for target'' 60000 e
      else case snd (send e c) of None \<Rightarrow> published now e
           | Some err \<Rightarrow> retried now err (backoff (e_attempts e)) e)"

lemma attempt_id [simp]: "e_id (attempt clients send now c e) = e_id e"
  by (simp add: attempt_def split: option.split)

lemma publish_one_row:
  assumes "outbox_inv ob" and "e \<in> set (events ob)"
  shows "fst (publish_one clients send now e (ob, c)) =
      ob\<lparr>events := save_row e_id (attempt clients send now c e) (events ob)\<rparr>"
  using assms
  by (auto simp: publish_one_def attempt_def markFailed_row markPublished_row
      split: prod.split option.split)

lemma outbox_inv_attempt:
  assumes "outbox_inv ob" and "e \<in> set (events ob)" and "e_status e = Pending"
  shows "outbox_inv (fst (publish_one clients send now e (ob, c)))"
proof -
  let ?e = "attempt clients send now c e"
  have "e_attempts e < maxAttempts" using assms by (auto simp: outbox_inv_def)
  then have "(e_status ?e = Pending \<longrightarrow> e_attempts ?e < maxAttempts)
      \<and> (e_status ?e = Failed \<longrightarrow> e_attempts ?e = maxAttempts)"
    using assms(3) by (auto simp: attempt_def retried_def published_def split: option.split)
  with assms(1) show ?thesis
    unfolding publish_one_row [OF assms(1,2)]
    by (auto simp: outbox_inv_def intro: ev.wf_save dest!: ev.mem_save)
qed

subsection \<open>A pass of the publisher\<close>

lemma getDuePending_mem:
  "e \<in> set (getDuePending now n ob) \<Longrightarrow> e \<in> set (events ob) \<and> isDue now e"
  by (auto simp: getDuePending_def dest: in_set_takeD)

lemma getDuePending_distinct:
  assumes "outbox_inv ob"
  shows "distinct (map e_id (getDuePending now n ob))"
proof -
  let ?s = "sort_key (\<lambda>e. (e_scheduled_at e, nat_of_string (e_id e))) (filter (isDue now) (events ob))"
  have d: "distinct (map e_id (events ob))" using assms by (simp add: outbox_inv_def ev.wf_def)
  then have "distinct ?s" and "inj_on e_id (set ?s)"
    by (auto simp: distinct_map inj_on_def)
  then have "distinct (map e_id ?s)" by (simp add: distinct_map)
  then show ?thesis unfolding getDuePending_def by (metis distinct_take take_map)
qed

text \<open>The consumer sees the events of the pass one by one, in schedule order.\<close>

fun consume ::
  "string set \<Rightarrow> ('p event \<Rightarrow> 'c \<Rightarrow> 'c \<times> string option) \<Rightarrow> 'p event list \<Rightarrow> 'c \<Rightarrow> 'c" where
  "consume clients send [] c = c"
| "consume clients send (e # es) c =
     consume clients send es (if e_target e \<in> clients then fst (send e c) else c)"

lemma snd_publish_one:
  "snd (publish_one clients send now e (ob, c)) =
     (if e_target e \<in> clients then fst (send e c) else c)"
  by (auto simp: publish_one_def split: prod.split option.split)

text \<open>
  The rows of a pass: an event of the batch is attempted once, every other event is left alone.
\<close>

lemma pass_rows:
  assumes "outbox_inv ob" and "distinct (map e_id es)"
    and "\<forall>e\<in>set es. e \<in> set (events ob) \<and> e_status e = Pending"
  shows "outbox_inv (fst (fold (publish_one clients send now) es (ob, c)))
    \<and> snd (fold (publish_one clients send now) es (ob, c)) = consume clients send es c
    \<and> (\<forall>x\<in>set (events ob). \<exists>d. (if x \<in> set es then attempt clients send now d x else x)
         \<in> set (events (fst (fold (publish_one clients send now) es (ob, c)))))"
  using assms
proof (induction es arbitrary: ob c)
  case Nil
  then show ?case by simp
next
  case (Cons e es)
  let ?st = "publish_one clients send now e (ob, c)"
  let ?a = "attempt clients send now c e"
  have e: "e \<in> set (events ob)" "e_status e = Pending" using Cons.prems(3) by auto
  have wf: "ev.wf (event_seq ob) (events ob)" using Cons.prems(1) by (simp add: outbox_inv_def)
  have evs: "events (fst ?st) = save_row e_id ?a (events ob)"
    by (simp add: publish_one_row [OF Cons.prems(1) e(1)])
  have other: "x \<in> set (events (fst ?st))" if "x \<in> set (events ob)" "x \<noteq> e" for x
    using that ev.mem_unique [OF wf] e(1)
    unfolding evs by (intro ev.other_save) auto
  have self: "?a \<in> set (events (fst ?st))"
    unfolding evs by (rule ev.save_mem [OF e(1)]) simp
  have rest: "\<forall>x\<in>set es. x \<in> set (events (fst ?st)) \<and> e_status x = Pending"
    using Cons.prems(2,3) other by force
  obtain ob1 c1 where st: "?st = (ob1, c1)" by (cases ?st)
  have c1: "c1 = (if e_target e \<in> clients then fst (send e c) else c)"
    using snd_publish_one [of clients send now e ob c] st by simp
  have IH: "outbox_inv (fst (fold (publish_one clients send now) es (ob1, c1)))
    \<and> snd (fold (publish_one clients send now) es (ob1, c1)) = consume clients send es c1
    \<and> (\<forall>x\<in>set (events ob1). \<exists>d. (if x \<in> set es then attempt clients send now d x else x)
         \<in> set (events (fst (fold (publish_one clients send now) es (ob1, c1)))))"
    using Cons.IH [of ob1 c1] outbox_inv_attempt [OF Cons.prems(1) e, of clients send now c]
      Cons.prems(2) rest st
    by simp
  have "\<exists>d. (if x \<in> set (e # es) then attempt clients send now d x else x)
        \<in> set (events (fst (fold (publish_one clients send now) es (ob1, c1))))"
    if x: "x \<in> set (events ob)" for x
  proof (cases "x = e")
    case True
    have "?a \<notin> set es" using Cons.prems(2) by (metis attempt_id distinct.simps(2) image_eqI list.set_map list.simps(9))
    with IH self st True show ?thesis by (metis fst_conv list.set_intros(1))
  next
    case False
    with IH other [OF x] st show ?thesis by fastforce
  qed
  with IH c1 st show ?case by simp
qed

lemma pass_ids:
  "map e_id (events (fst (fold (publish_one clients send now) es (ob, c)))) = map e_id (events ob)"
proof (induction es arbitrary: ob c)
  case Nil
  then show ?case by simp
next
  case (Cons e es)
  obtain ob1 c1 where st: "publish_one clients send now e (ob, c) = (ob1, c1)" by fastforce
  then have "map e_id (events ob1) = map e_id (events ob)"
    by (auto simp: publish_one_def markFailed_def markPublished_def update_where_def Let_def
        split: if_splits prod.splits option.splits)
  with Cons.IH [of ob1 c1] st show ?case by simp
qed

lemma tick_rows:
  assumes "outbox_inv ob"
  shows "outbox_inv (fst (tick clients send n now (ob, c)))
    \<and> snd (tick clients send n now (ob, c)) = consume clients send (getDuePending now n ob) c
    \<and> (\<forall>x\<in>set (events ob). \<exists>d. (if x \<in> set (getDuePending now n ob)
          then attempt clients send now d x else x)
         \<in> set (events (fst (tick clients send n now (ob, c)))))"
  unfolding tick_def fst_conv
  by (rule pass_rows [OF assms getDuePending_distinct [OF assms]])
    (auto dest: getDuePending_mem simp: isDue_def)

subsection \<open>Properties\<close>



text \<open>A concrete outbox: one due event for a registered target, one scheduled for later.\<close>

definition demo_outbox :: "string outbox" where
  "demo_outbox =
     enqueue 1000 ''u2'' ''FINANCE'' ''finance.cashbox.update_balance'' ''leg B'' None None (Some 9000)
       (enqueue 1000 ''u1'' ''FINANCE'' ''finance.cashbox.update_balance'' ''leg A'' None None None
          empty_outbox)"

lemma demo_outbox_inv: "outbox_inv demo_outbox"
  by (simp add: demo_outbox_def outbox_inv_enqueue outbox_inv_empty)




end
