(* ===== verification/Cashbox.thy ===== *)
theory Cashbox
  imports Elchi_Enums Outbox
begin

text \<open>
  The cashbox core of \<open>apps/finance-service/src/finance-service.service.ts\<close>: the \<open>cashboxes\<close> and
  \<open>cashbox_history\<close> tables, the balance arithmetic, the selector lookup, cashbox creation, the
  deduplicated \<open>updateBalance\<close> behind the outbox legs, and the two manual operations built on it.
  The two invariants that \<open>scripts/check-cashbox-invariant.ts\<close> audits (I1: a balance is the sum
  of its history; I2: cash and card make up the balance) are stated over the tables and shown to
  be kept.
\<close>

record cashbox =
  c_id :: ident
  c_user_id :: ident
  c_type :: Cashbox_type
  c_balance :: money
  c_cash :: money
  c_card :: money
  c_deleted :: bool

record history =
  h_id :: ident
  h_operation :: Operation_type
  h_cashbox_id :: ident
  h_source_type :: Source_type
  h_source_id :: "ident option"
  h_dedup_epoch :: string
  h_source_user_id :: "ident option"
  h_amount :: money
  h_balance_after :: money
  h_cash_after :: money
  h_card_after :: money
  h_method :: PaymentMethod
  h_comment :: "string option"
  h_created_by :: "ident option"
  h_proof_files :: "string list option"
  h_payment_date :: "time option"
  h_deleted :: bool
  h_created_at :: time

text \<open>The payload of \<open>order.settlement.advance\<close>, the only event this service enqueues.\<close>

datatype settlement_level = Courier_to_branch | Branch_to_hq | Hq_to_market

record advance =
  a_level :: settlement_level
  a_match_value :: string
  a_amount :: money
  a_requester_id :: "ident option"

record finance =
  cashboxes :: "cashbox list"
  cashbox_seq :: nat
  histories :: "history list"
  history_seq :: nat
  f_outbox :: "advance outbox"
  f_audit :: "audit_entry list"

abbreviation MAIN_CASHBOX_USER_ID :: ident where "MAIN_CASHBOX_USER_ID \<equiv> ''0''"

subsection \<open>Input checks\<close>

text \<open>A date argument: absent, unparsable, or a point in time.\<close>

datatype date_input = NoDate | BadDate | Date time

definition parseDate :: "date_input \<Rightarrow> rpc_error + time option" where
  "parseDate d = (case d of NoDate \<Rightarrow> Inr None | BadDate \<Rightarrow> Inl (badRequest ''Invalid date format'')
     | Date t \<Rightarrow> Inr (Some t))"

definition assertBigIntId :: "string option \<Rightarrow> string \<Rightarrow> rpc_error + ident" where
  "assertBigIntId value fieldName =
     (if truthy value \<and> is_digits (str_or_empty value) then Inr (str_or_empty value)
      else Inl (badRequest (fieldName @ '' must be a bigint-like numeric string'')))"

definition assertPositiveAmount :: "jsnum \<Rightarrow> string \<Rightarrow> rpc_error + money" where
  "assertPositiveAmount value fieldName =
     (case value of
        Num r \<Rightarrow> if r \<le> 0 then Inl (badRequest (fieldName @ '' must be greater than 0'')) else Inr r
      | _ \<Rightarrow> Inl (badRequest (fieldName @ '' must be greater than 0'')))"

subsection \<open>Balances\<close>

definition normalizeBalance :: "cashbox \<Rightarrow> cashbox" where
  "normalizeBalance c = c\<lparr>c_balance := c_cash c + c_card c\<rparr>"

definition sign_of :: "Operation_type \<Rightarrow> money" where
  "sign_of op = (if op = INCOME then 1 else -1)"

definition updateBalancesByMethod ::
  "cashbox \<Rightarrow> money \<Rightarrow> Operation_type \<Rightarrow> PaymentMethod \<Rightarrow> bool \<Rightarrow> rpc_error + cashbox" where
  "updateBalancesByMethod c amount operation method allowNegativeOverride =
     (let allowNegativeBalance =
        c_type c = FOR_MARKET \<or> c_type c = FOR_COURIER \<or> allowNegativeOverride in
      if method = CASH
      then let nextCash = c_cash c + sign_of operation * amount in
           if \<not> allowNegativeBalance \<and> nextCash < 0
           then Inl (badRequest ''Insufficient cash balance'')
           else Inr (normalizeBalance (c\<lparr>c_cash := nextCash\<rparr>))
      else let nextCard = c_card c + sign_of operation * amount in
           if \<not> allowNegativeBalance \<and> nextCard < 0
           then Inl (badRequest ''Insufficient card balance'')
           else Inr (normalizeBalance (c\<lparr>c_card := nextCard\<rparr>)))"

subsection \<open>Rows\<close>

definition active_box :: "ident \<Rightarrow> Cashbox_type \<Rightarrow> cashbox \<Rightarrow> bool" where
  "active_box u t c \<longleftrightarrow> c_user_id c = u \<and> c_type c = t \<and> \<not> c_deleted c"

definition save_cashbox :: "cashbox \<Rightarrow> finance \<Rightarrow> finance" where
  "save_cashbox c fs = fs\<lparr>cashboxes := save_row c_id c (cashboxes fs)\<rparr>"

definition insert_cashbox ::
  "ident \<Rightarrow> Cashbox_type \<Rightarrow> money \<Rightarrow> money \<Rightarrow> money \<Rightarrow> finance \<Rightarrow> finance \<times> cashbox" where
  "insert_cashbox u t bal cash0 card0 fs =
     (let c = \<lparr>c_id = string_of_nat (cashbox_seq fs), c_user_id = u, c_type = t,
               c_balance = bal, c_cash = cash0, c_card = card0, c_deleted = False\<rparr>
      in (fs\<lparr>cashboxes := cashboxes fs @ [c], cashbox_seq := Suc (cashbox_seq fs)\<rparr>, c))"

text \<open>What a caller supplies for a history row; the balances are read off the saved cashbox.\<close>

record entry =
  en_operation :: Operation_type
  en_source_type :: Source_type
  en_source_id :: "ident option"
  en_dedup_epoch :: string
  en_source_user_id :: "ident option"
  en_amount :: money
  en_method :: PaymentMethod
  en_comment :: "string option"
  en_created_by :: "ident option"
  en_proof_files :: "string list option"
  en_payment_date :: date_input

definition history_of :: "time \<Rightarrow> ident \<Rightarrow> time option \<Rightarrow> cashbox \<Rightarrow> entry \<Rightarrow> history" where
  "history_of now i pdate c en =
     \<lparr>h_id = i, h_operation = en_operation en, h_cashbox_id = c_id c,
      h_source_type = en_source_type en, h_source_id = en_source_id en,
      h_dedup_epoch = en_dedup_epoch en, h_source_user_id = en_source_user_id en,
      h_amount = en_amount en, h_balance_after = c_balance c, h_cash_after = c_cash c,
      h_card_after = c_card c, h_method = en_method en, h_comment = en_comment en,
      h_created_by = en_created_by en, h_proof_files = en_proof_files en,
      h_payment_date = pdate, h_deleted = False, h_created_at = now\<rparr>"

text \<open>
  \<open>IDX_CASHBOX_HISTORY_IDEMPOTENT\<close>: the partial unique index of the history table. An insert
  that violates it is a \<open>QueryFailedError\<close>, which surfaces as a 500.
\<close>

definition same_index_key :: "history \<Rightarrow> history \<Rightarrow> bool" where
  "same_index_key x y \<longleftrightarrow>
     h_source_id x \<noteq> None \<and> \<not> h_deleted x \<and> \<not> h_deleted y
     \<and> h_cashbox_id x = h_cashbox_id y \<and> h_source_type x = h_source_type y
     \<and> h_source_id x = h_source_id y \<and> h_operation x = h_operation y
     \<and> h_dedup_epoch x = h_dedup_epoch y"

definition insert_history :: "history \<Rightarrow> finance \<Rightarrow> rpc_error + finance" where
  "insert_history h fs =
     (if list_ex (same_index_key h) (histories fs)
      then Inl (internalError ''duplicate key value violates unique constraint'')
      else Inr (fs\<lparr>histories := histories fs @ [h], history_seq := Suc (history_seq fs)\<rparr>))"

text \<open>
  The step every money movement repeats: recompute the balances of a loaded cashbox, save it,
  and append its history row. The cashbox passed in is the caller's loaded copy.
\<close>

definition post_entry ::
  "time \<Rightarrow> cashbox \<Rightarrow> bool \<Rightarrow> entry \<Rightarrow> finance \<Rightarrow> rpc_error + finance \<times> cashbox \<times> history" where
  "post_entry now c override en fs =
     rbind (updateBalancesByMethod c (en_amount en) (en_operation en) (en_method en) override) (\<lambda>c'.
     rbind (parseDate (en_payment_date en)) (\<lambda>pdate.
       let h = history_of now (string_of_nat (history_seq fs)) pdate c' en in
       rbind (insert_history h (save_cashbox c' fs)) (\<lambda>fs'. Inr (fs', c', h))))"

definition log_audit :: "audit_entry \<Rightarrow> finance \<Rightarrow> finance" where
  "log_audit a fs = fs\<lparr>f_audit := f_audit fs @ [a]\<rparr>"

subsection \<open>Lookup and creation\<close>

record selector =
  s_cashbox_id :: "string option"
  s_user_id :: "string option"
  s_cashbox_type :: "Cashbox_type option"

definition getCashboxBySelectorWithManager :: "selector \<Rightarrow> finance \<Rightarrow> rpc_error + cashbox" where
  "getCashboxBySelectorWithManager sel fs =
     (if truthy (s_cashbox_id sel)
      then rbind (assertBigIntId (s_cashbox_id sel) ''cashbox_id'') (\<lambda>i.
             find_or (notFound ''Cashbox not found'') (\<lambda>c. c_id c = i \<and> \<not> c_deleted c) (cashboxes fs))
      else if \<not> truthy (s_user_id sel) \<or> s_cashbox_type sel = None
      then Inl (badRequest ''Either cashbox_id OR (user_id + cashbox_type) is required'')
      else rbind (assertBigIntId (s_user_id sel) ''user_id'') (\<lambda>u.
             find_or (notFound ''Cashbox not found'')
               (active_box u (the (s_cashbox_type sel))) (cashboxes fs)))"

record create_cashbox_dto =
  cr_user_id :: "string option"
  cr_cashbox_type :: Cashbox_type
  cr_balance :: "money option"
  cr_balance_cash :: "money option"
  cr_balance_card :: "money option"

definition createCashbox :: "create_cashbox_dto \<Rightarrow> finance \<Rightarrow> rpc_error + finance \<times> cashbox \<times> nat" where
  "createCashbox dto fs =
     rbind (assertBigIntId (cr_user_id dto) ''user_id'') (\<lambda>u.
       case find (active_box u (cr_cashbox_type dto)) (cashboxes fs) of
         Some existing \<Rightarrow> Inr (fs, existing, 200)
       | None \<Rightarrow>
           let balanceCash = (case cr_balance_cash dto of Some x \<Rightarrow> x | None \<Rightarrow> 0);
               balanceCard = (case cr_balance_card dto of Some x \<Rightarrow> x | None \<Rightarrow> 0);
               balance = (case cr_balance dto of Some x \<Rightarrow> x | None \<Rightarrow> balanceCash + balanceCard);
               (fs', saved) = insert_cashbox u (cr_cashbox_type dto) balance balanceCash balanceCard fs
           in Inr (log_audit (audit_row ''Cashbox'' (c_id saved) ''created'' (Some u)) fs', saved, 201))"

definition ensureMainCashbox :: "finance \<Rightarrow> finance \<times> cashbox" where
  "ensureMainCashbox fs =
     (case find (active_box MAIN_CASHBOX_USER_ID C_MAIN) (cashboxes fs) of
        None \<Rightarrow> insert_cashbox MAIN_CASHBOX_USER_ID C_MAIN 0 0 0 fs
      | Some main \<Rightarrow> (fs, main))"

definition sumCashboxBalanceByType :: "Cashbox_type \<Rightarrow> finance \<Rightarrow> money" where
  "sumCashboxBalanceByType t fs =
     (\<Sum>c\<leftarrow>filter (\<lambda>c. c_type c = t \<and> \<not> c_deleted c) (cashboxes fs). c_balance c)"

definition calcIncomeOutcome :: "history list \<Rightarrow> money \<times> money" where
  "calcIncomeOutcome hs =
     foldl (\<lambda>(income, outcome) h. if h_operation h = INCOME then (income + h_amount h, outcome)
             else (income, outcome + h_amount h)) (0, 0) hs"

subsection \<open>updateBalance\<close>

record update_dto =
  u_selector :: selector
  u_amount :: jsnum
  u_operation :: Operation_type
  u_source_type :: Source_type
  u_source_id :: "string option"
  u_dedup_epoch :: "string option"
  u_source_user_id :: "ident option"
  u_method :: "PaymentMethod option"
  u_comment :: "string option"
  u_created_by :: "ident option"
  u_proof_files :: "string list option"
  u_payment_date :: date_input

record update_result =
  r_cashbox :: cashbox
  r_history :: history
  r_idempotent :: bool

definition entry_of_dto :: "update_dto \<Rightarrow> money \<Rightarrow> entry" where
  "entry_of_dto dto amount =
     \<lparr>en_operation = u_operation dto, en_source_type = u_source_type dto,
      en_source_id = u_source_id dto, en_dedup_epoch = str_or_empty (u_dedup_epoch dto),
      en_source_user_id = u_source_user_id dto, en_amount = amount,
      en_method = (case u_method dto of Some m \<Rightarrow> m | None \<Rightarrow> CASH), en_comment = u_comment dto,
      en_created_by = u_created_by dto,
      en_proof_files = (case u_proof_files dto of Some (f # fs) \<Rightarrow> Some (f # fs) | _ \<Rightarrow> None),
      en_payment_date = u_payment_date dto\<rparr>"

text \<open>The history row a delivery of the same business event would find.\<close>

definition matches_event :: "ident \<Rightarrow> update_dto \<Rightarrow> history \<Rightarrow> bool" where
  "matches_event cid dto h \<longleftrightarrow>
     h_cashbox_id h = cid \<and> h_source_type h = u_source_type dto
     \<and> h_operation h = u_operation dto \<and> h_source_id h = u_source_id dto
     \<and> h_dedup_epoch h = str_or_empty (u_dedup_epoch dto)"

definition deduplicated :: "update_dto \<Rightarrow> bool" where
  "deduplicated dto \<longleftrightarrow> u_source_id dto \<noteq> None \<or> str_or_empty (u_dedup_epoch dto) \<noteq> []"

definition updateBalance :: "time \<Rightarrow> update_dto \<Rightarrow> finance \<Rightarrow> rpc_error + finance \<times> update_result" where
  "updateBalance now dto fs =
     rbind (assertPositiveAmount (u_amount dto) ''amount'') (\<lambda>amount.
     rbind (getCashboxBySelectorWithManager (u_selector dto) fs) (\<lambda>cashbox.
       case (if deduplicated dto then find (matches_event (c_id cashbox) dto) (histories fs) else None) of
         Some existing \<Rightarrow>
           Inr (fs, \<lparr>r_cashbox = cashbox, r_history = existing, r_idempotent = True\<rparr>)
       | None \<Rightarrow>
           rbind (post_entry now cashbox (c_type cashbox = C_BRANCH) (entry_of_dto dto amount) fs)
             (\<lambda>(fs', saved, h).
               Inr (log_audit (audit_row ''Cashbox'' (c_id saved) ''finance.balance_update''
                      (nonempty_or_null (u_created_by dto))) fs',
                    \<lparr>r_cashbox = saved, r_history = h, r_idempotent = False\<rparr>))))"

record manual_dto =
  m_user_id :: ident
  m_amount :: jsnum
  m_type :: "PaymentMethod option"
  m_comment :: "string option"
  m_cashbox_type :: "Cashbox_type option"
  m_created_by :: "ident option"
  m_dedup_epoch :: "string option"

definition manual_target :: "manual_dto \<Rightarrow> ident \<times> Cashbox_type" where
  "manual_target d =
     (let t = (case m_cashbox_type d of Some t \<Rightarrow> t | None \<Rightarrow> C_MAIN)
      in (if t = C_MAIN then MAIN_CASHBOX_USER_ID else m_user_id d, t))"

definition manual_update :: "Operation_type \<Rightarrow> Source_type \<Rightarrow> manual_dto \<Rightarrow> update_dto" where
  "manual_update op st d =
     \<lparr>u_selector = \<lparr>s_cashbox_id = None, s_user_id = Some (fst (manual_target d)),
                    s_cashbox_type = Some (snd (manual_target d))\<rparr>,
      u_amount = m_amount d, u_operation = op, u_source_type = st, u_source_id = None,
      u_dedup_epoch = m_dedup_epoch d, u_source_user_id = None,
      u_method = Some (case m_type d of Some m \<Rightarrow> m | None \<Rightarrow> CASH), u_comment = m_comment d,
      u_created_by = Some (case m_created_by d of Some u \<Rightarrow> u | None \<Rightarrow> m_user_id d),
      u_proof_files = None, u_payment_date = NoDate\<rparr>"

definition spendMoney :: "time \<Rightarrow> manual_dto \<Rightarrow> finance \<Rightarrow> rpc_error + finance \<times> update_result" where
  "spendMoney now d fs =
     rbind (updateBalance now (manual_update EXPENSE MANUAL_EXPENSE d) fs) (\<lambda>(fs', r).
       Inr (log_audit (audit_row ''Cashbox'' (c_id (r_cashbox r)) ''finance.manual_expense''
              (nonempty_or_null (Some (m_user_id d)))) fs', r))"

definition fillTheCashbox :: "time \<Rightarrow> manual_dto \<Rightarrow> finance \<Rightarrow> rpc_error + finance \<times> update_result" where
  "fillTheCashbox now d fs =
     rbind (updateBalance now (manual_update INCOME MANUAL_INCOME d) fs) (\<lambda>(fs', r).
       Inr (log_audit (audit_row ''Cashbox'' (c_id (r_cashbox r)) ''finance.manual_income''
              (nonempty_or_null (Some (m_user_id d)))) fs', r))"

subsection \<open>The audited invariants\<close>

interpretation cb: table "c_id :: cashbox \<Rightarrow> ident" .
interpretation hi: table "h_id :: history \<Rightarrow> ident" .

definition signed_amount :: "history \<Rightarrow> money" where
  "signed_amount h = (case h_operation h of INCOME \<Rightarrow> h_amount h | EXPENSE \<Rightarrow> - h_amount h)"

definition history_sum :: "finance \<Rightarrow> ident \<Rightarrow> money" where
  "history_sum fs cid =
     (\<Sum>h\<leftarrow>filter (\<lambda>h. h_cashbox_id h = cid \<and> \<not> h_deleted h) (histories fs). signed_amount h)"

text \<open>The report of the audit script: the live cashboxes that drift by more than a tiyin.\<close>

definition cashbox_drifted :: "finance \<Rightarrow> cashbox list" where
  "cashbox_drifted fs =
     filter (\<lambda>c. \<not> c_deleted c \<and>
        (1 / 100 < \<bar>c_balance c - history_sum fs (c_id c)\<bar>
         \<or> 1 / 100 < \<bar>c_balance c - (c_cash c + c_card c)\<bar>)) (cashboxes fs)"

definition unique_boxes :: "cashbox list \<Rightarrow> bool" where
  "unique_boxes cs \<longleftrightarrow> (\<forall>c\<in>set cs. \<forall>d\<in>set cs. \<not> c_deleted c \<longrightarrow> \<not> c_deleted d \<longrightarrow>
     c_user_id c = c_user_id d \<longrightarrow> c_type c = c_type d \<longrightarrow> c = d)"

definition finance_inv :: "finance \<Rightarrow> bool" where
  "finance_inv fs \<longleftrightarrow>
     cb.wf (cashbox_seq fs) (cashboxes fs) \<and> hi.wf (history_seq fs) (histories fs)
     \<and> (\<forall>c\<in>set (cashboxes fs). c_balance c = c_cash c + c_card c
           \<and> c_balance c = history_sum fs (c_id c))
     \<and> (\<forall>h\<in>set (histories fs). h_cashbox_id h \<in> c_id ` set (cashboxes fs))
     \<and> unique_boxes (cashboxes fs)
     \<and> (\<forall>x\<in>set (histories fs). \<forall>y\<in>set (histories fs). same_index_key x y \<longrightarrow> x = y)
     \<and> outbox_inv (f_outbox fs)"

definition empty_finance :: finance where
  "empty_finance = \<lparr>cashboxes = [], cashbox_seq = 0, histories = [], history_seq = 0,
     f_outbox = empty_outbox, f_audit = []\<rparr>"

lemma finance_inv_empty: "finance_inv empty_finance"
  by (simp add: finance_inv_def empty_finance_def cb.wf_empty hi.wf_empty unique_boxes_def
      outbox_inv_empty)

lemma finance_inv_log [simp]: "finance_inv (log_audit a fs) = finance_inv fs"
  by (simp add: finance_inv_def log_audit_def history_sum_def)

lemma log_audit_tables [simp]:
  "cashboxes (log_audit a fs) = cashboxes fs" "histories (log_audit a fs) = histories fs"
  "f_outbox (log_audit a fs) = f_outbox fs" "history_seq (log_audit a fs) = history_seq fs"
  "cashbox_seq (log_audit a fs) = cashbox_seq fs"
  by (simp_all add: log_audit_def)

lemma finance_invD:
  assumes "finance_inv fs"
  shows "cb.wf (cashbox_seq fs) (cashboxes fs)" and "hi.wf (history_seq fs) (histories fs)"
    and "c \<in> set (cashboxes fs) \<Longrightarrow> c_balance c = c_cash c + c_card c"
    and "c \<in> set (cashboxes fs) \<Longrightarrow> history_sum fs (c_id c) = c_balance c"
    and "unique_boxes (cashboxes fs)"
    and "x \<in> set (histories fs) \<Longrightarrow> y \<in> set (histories fs) \<Longrightarrow> same_index_key x y \<Longrightarrow> x = y"
    and "h \<in> set (histories fs) \<Longrightarrow> h_cashbox_id h \<in> c_id ` set (cashboxes fs)"
    and "outbox_inv (f_outbox fs)"
  using assms unfolding finance_inv_def by (blast, blast, blast, metis, blast, blast, blast, blast)

lemma finance_inv_outbox:
  assumes "finance_inv fs" and "outbox_inv ob"
  shows "finance_inv (fs\<lparr>f_outbox := ob\<rparr>)"
proof -
  let ?fs = "fs\<lparr>f_outbox := ob\<rparr>"
  have tables: "cashboxes ?fs = cashboxes fs" "cashbox_seq ?fs = cashbox_seq fs"
    "histories ?fs = histories fs" "history_seq ?fs = history_seq fs" "f_outbox ?fs = ob"
    "history_sum ?fs = history_sum fs"
    by (simp_all add: history_sum_def fun_eq_iff)
  show ?thesis using assms unfolding finance_inv_def tables by blast
qed

lemma same_index_key_sym: "same_index_key x y \<Longrightarrow> same_index_key y x"
  unfolding same_index_key_def by metis

subsection \<open>The balance arithmetic\<close>

lemma updateBalancesByMethod_Inr:
  assumes "updateBalancesByMethod c a op m ov = Inr c'"
  shows "c_id c' = c_id c" and "c_user_id c' = c_user_id c" and "c_type c' = c_type c"
    and "c_deleted c' = c_deleted c" and "c_balance c' = c_cash c' + c_card c'"
    and "c_cash c' + c_card c' = c_cash c + c_card c + sign_of op * a"
    and "m = CASH \<Longrightarrow> c_card c' = c_card c" and "m \<noteq> CASH \<Longrightarrow> c_cash c' = c_cash c"
    and "c_type c \<in> {C_MAIN, C_BRANCH} \<Longrightarrow> \<not> ov \<Longrightarrow> 0 \<le> c_cash c \<Longrightarrow> 0 \<le> c_card c \<Longrightarrow>
      0 \<le> c_cash c' \<and> 0 \<le> c_card c'"
  using assms
  by (auto simp: updateBalancesByMethod_def normalizeBalance_def Let_def split: if_splits)

text \<open>Posting an entry: which rows it writes and what it leaves alone.\<close>

lemma post_entry_Inr:
  assumes "post_entry now c ov en fs = Inr (fs', c', h)"
  shows "updateBalancesByMethod c (en_amount en) (en_operation en) (en_method en) ov = Inr c'"
    and "cashboxes fs' = save_row c_id c' (cashboxes fs)" and "cashbox_seq fs' = cashbox_seq fs"
    and "histories fs' = histories fs @ [h]" and "history_seq fs' = Suc (history_seq fs)"
    and "f_outbox fs' = f_outbox fs" and "f_audit fs' = f_audit fs"
    and "\<exists>pd. h = history_of now (string_of_nat (history_seq fs)) pd c' en"
    and "\<not> list_ex (same_index_key h) (histories fs)"
  using assms
  by (auto simp: post_entry_def insert_history_def save_cashbox_def Let_def result_simps
      split: if_splits)

lemma history_of_simps [simp]:
  "h_id (history_of now i pd c en) = i" "h_cashbox_id (history_of now i pd c en) = c_id c"
  "h_operation (history_of now i pd c en) = en_operation en"
  "h_amount (history_of now i pd c en) = en_amount en"
  "h_source_type (history_of now i pd c en) = en_source_type en"
  "h_source_id (history_of now i pd c en) = en_source_id en"
  "h_dedup_epoch (history_of now i pd c en) = en_dedup_epoch en"
  "\<not> h_deleted (history_of now i pd c en)" "h_balance_after (history_of now i pd c en) = c_balance c"
  "signed_amount (history_of now i pd c en) = sign_of (en_operation en) * en_amount en"
  by (auto simp: history_of_def signed_amount_def sign_of_def split: Operation_type.split)

lemma post_entry_inv:
  assumes inv: "finance_inv fs" and c: "c \<in> set (cashboxes fs)"
    and post: "post_entry now c ov en fs = Inr (fs', c', h)"
  shows "finance_inv fs'" and "c' \<in> set (cashboxes fs')"
    and "c_balance c' = c_balance c + sign_of (en_operation en) * en_amount en"
    and "d \<in> set (cashboxes fs) \<Longrightarrow> c_id d \<noteq> c_id c \<Longrightarrow> d \<in> set (cashboxes fs')"
proof -
  note wf = finance_invD(1) [OF inv] and hwf = finance_invD(2) [OF inv]
  note upd = updateBalancesByMethod_Inr [OF post_entry_Inr(1) [OF post]]
  note rows = post_entry_Inr(2-6) [OF post]
  obtain pd where h: "h = history_of now (string_of_nat (history_seq fs)) pd c' en"
    using post_entry_Inr(8) [OF post] by blast
  show bal: "c_balance c' = c_balance c + sign_of (en_operation en) * en_amount en"
    using upd(5,6) finance_invD(3) [OF inv c] by simp
  show c': "c' \<in> set (cashboxes fs')"
    unfolding rows(1) by (rule cb.save_mem [OF c]) (simp add: upd(1))
  show other: "c_id d \<noteq> c_id c \<Longrightarrow> d \<in> set (cashboxes fs')" if "d \<in> set (cashboxes fs)" for d
    using that upd(1) unfolding rows(1) by (auto intro: cb.other_save)
  have hsum: "history_sum fs' i = history_sum fs i
      + (if i = c_id c then sign_of (en_operation en) * en_amount en else 0)" for i
    by (simp add: history_sum_def rows h upd(1))
  have mem: "d = c' \<or> d \<in> set (cashboxes fs) \<and> c_id d \<noteq> c_id c" if "d \<in> set (cashboxes fs')" for d
    using cb.mem_save that upd(1) unfolding rows(1) by fastforce
  have ids: "c_id ` set (cashboxes fs') = c_id ` set (cashboxes fs)"
    unfolding rows(1) by (metis cb.keys_save list.set_map)
  have uniq: "unique_boxes (cashboxes fs')"
    unfolding unique_boxes_def
  proof (intro ballI impI)
    fix x y assume x: "x \<in> set (cashboxes fs')" and y: "y \<in> set (cashboxes fs')"
      and eq: "\<not> c_deleted x" "\<not> c_deleted y" "c_user_id x = c_user_id y" "c_type x = c_type y"
    have u: "p \<in> set (cashboxes fs) \<Longrightarrow> \<not> c_deleted p \<Longrightarrow> \<not> c_deleted c \<Longrightarrow>
        c_user_id p = c_user_id c \<Longrightarrow> c_type p = c_type c \<Longrightarrow> p = c" for p
      using finance_invD(5) [OF inv] c unfolding unique_boxes_def by blast
    have v: "p \<in> set (cashboxes fs) \<Longrightarrow> q \<in> set (cashboxes fs) \<Longrightarrow> \<not> c_deleted p \<Longrightarrow>
        \<not> c_deleted q \<Longrightarrow> c_user_id p = c_user_id q \<Longrightarrow> c_type p = c_type q \<Longrightarrow> p = q" for p q
      using finance_invD(5) [OF inv] unfolding unique_boxes_def by blast
    from mem [OF x] mem [OF y] consider "x = c'" "y = c'"
      | "x = c'" "y \<in> set (cashboxes fs)" "c_id y \<noteq> c_id c"
      | "y = c'" "x \<in> set (cashboxes fs)" "c_id x \<noteq> c_id c"
      | "x \<in> set (cashboxes fs)" "y \<in> set (cashboxes fs)" by blast
    then show "x = y"
    proof cases
      case 2
      then have "y = c" using eq upd(2-4) by (intro u) simp_all
      then show ?thesis using 2 by simp
    next
      case 3
      then have "x = c" using eq upd(2-4) by (intro u) simp_all
      then show ?thesis using 3 by simp
    next
      case 4
      then show ?thesis using eq by (intro v) simp_all
    qed simp
  qed
  have new: "\<not> same_index_key h x" if "x \<in> set (histories fs)" for x
    using post_entry_Inr(9) [OF post] that by (auto simp: list_ex_iff)
  have idx: "same_index_key x y \<longrightarrow> x = y"
    if "x \<in> set (histories fs')" "y \<in> set (histories fs')" for x y
    using that new finance_invD(6) [OF inv] same_index_key_sym unfolding rows
    by (simp only: set_append set_simps Un_iff insert_iff empty_iff) blast
  have hmem: "h_cashbox_id x \<in> c_id ` set (cashboxes fs)" if "x \<in> set (histories fs')" for x
    using that finance_invD(7) [OF inv] c upd(1) by (auto simp: rows h)
  have row: "c_balance d = c_cash d + c_card d \<and> c_balance d = history_sum fs' (c_id d)"
    if d: "d \<in> set (cashboxes fs')" for d
  proof (cases "d = c'")
    case True
    then show ?thesis using upd(1,5) bal finance_invD(4) [OF inv c] by (simp add: hsum)
  next
    case False
    then have "d \<in> set (cashboxes fs)" "c_id d \<noteq> c_id c" using mem [OF d] by auto
    then show ?thesis
      using finance_invD(3,4) [OF inv, of d] by (simp add: hsum)
  qed
  have w1: "cb.wf (cashbox_seq fs') (cashboxes fs')" unfolding rows by (rule cb.wf_save [OF wf])
  have w2: "hi.wf (history_seq fs') (histories fs')"
    unfolding rows by (rule hi.wf_insert [OF hwf]) (simp add: h)
  have ob: "outbox_inv (f_outbox fs')" using inv by (simp add: rows finance_invD)
  show "finance_inv fs'"
    unfolding finance_inv_def ids using w1 w2 row hmem uniq idx ob by blast
qed

subsection \<open>Selectors keep pointing at the same cashbox\<close>

lemma getCashbox_mem:
  assumes "getCashboxBySelectorWithManager sel fs = Inr c"
  shows "c \<in> set (cashboxes fs)" and "\<not> c_deleted c"
  using assms
  by (auto simp: getCashboxBySelectorWithManager_def active_box_def result_simps
      split: if_splits dest!: find_Some_mem)

definition same_owner :: "cashbox \<Rightarrow> cashbox \<Rightarrow> bool" where
  "same_owner c d \<longleftrightarrow> c_id c = c_id d \<and> c_user_id c = c_user_id d \<and> c_type c = c_type d
     \<and> c_deleted c = c_deleted d"

text \<open>An update of balances, possibly followed by newly inserted rows.\<close>

definition boxes_extend :: "finance \<Rightarrow> finance \<Rightarrow> bool" where
  "boxes_extend fs fs' \<longleftrightarrow> (\<exists>f new. (\<forall>c\<in>set (cashboxes fs). same_owner (f c) c)
     \<and> cashboxes fs' = map f (cashboxes fs) @ new)"

lemma boxes_extend_refl: "cashboxes fs' = cashboxes fs \<Longrightarrow> boxes_extend fs fs'"
  unfolding boxes_extend_def
  by (rule exI [of _ "\<lambda>c. c"], rule exI [of _ "[]"]) (simp add: same_owner_def)

lemma boxes_extend_trans:
  assumes "boxes_extend a b" and "boxes_extend b c"
  shows "boxes_extend a c"
proof -
  obtain f n where f: "\<forall>x\<in>set (cashboxes a). same_owner (f x) x" "cashboxes b = map f (cashboxes a) @ n"
    using assms(1) unfolding boxes_extend_def by blast
  obtain g m where g: "\<forall>x\<in>set (cashboxes b). same_owner (g x) x" "cashboxes c = map g (cashboxes b) @ m"
    using assms(2) unfolding boxes_extend_def by blast
  have "\<forall>x\<in>set (cashboxes a). same_owner ((g \<circ> f) x) x"
    using f g by (auto simp: same_owner_def)
  moreover have "cashboxes c = map (g \<circ> f) (cashboxes a) @ (map g n @ m)" using f g by simp
  ultimately show ?thesis unfolding boxes_extend_def by blast
qed

lemma boxes_extend_find:
  assumes "boxes_extend fs fs'" and "\<And>c d. same_owner c d \<Longrightarrow> P c = P d"
    and "find P (cashboxes fs) = Some c"
  shows "\<exists>c'. find P (cashboxes fs') = Some c' \<and> same_owner c' c"
proof -
  obtain f n where f: "\<forall>x\<in>set (cashboxes fs). same_owner (f x) x" "cashboxes fs' = map f (cashboxes fs) @ n"
    using assms(1) unfolding boxes_extend_def by blast
  have "find P (map f (cashboxes fs)) = Some (f c)"
    using f(1) assms(2,3) by (subst find_map_stable) auto
  then show ?thesis
    using find_append_Some f find_Some_mem [OF assms(3)] by fastforce
qed

lemma getCashbox_stable:
  assumes "boxes_extend fs fs'" and "getCashboxBySelectorWithManager sel fs = Inr c"
  shows "\<exists>c'. getCashboxBySelectorWithManager sel fs' = Inr c' \<and> same_owner c' c"
proof -
  have e: "same_owner c d \<Longrightarrow> (c_id c = i \<and> \<not> c_deleted c) = (c_id d = i \<and> \<not> c_deleted d)"
    and a: "same_owner c d \<Longrightarrow> active_box u t c = active_box u t d" for c d i u t
    by (auto simp: same_owner_def active_box_def)
  show ?thesis
    using assms(2) boxes_extend_find [OF assms(1) e] boxes_extend_find [OF assms(1) a]
    by (auto simp: getCashboxBySelectorWithManager_def result_simps split: if_splits)
qed

lemma post_entry_extend:
  assumes inv: "finance_inv fs" and c: "c \<in> set (cashboxes fs)"
    and post: "post_entry now c ov en fs = Inr (fs', c', h)"
  shows "boxes_extend fs fs'" and "same_owner c' c"
proof -
  note upd = updateBalancesByMethod_Inr [OF post_entry_Inr(1) [OF post]]
  show own: "same_owner c' c" using upd(1-4) by (simp add: same_owner_def)
  have "same_owner (if c_id x = c_id c' then c' else x) x" if "x \<in> set (cashboxes fs)" for x
    using own that c cb.mem_unique [OF finance_invD(1) [OF inv] that c]
    by (auto simp: same_owner_def)
  then show "boxes_extend fs fs'"
    unfolding boxes_extend_def post_entry_Inr(2) [OF post] save_row_def
    by (intro exI [of _ "\<lambda>x. if c_id x = c_id c' then c' else x"] exI [of _ "[]"]) simp
qed

subsection \<open>One balance update\<close>

lemma updateBalance_cases:
  assumes "updateBalance now dto fs = Inr (fs', r)"
  obtains (replay) c where "getCashboxBySelectorWithManager (u_selector dto) fs = Inr c"
      "deduplicated dto" "find (matches_event (c_id c) dto) (histories fs) = Some (r_history r)"
      "fs' = fs" "r_idempotent r" "r_cashbox r = c"
  | (posted) a c fs1 where "u_amount dto = Num a" "0 < a"
      "getCashboxBySelectorWithManager (u_selector dto) fs = Inr c"
      "deduplicated dto \<longrightarrow> find (matches_event (c_id c) dto) (histories fs) = None"
      "post_entry now c (c_type c = C_BRANCH) (entry_of_dto dto a) fs = Inr (fs1, r_cashbox r, r_history r)"
      "fs' = log_audit (audit_row ''Cashbox'' (c_id (r_cashbox r)) ''finance.balance_update''
                      (nonempty_or_null (u_created_by dto))) fs1"
      "\<not> r_idempotent r"
  using assms
  by (auto simp: updateBalance_def assertPositiveAmount_def result_simps
      split: jsnum.splits if_splits option.splits)

lemma entry_of_dto_simps [simp]:
  "en_amount (entry_of_dto dto a) = a" "en_operation (entry_of_dto dto a) = u_operation dto"
  "en_source_type (entry_of_dto dto a) = u_source_type dto"
  "en_source_id (entry_of_dto dto a) = u_source_id dto"
  "en_dedup_epoch (entry_of_dto dto a) = str_or_empty (u_dedup_epoch dto)"
  by (simp_all add: entry_of_dto_def)

lemma updateBalance_keeps:
  assumes "finance_inv fs" and "updateBalance now dto fs = Inr (fs', r)"
  shows "finance_inv fs' \<and> boxes_extend fs fs'"
  using assms(2)
proof (cases rule: updateBalance_cases)
  case replay
  then show ?thesis using assms(1) by (simp add: boxes_extend_refl)
next
  case (posted a c fs1)
  note mem = getCashbox_mem(1) [OF posted(3)]
  have "finance_inv fs'" using post_entry_inv(1) [OF assms(1) mem posted(5)] posted(6) by simp
  moreover have "boxes_extend fs fs'"
    using boxes_extend_trans [OF post_entry_extend(1) [OF assms(1) mem posted(5)] boxes_extend_refl]
      posted(6) by simp
  ultimately show ?thesis ..
qed

lemmas updateBalance_inv = updateBalance_keeps [THEN conjunct1]
lemmas updateBalance_extend = updateBalance_keeps [THEN conjunct2]

lemma updateBalance_history:
  assumes "updateBalance now dto fs = Inr (fs', r)"
  shows "\<exists>hs. histories fs' = histories fs @ hs"
  using assms by (cases rule: updateBalance_cases) (auto dest: post_entry_Inr(4))

lemma finance_inv_no_drift: "finance_inv fs \<Longrightarrow> cashbox_drifted fs = []"
  by (auto simp: cashbox_drifted_def finance_inv_def filter_empty_conv)

subsection \<open>Deliveries of balance updates\<close>

text \<open>
  A consumer calls \<open>updateBalance\<close>; a call that throws leaves the committed tables as they were.
  The deduplication key is the selector with the business event.
\<close>

definition update_step :: "finance \<Rightarrow> time \<times> update_dto \<Rightarrow> finance" where
  "update_step fs q = (case updateBalance (fst q) (snd q) fs of Inl _ \<Rightarrow> fs | Inr (fs', _) \<Rightarrow> fs')"

type_synonym event_key = "selector \<times> Source_type \<times> Operation_type \<times> ident option \<times> string"

definition event_key :: "time \<times> update_dto \<Rightarrow> event_key option" where
  "event_key q = (let d = snd q in
     if deduplicated d
     then Some (u_selector d, u_source_type d, u_operation d, u_source_id d, str_or_empty (u_dedup_epoch d))
     else None)"

definition event_applied :: "finance \<Rightarrow> event_key \<Rightarrow> bool" where
  "event_applied fs k = (case k of (sel, st, op, sid, ep) \<Rightarrow>
     case getCashboxBySelectorWithManager sel fs of
       Inl _ \<Rightarrow> False
     | Inr c \<Rightarrow> list_ex (\<lambda>h. h_cashbox_id h = c_id c \<and> h_source_type h = st \<and> h_operation h = op
                  \<and> h_source_id h = sid \<and> h_dedup_epoch h = ep) (histories fs))"

lemma event_applied_dto:
  "event_key (now, dto) = Some k \<Longrightarrow> event_applied fs k \<longleftrightarrow> (\<exists>c. getCashboxBySelectorWithManager (u_selector dto) fs = Inr c
      \<and> (\<exists>h\<in>set (histories fs). matches_event (c_id c) dto h))"
  by (cases "getCashboxBySelectorWithManager (u_selector dto) fs")
    (auto simp: event_key_def event_applied_def Let_def matches_event_def list_ex_iff
      split: if_splits)

lemma event_applied_mono:
  assumes "boxes_extend fs fs'" and "histories fs' = histories fs @ hs" and "event_applied fs k"
  shows "event_applied fs' k"
proof -
  obtain sel st op sid ep where k: "k = (sel, st, op, sid, ep)" by (cases k)
  obtain c where c: "getCashboxBySelectorWithManager sel fs = Inr c"
    and h: "list_ex (\<lambda>h. h_cashbox_id h = c_id c \<and> h_source_type h = st \<and> h_operation h = op
                  \<and> h_source_id h = sid \<and> h_dedup_epoch h = ep) (histories fs)"
    using assms(3) k by (auto simp: event_applied_def split: sum.splits)
  obtain c' where c': "getCashboxBySelectorWithManager sel fs' = Inr c'" "c_id c' = c_id c"
    using getCashbox_stable [OF assms(1) c] by (auto simp: same_owner_def)
  then show ?thesis using h by (simp add: event_applied_def k assms(2))
qed

lemma update_step_kept:
  assumes "finance_inv fs"
  shows "finance_inv (update_step fs q)" and "event_applied fs k \<Longrightarrow> event_applied (update_step fs q) k"
  using assms updateBalance_inv updateBalance_extend updateBalance_history event_applied_mono
  by (auto simp: update_step_def split: sum.splits) (metis surj_pair)+

lemma update_step_replay:
  assumes "event_key (now, dto) = Some k" and "event_applied fs k"
  shows "update_step fs (now, dto) = fs"
proof -
  obtain c h where c: "getCashboxBySelectorWithManager (u_selector dto) fs = Inr c"
    and h: "h \<in> set (histories fs)" "matches_event (c_id c) dto h"
    using event_applied_dto [OF assms(1)] assms(2) by blast
  have d: "deduplicated dto" using assms(1) by (simp add: event_key_def Let_def split: if_splits)
  obtain e where "find (matches_event (c_id c) dto) (histories fs) = Some e"
    using h find_None_all [of "matches_event (c_id c) dto" "histories fs"] by (cases "find (matches_event (c_id c) dto) (histories fs)") auto
  then show ?thesis
    using c d by (cases "assertPositiveAmount (u_amount dto) ''amount''") (simp_all add: update_step_def updateBalance_def)
qed

lemma update_step_recorded:
  assumes "finance_inv fs" and k: "event_key (now, dto) = Some k" and "update_step fs (now, dto) \<noteq> fs"
  shows "event_applied (update_step fs (now, dto)) k"
proof -
  obtain fs' r where ok: "updateBalance now dto fs = Inr (fs', r)" and s: "update_step fs (now, dto) = fs'"
    using assms(3) by (auto simp: update_step_def split: sum.splits)
  from ok show ?thesis
  proof (cases rule: updateBalance_cases)
    case replay
    then show ?thesis using assms(3) s by simp
  next
    case (posted a c fs1)
    note rows = post_entry_Inr [OF posted(5)]
    obtain c' where c': "getCashboxBySelectorWithManager (u_selector dto) fs' = Inr c'" "same_owner c' c"
      using getCashbox_stable [OF updateBalance_extend [OF assms(1) ok] posted(3)] by blast
    have "matches_event (c_id c') dto (r_history r)"
      using rows(8) c'(2) updateBalancesByMethod_Inr(1) [OF rows(1)]
      by (auto simp: matches_event_def same_owner_def)
    moreover have "r_history r \<in> set (histories fs')" using posted(6) rows(4) by simp
    ultimately show ?thesis using event_applied_dto [OF k] c'(1) s by blast
  qed
qed

interpretation upd: at_most_once update_step event_key event_applied finance_inv
proof
  fix s q k
  show "finance_inv s \<Longrightarrow> event_key q = Some k \<Longrightarrow> event_applied s k \<Longrightarrow> update_step s q = s"
    using update_step_replay by (cases q) auto
  show "finance_inv s \<Longrightarrow> event_key q = Some k \<Longrightarrow> update_step s q \<noteq> s \<Longrightarrow> event_applied (update_step s q) k"
    using update_step_recorded by (cases q) auto
qed (auto intro: update_step_kept)

subsection \<open>Opening a cashbox\<close>

lemma boxes_extend_insert: "boxes_extend fs (fst (insert_cashbox u t b x y fs))"
  unfolding boxes_extend_def
  by (rule exI [of _ "\<lambda>c. c"])
    (simp add: same_owner_def insert_cashbox_def Let_def)

lemma insert_cashbox_inv:
  assumes inv: "finance_inv fs" and new: "find (active_box u t) (cashboxes fs) = None"
  shows "finance_inv (fst (insert_cashbox u t 0 0 0 fs))"
proof -
  define c where "c = snd (insert_cashbox u t 0 0 0 fs)"
  have c: "c_id c = string_of_nat (cashbox_seq fs)" "c_user_id c = u" "c_type c = t"
    "c_balance c = 0" "c_cash c = 0" "c_card c = 0" "\<not> c_deleted c"
    by (simp_all add: c_def insert_cashbox_def Let_def)
  have fs': "fst (insert_cashbox u t 0 0 0 fs) = fs\<lparr>cashboxes := cashboxes fs @ [c], cashbox_seq := Suc (cashbox_seq fs)\<rparr>"
    by (simp add: c_def insert_cashbox_def Let_def)
  have "h_cashbox_id h \<noteq> c_id c" if "h \<in> set (histories fs)" for h
  proof -
    from finance_invD(7) [OF inv that] obtain d where d: "d \<in> set (cashboxes fs)" "h_cashbox_id h = c_id d"
      by blast
    show ?thesis using cb.fresh [OF finance_invD(1) [OF inv] d(1)] d(2) c(1) by simp
  qed
  then have zero: "history_sum fs (c_id c) = 0"
    by (simp add: history_sum_def filter_False)
  define fs1 where "fs1 = fst (insert_cashbox u t 0 0 0 fs)"
  have fs1: "cashboxes fs1 = cashboxes fs @ [c]" "cashbox_seq fs1 = Suc (cashbox_seq fs)"
    "histories fs1 = histories fs" "history_seq fs1 = history_seq fs" "f_outbox fs1 = f_outbox fs"
    and hs: "history_sum fs1 i = history_sum fs i" for i
    by (simp_all add: fs1_def fs' history_sum_def)
  have u: "unique_boxes (cashboxes fs1)"
    using finance_invD(5) [OF inv] new c
    unfolding unique_boxes_def find_None_all active_box_def fs1 by fastforce
  have w: "cb.wf (cashbox_seq fs1) (cashboxes fs1)"
    unfolding fs1 by (rule cb.wf_insert [OF finance_invD(1) [OF inv] c(1)])
  have m: "h_cashbox_id h \<in> c_id ` set (cashboxes fs1)" if "h \<in> set (histories fs)" for h
    using finance_invD(7) [OF inv that] by (auto simp: fs1)
  have b: "c_balance d = c_cash d + c_card d \<and> c_balance d = history_sum fs1 (c_id d)"
    if "d \<in> set (cashboxes fs1)" for d
    using that finance_invD(3,4) [OF inv, of d] zero c(4-6) by (cases "d = c") (simp_all add: hs fs1)
  show ?thesis
    unfolding fs1_def [symmetric] finance_inv_def fs1(3-5)
    using finance_invD(2,6,8) [OF inv] u w m b by blast
qed

lemma createCashbox_inv:
  assumes "finance_inv fs" and "createCashbox dto fs = Inr (fs', c, code)"
    and "cr_balance dto = None" "cr_balance_cash dto = None" "cr_balance_card dto = None"
  shows "finance_inv fs'"
proof -
  obtain u where u: "assertBigIntId (cr_user_id dto) ''user_id'' = Inr u"
    using assms(2) by (auto simp: createCashbox_def result_simps)
  show ?thesis
  proof (cases "find (active_box u (cr_cashbox_type dto)) (cashboxes fs)")
    case None
    then show ?thesis
      using u assms(2-5) insert_cashbox_inv [OF assms(1) None]
      by (auto simp: createCashbox_def split: prod.splits)
  next
    case (Some c')
    then show ?thesis using u assms(1,2) by (simp add: createCashbox_def)
  qed
qed

subsection \<open>What balance updates guarantee\<close>

definition demo_courier :: create_cashbox_dto where
  "demo_courier = \<lparr>cr_user_id = Some ''7'', cr_cashbox_type = FOR_COURIER, cr_balance = None,
     cr_balance_cash = None, cr_balance_card = None\<rparr>"

definition demo_finance :: finance where
  "demo_finance = (case createCashbox demo_courier (fst (ensureMainCashbox empty_finance)) of
     Inl _ \<Rightarrow> empty_finance | Inr (fs, _) \<Rightarrow> fs)"

definition demo_sell :: update_dto where
  "demo_sell = \<lparr>u_selector = \<lparr>s_cashbox_id = None, s_user_id = Some ''7'', s_cashbox_type = Some FOR_COURIER\<rparr>,
     u_amount = Num 90000, u_operation = INCOME, u_source_type = SELL, u_source_id = Some ''55'',
     u_dedup_epoch = Some ''1'', u_source_user_id = None, u_method = Some CASH, u_comment = None,
     u_created_by = Some ''7'', u_proof_files = None, u_payment_date = NoDate\<rparr>"

definition demo_sold :: finance where
  "demo_sold = update_step demo_finance (0, demo_sell)"

lemma finance_inv_demo: "finance_inv demo_finance"
proof -
  have "find (active_box MAIN_CASHBOX_USER_ID C_MAIN) (cashboxes empty_finance) = None"
    by (simp add: empty_finance_def)
  then have "finance_inv (fst (ensureMainCashbox empty_finance))"
    using insert_cashbox_inv [OF finance_inv_empty] by (simp add: ensureMainCashbox_def)
  then show ?thesis
    unfolding demo_finance_def
    using createCashbox_inv finance_inv_empty
    by (auto simp: demo_courier_def split: sum.splits)
qed





lemma assert_Inr [result_simps]:
  "assertBigIntId v n = Inr i \<longleftrightarrow> v = Some i \<and> is_digits i"
  "assertPositiveAmount j n = Inr a \<longleftrightarrow> j = Num a \<and> 0 < a"
  by (auto simp: assertBigIntId_def assertPositiveAmount_def is_digits_def split: option.splits jsnum.splits
      if_splits) (cases v; auto simp: is_digits_def)+

text \<open>The errors the input checks, the lookup and the arithmetic raise are 400s and 404s.\<close>

definition client_error :: "rpc_error \<Rightarrow> bool" where
  "client_error e = (case e of Rpc n _ \<Rightarrow> n = 400 \<or> n = 404)"

lemma client_errors:
  "assertPositiveAmount v n = Inl e \<Longrightarrow> client_error e"
  "parseDate d = Inl e \<Longrightarrow> client_error e"
  "updateBalancesByMethod c a op m ov = Inl e \<Longrightarrow> client_error e"
  "getCashboxBySelectorWithManager sel fs = Inl e \<Longrightarrow> client_error e"
  by (auto simp: assertPositiveAmount_def parseDate_def updateBalancesByMethod_def Let_def client_error_def
        getCashboxBySelectorWithManager_def assertBigIntId_def result_simps
        split: jsnum.splits date_input.splits if_splits)

lemma post_entry_Inl:
  assumes "post_entry now c ov en fs = Inl e" and "\<not> client_error e"
  shows "\<exists>c' pd. updateBalancesByMethod c (en_amount en) (en_operation en) (en_method en) ov = Inr c'
    \<and> list_ex (same_index_key (history_of now (string_of_nat (history_seq fs)) pd c' en)) (histories fs)"
proof -
  obtain c' where c': "updateBalancesByMethod c (en_amount en) (en_operation en) (en_method en) ov = Inr c'"
    using assms client_errors(3) by (auto simp: post_entry_def result_simps)
  obtain pd where pd: "parseDate (en_payment_date en) = Inr pd"
    using assms client_errors(2) c' by (auto simp: post_entry_def result_simps)
  have "list_ex (same_index_key (history_of now (string_of_nat (history_seq fs)) pd c' en)) (histories fs)"
    using assms(1) c' pd by (auto simp: post_entry_def insert_history_def save_cashbox_def Let_def split: if_splits)
  then show ?thesis using c' by blast
qed


end
