(* ===== verification/Finance_Ledger.thy ===== *)
theory Finance_Ledger
  imports Cashbox Order_Money
begin

text \<open>
  The books of \<open>apps/finance-service/src/finance-service.service.ts\<close> beside the cashboxes: the
  company-wide financial balance ledger, the operator commissions and payouts, the cashier shifts
  and the salaries. The commission profile of an operator lives in the identity service; what
  its lookup returns is an argument of the operation that asks for it.
\<close>

record fbh =
  b_id :: ident
  b_amount :: money
  b_before :: money
  b_after :: money
  b_source_type :: FinancialSource_type
  b_order_id :: "ident option"
  b_related_user_id :: "ident option"
  b_comment :: "string option"
  b_created_by :: "ident option"
  b_deleted :: bool

record earning =
  n_id :: ident
  n_operator_id :: ident
  n_order_id :: ident
  n_market_id :: "ident option"
  n_amount :: money
  n_commission_type :: "string option"
  n_commission_value :: jsnum
  n_order_total_price :: jsnum
  n_deleted :: bool

record payout =
  y_id :: ident
  y_operator_id :: ident
  y_market_id :: "ident option"
  y_paid_by_id :: "ident option"
  y_amount :: money
  y_note :: "string option"
  y_deleted :: bool

datatype ShiftStatus = OPEN | SHIFT_CLOSED

record shift =
  sh_id :: ident
  sh_opened_by :: ident
  sh_closed_by :: "ident option"
  sh_opened_at :: time
  sh_closed_at :: "time option"
  sh_status :: ShiftStatus
  sh_opening_cash :: money
  sh_opening_card :: money
  sh_closing_cash :: money
  sh_closing_card :: money
  sh_income_cash :: money
  sh_income_card :: money
  sh_expense_cash :: money
  sh_expense_card :: money
  sh_comment :: "string option"

record salary =
  sl_id :: ident
  sl_user_id :: ident
  sl_amount :: money
  sl_have_to_pay :: money
  sl_payment_day :: int

record ledger =
  fbhs :: "fbh list"
  fbh_seq :: nat
  earnings :: "earning list"
  earning_seq :: nat
  payouts :: "payout list"
  payout_seq :: nat
  shifts :: "shift list"
  shift_seq :: nat
  salaries :: "salary list"
  salary_seq :: nat
  l_audit :: "audit_entry list"

definition empty_ledger :: ledger where
  "empty_ledger = \<lparr>fbhs = [], fbh_seq = 0, earnings = [], earning_seq = 0, payouts = [], payout_seq = 0,
     shifts = [], shift_seq = 0, salaries = [], salary_seq = 0, l_audit = []\<rparr>"

definition log_ledger :: "audit_entry \<Rightarrow> ledger \<Rightarrow> ledger" where
  "log_ledger a l = l\<lparr>l_audit := l_audit l @ [a]\<rparr>"

text \<open>A value written to a \<open>numeric(p,2)\<close> column is rounded to two decimals, halves away from zero.\<close>

definition store2 :: "money \<Rightarrow> money" where
  "store2 x = (if 0 \<le> x then round2 x else - round2 (- x))"

subsection \<open>The financial balance ledger\<close>

record fb_input =
  i_amount :: jsnum
  i_source_type :: FinancialSource_type
  i_order_id :: "string option"
  i_related_user_id :: "string option"
  i_comment :: "string option"
  i_created_by :: "string option"

text \<open>\<open>findOne({ order: { id: 'DESC' } })\<close>: rows are kept by ascending id.\<close>

definition recordFinancialBalance :: "fb_input \<Rightarrow> ledger \<Rightarrow> ledger \<times> fbh option" where
  "recordFinancialBalance input l =
     (case i_amount input of
        Num amount \<Rightarrow>
          if amount = 0 then (l, None)
          else
            (case (if truthy (i_order_id input)
                   then find (\<lambda>b. b_order_id b = i_order_id input \<and> b_source_type b = i_source_type input) (fbhs l)
                   else None) of
               Some existing \<Rightarrow> (l, Some existing)
             | None \<Rightarrow>
                 let balanceBefore = (if fbhs l = [] then 0 else b_after (last (fbhs l)));
                     row = \<lparr>b_id = string_of_nat (fbh_seq l), b_amount = amount, b_before = balanceBefore,
                            b_after = balanceBefore + amount, b_source_type = i_source_type input,
                            b_order_id = nonempty_or_null (i_order_id input),
                            b_related_user_id = nonempty_or_null (i_related_user_id input),
                            b_comment = i_comment input,
                            b_created_by = nonempty_or_null (i_created_by input), b_deleted = False\<rparr>
                 in (log_ledger (audit_row ''FinancialBalanceHistory'' (b_id row) ''created''
                        (nonempty_or_null (i_created_by input)))
                      (l\<lparr>fbhs := fbhs l @ [row], fbh_seq := Suc (fbh_seq l)\<rparr>), Some row))
      | _ \<Rightarrow> (l, None))"

definition getCurrentFinancialBalance :: "ledger \<Rightarrow> money" where
  "getCurrentFinancialBalance l =
     (let live = filter (\<lambda>b. \<not> b_deleted b) (fbhs l) in if live = [] then 0 else b_after (last live))"

subsection \<open>Operator commissions\<close>

definition computeCommission :: "string option \<Rightarrow> jsnum \<Rightarrow> jsnum \<Rightarrow> money" where
  "computeCommission kind value totalPrice =
     (case value of
        Num v \<Rightarrow>
          if \<not> truthy kind \<or> v \<le> 0 then 0
          else if kind = Some ''percent''
          then let price = (case totalPrice of Num t \<Rightarrow> max t 0 | _ \<Rightarrow> 0) in max (price * v / 100) 0
          else if kind = Some ''fixed'' then max v 0
          else 0
      | _ \<Rightarrow> 0)"

record earning_input =
  g_order_id :: "string option"
  g_operator_id :: "string option"
  g_market_id :: "string option"
  g_total_price :: jsnum

text \<open>
  The reply of the identity service for the operator: an error, no such user, or the commission
  profile.
\<close>

type_synonym commission_reply = "rpc_error + (string option \<times> jsnum) option"

definition save_earning :: "earning \<Rightarrow> ledger \<Rightarrow> ledger" where
  "save_earning e l = l\<lparr>earnings := save_row n_id e (earnings l)\<rparr>"

text \<open>The values written to an existing row, and the row inserted otherwise.\<close>

definition earning_update :: "earning_input \<Rightarrow> string option \<times> jsnum \<Rightarrow> money \<Rightarrow> earning \<Rightarrow> earning" where
  "earning_update input c amount existing =
     existing\<lparr>n_amount := store2 amount, n_operator_id := str_or_empty (g_operator_id input),
       n_market_id := (if truthy (g_market_id input) then g_market_id input else n_market_id existing),
       n_commission_type := fst c, n_commission_value := snd c,
       n_order_total_price := g_total_price input\<rparr>"

definition earning_insert :: "ident \<Rightarrow> earning_input \<Rightarrow> ident \<Rightarrow> string option \<times> jsnum \<Rightarrow> money \<Rightarrow> earning" where
  "earning_insert i input order c amount =
     \<lparr>n_id = i, n_operator_id = str_or_empty (g_operator_id input), n_order_id = order,
      n_market_id = nonempty_or_null (g_market_id input), n_amount = store2 amount,
      n_commission_type = fst c, n_commission_value = snd c,
      n_order_total_price = g_total_price input, n_deleted = False\<rparr>"

definition upsert_earning ::
  "earning_input \<Rightarrow> ident \<Rightarrow> string option \<times> jsnum \<Rightarrow> money \<Rightarrow> ledger \<Rightarrow> ledger \<times> earning option" where
  "upsert_earning input order c amount l =
     (case find (\<lambda>e. n_order_id e = order) (earnings l) of
        Some existing \<Rightarrow>
          let saved = earning_update input c amount existing
          in ((if n_amount existing = amount then id
               else log_ledger (audit_row ''OperatorEarning'' (n_id saved) ''updated'' None))
                (save_earning saved l), Some saved)
      | None \<Rightarrow>
          let saved = earning_insert (string_of_nat (earning_seq l)) input order c amount
          in (log_ledger (audit_row ''OperatorEarning'' (n_id saved) ''created'' None)
                (l\<lparr>earnings := earnings l @ [saved], earning_seq := Suc (earning_seq l)\<rparr>), Some saved))"

definition recordOperatorEarning ::
  "commission_reply \<Rightarrow> earning_input \<Rightarrow> ledger \<Rightarrow> rpc_error + ledger \<times> earning option" where
  "recordOperatorEarning fetched input l =
     rbind (assertBigIntId (g_order_id input) ''order_id'') (\<lambda>order.
     if \<not> (truthy (g_operator_id input) \<and> is_digits (str_or_empty (g_operator_id input)))
     then Inr (l, None)
     else
       rbind fetched (\<lambda>operator.
       let c = (case operator of Some c \<Rightarrow> c | None \<Rightarrow> (None, Num 0));
           amount = computeCommission (fst c) (snd c) (g_total_price input)
       in
       if amount \<le> 0 then Inr (l, None)
       else Inr (upsert_earning input order c amount l)))"

definition removeOperatorEarning :: "string option \<Rightarrow> ledger \<Rightarrow> rpc_error + ledger" where
  "removeOperatorEarning order_id l =
     rbind (assertBigIntId order_id ''order_id'') (\<lambda>order.
       case find (\<lambda>e. n_order_id e = order) (earnings l) of
         None \<Rightarrow> Inr l
       | Some existing \<Rightarrow>
           Inr (log_ledger (audit_row ''OperatorEarning'' (n_id existing) ''deleted'' None)
                  (save_earning (existing\<lparr>n_deleted := True\<rparr>) l)))"

record payout_input =
  o_operator_id :: "string option"
  o_market_id :: "string option"
  o_paid_by_id :: "string option"
  o_amount :: jsnum
  o_note :: "string option"

definition createOperatorPayment :: "payout_input \<Rightarrow> ledger \<Rightarrow> rpc_error + ledger \<times> payout" where
  "createOperatorPayment input l =
     rbind (assertBigIntId (o_operator_id input) ''operator_id'') (\<lambda>operator.
     rbind (assertPositiveAmount (o_amount input) ''amount'') (\<lambda>amount.
       let saved = \<lparr>y_id = string_of_nat (payout_seq l), y_operator_id = operator,
             y_market_id = nonempty_or_null (o_market_id input),
             y_paid_by_id = nonempty_or_null (o_paid_by_id input), y_amount = amount,
             y_note = o_note input, y_deleted = False\<rparr>
       in Inr (log_ledger (audit_row ''OperatorPayment'' (y_id saved) ''payment''
                 (nonempty_or_null (o_paid_by_id input)))
               (l\<lparr>payouts := payouts l @ [saved], payout_seq := Suc (payout_seq l)\<rparr>), saved)))"

definition operator_earned :: "ident \<Rightarrow> ledger \<Rightarrow> money" where
  "operator_earned u l = (\<Sum>e\<leftarrow>filter (\<lambda>e. n_operator_id e = u \<and> \<not> n_deleted e) (earnings l). n_amount e)"

definition operator_paid :: "ident \<Rightarrow> ledger \<Rightarrow> money" where
  "operator_paid u l = (\<Sum>p\<leftarrow>filter (\<lambda>p. y_operator_id p = u \<and> \<not> y_deleted p) (payouts l). y_amount p)"

definition findOperatorBalance :: "string option \<Rightarrow> ledger \<Rightarrow> rpc_error + money" where
  "findOperatorBalance operator_id l =
     rbind (assertBigIntId operator_id ''operator_id'') (\<lambda>u. Inr (operator_earned u l - operator_paid u l))"

subsection \<open>Shifts\<close>

record open_dto =
  od_opened_by :: "string option"
  od_cash :: "money option"
  od_card :: "money option"
  od_comment :: "string option"

record close_dto =
  cd_closed_by :: "string option"
  cd_shift_id :: "string option"
  cd_opened_by :: "string option"
  cd_cash :: "money option"
  cd_card :: "money option"
  cd_comment :: "string option"

definition or_zero :: "money option \<Rightarrow> money" where
  "or_zero x = (case x of Some v \<Rightarrow> v | None \<Rightarrow> 0)"

definition openShift :: "time \<Rightarrow> open_dto \<Rightarrow> ledger \<Rightarrow> rpc_error + ledger \<times> shift" where
  "openShift now dto l =
     rbind (assertBigIntId (od_opened_by dto) ''opened_by'') (\<lambda>u.
     if find (\<lambda>s. sh_opened_by s = u \<and> sh_status s = OPEN) (shifts l) \<noteq> None
     then Inl (badRequest ''An open shift already exists for this user'')
     else
       let saved = \<lparr>sh_id = string_of_nat (shift_seq l), sh_opened_by = u, sh_closed_by = None,
             sh_opened_at = now, sh_closed_at = None, sh_status = OPEN,
             sh_opening_cash = or_zero (od_cash dto), sh_opening_card = or_zero (od_card dto),
             sh_closing_cash = 0, sh_closing_card = 0, sh_income_cash = 0, sh_income_card = 0,
             sh_expense_cash = 0, sh_expense_card = 0, sh_comment = od_comment dto\<rparr>
       in Inr (log_ledger (audit_row ''Shift'' (sh_id saved) ''created'' (Some u))
                (l\<lparr>shifts := shifts l @ [saved], shift_seq := Suc (shift_seq l)\<rparr>), saved))"

text \<open>The four running totals of \<open>closeShift\<close>.\<close>

record totals =
  tt_income_cash :: money
  tt_income_card :: money
  tt_expense_cash :: money
  tt_expense_card :: money

definition add_history :: "totals \<Rightarrow> history \<Rightarrow> totals" where
  "add_history t h =
     (case h_operation h of
        INCOME \<Rightarrow> if h_method h = CASH then t\<lparr>tt_income_cash := tt_income_cash t + h_amount h\<rparr>
                  else t\<lparr>tt_income_card := tt_income_card t + h_amount h\<rparr>
      | EXPENSE \<Rightarrow> if h_method h = CASH then t\<lparr>tt_expense_cash := tt_expense_cash t + h_amount h\<rparr>
                  else t\<lparr>tt_expense_card := tt_expense_card t + h_amount h\<rparr>)"

definition shift_totals :: "time \<Rightarrow> time \<Rightarrow> history list \<Rightarrow> totals" where
  "shift_totals t0 t1 hs =
     foldl add_history \<lparr>tt_income_cash = 0, tt_income_card = 0, tt_expense_cash = 0, tt_expense_card = 0\<rparr>
       (filter (\<lambda>h. t0 \<le> h_created_at h \<and> h_created_at h \<le> t1) hs)"

text \<open>The latest open shift of a user: \<open>order: { opened_at: 'DESC' }\<close>.\<close>

definition latest_open :: "ident \<Rightarrow> shift list \<Rightarrow> shift option" where
  "latest_open u ss =
     (let cs = filter (\<lambda>s. sh_opened_by s = u \<and> sh_status s = OPEN) ss
      in if cs = [] then None else Some (last (sort_key sh_opened_at cs)))"

definition locate_shift :: "close_dto \<Rightarrow> ledger \<Rightarrow> rpc_error + ident option" where
  "locate_shift dto l =
     (if truthy (cd_shift_id dto)
      then rbind (assertBigIntId (cd_shift_id dto) ''shift_id'') (\<lambda>i. Inr (Some i))
      else if truthy (cd_opened_by dto)
      then rbind (assertBigIntId (cd_opened_by dto) ''opened_by'') (\<lambda>u.
             Inr (map_option sh_id (latest_open u (shifts l))))
      else Inr None)"

definition closeShift :: "time \<Rightarrow> close_dto \<Rightarrow> history list \<Rightarrow> ledger \<Rightarrow> rpc_error + ledger \<times> shift" where
  "closeShift now dto hs l =
     rbind (assertBigIntId (cd_closed_by dto) ''closed_by'') (\<lambda>closer.
     rbind (locate_shift dto l) (\<lambda>shiftId.
     case shiftId of
       None \<Rightarrow> Inl (notFound ''Open shift not found'')
     | Some i \<Rightarrow>
         rbind (find_or (notFound ''Open shift not found'') (\<lambda>s. sh_id s = i) (shifts l)) (\<lambda>shift.
         rbind (require (sh_status shift = OPEN) (badRequest ''Shift is already closed'')) (\<lambda>_.
           let t = shift_totals (sh_opened_at shift) now hs;
               saved = shift\<lparr>sh_closed_by := Some closer, sh_closed_at := Some now, sh_status := SHIFT_CLOSED,
                 sh_income_cash := tt_income_cash t, sh_income_card := tt_income_card t,
                 sh_expense_cash := tt_expense_cash t, sh_expense_card := tt_expense_card t,
                 sh_closing_cash := or_zero (cd_cash dto), sh_closing_card := or_zero (cd_card dto),
                 sh_comment := (case cd_comment dto of Some c \<Rightarrow> Some c | None \<Rightarrow> sh_comment shift)\<rparr>
           in Inr (log_ledger (audit_row ''Shift'' (sh_id saved) ''status_change'' (Some closer))
                     (l\<lparr>shifts := save_row sh_id saved (shifts l)\<rparr>), saved)))))"

subsection \<open>Salaries\<close>

record salary_dto =
  sd_user_id :: "string option"
  sd_amount :: jsnum
  sd_have_to_pay :: "money option"
  sd_payment_day :: jsnum

record salary_update_dto =
  su_user_id :: "string option"
  su_amount :: "jsnum option"
  su_have_to_pay :: "money option"
  su_increase :: "money option"
  su_payment_day :: "jsnum option"

text \<open>
  The range check of \<open>payment_day\<close> and the \<open>int\<close> column behind it: \<open>NaN\<close> passes the comparisons
  and, like a fraction, is refused by the column.
\<close>

definition payment_day :: "jsnum \<Rightarrow> rpc_error + int" where
  "payment_day d =
     (case d of
        Num r \<Rightarrow> if r < 1 \<or> 31 < r then Inl (badRequest ''payment_day must be between 1 and 31'')
                 else if of_int \<lfloor>r\<rfloor> = r then Inr \<lfloor>r\<rfloor>
                 else Inl (internalError ''invalid input syntax for type integer'')
      | NaN \<Rightarrow> Inl (internalError ''invalid input syntax for type integer'')
      | _ \<Rightarrow> Inl (badRequest ''payment_day must be between 1 and 31''))"

definition createSalary :: "salary_dto \<Rightarrow> ledger \<Rightarrow> rpc_error + ledger \<times> salary" where
  "createSalary dto l =
     rbind (assertBigIntId (sd_user_id dto) ''user_id'') (\<lambda>u.
     rbind (assertPositiveAmount (sd_amount dto) ''salary_amount'') (\<lambda>amount.
     rbind (require (find (\<lambda>s. sl_user_id s = u) (salaries l) = None)
              (badRequest ''Salary row already exists for this user'')) (\<lambda>_.
     rbind (payment_day (sd_payment_day dto)) (\<lambda>day.
       let saved = \<lparr>sl_id = string_of_nat (salary_seq l), sl_user_id = u, sl_amount = amount,
             sl_have_to_pay = (case sd_have_to_pay dto of Some h \<Rightarrow> h | None \<Rightarrow> amount),
             sl_payment_day = day\<rparr>
       in Inr (log_ledger (audit_row ''UserSalary'' (sl_id saved) ''created'' (Some u))
                 (l\<lparr>salaries := salaries l @ [saved], salary_seq := Suc (salary_seq l)\<rparr>), saved)))))"

definition updateSalary :: "salary_update_dto \<Rightarrow> ledger \<Rightarrow> rpc_error + ledger \<times> salary" where
  "updateSalary dto l =
     rbind (assertBigIntId (su_user_id dto) ''user_id'') (\<lambda>u.
     rbind (find_or (notFound ''Salary not found for this user'') (\<lambda>s. sl_user_id s = u) (salaries l)) (\<lambda>salary.
     rbind (case su_amount dto of None \<Rightarrow> Inr (sl_amount salary)
            | Some a \<Rightarrow> assertPositiveAmount a ''salary_amount'') (\<lambda>amount.
     rbind (case su_payment_day dto of None \<Rightarrow> Inr (sl_payment_day salary) | Some d \<Rightarrow> payment_day d) (\<lambda>day.
       let owed = (case su_have_to_pay dto of Some h \<Rightarrow> h | None \<Rightarrow> sl_have_to_pay salary);
           saved = salary\<lparr>sl_amount := amount,
             sl_have_to_pay := owed + or_zero (su_increase dto),
             sl_payment_day := day\<rparr>
       in Inr ((if saved = salary then id
                else log_ledger (audit_row ''UserSalary'' (sl_id saved) ''updated'' (Some u)))
                 (l\<lparr>salaries := save_row sl_id saved (salaries l)\<rparr>), saved)))))"

subsection \<open>The running balance is the sum of the ledger\<close>

text \<open>A row continues the chain after a running balance.\<close>

fun chained :: "money \<Rightarrow> fbh list \<Rightarrow> bool" where
  "chained b [] = True"
| "chained b (r # rs) = (b_before r = b \<and> b_after r = b + b_amount r \<and> \<not> b_deleted r \<and> chained (b_after r) rs)"

definition running :: "money \<Rightarrow> fbh list \<Rightarrow> money" where
  "running b rs = (if rs = [] then b else b_after (last rs))"

lemma running_Cons: "running b (r # rs) = running (b_after r) rs"
  by (simp add: running_def)

lemma chained_append: "chained b (rs @ [r]) \<longleftrightarrow> chained b rs \<and> b_before r = running b rs
    \<and> b_after r = running b rs + b_amount r \<and> \<not> b_deleted r"
  by (induction rs arbitrary: b) (auto simp: running_Cons, simp_all add: running_def)

lemma chained_sum: "chained b rs \<Longrightarrow> running b rs = b + (\<Sum>r\<leftarrow>rs. b_amount r)"
  by (induction rs arbitrary: b) (auto simp: running_Cons, simp add: running_def)

lemma chained_live: "chained b rs \<Longrightarrow> filter (\<lambda>r. \<not> b_deleted r) rs = rs"
  by (induction rs arbitrary: b) auto

definition one_per_source :: "fbh list \<Rightarrow> bool" where
  "one_per_source rs \<longleftrightarrow> distinct (map (\<lambda>r. (b_order_id r, b_source_type r)) (filter (\<lambda>r. b_order_id r \<noteq> None) rs))"

definition book_step :: "ledger \<Rightarrow> fb_input \<Rightarrow> ledger" where
  "book_step l i = fst (recordFinancialBalance i l)"

lemma log_ledger_simps [simp]:
  "fbhs (log_ledger a l) = fbhs l" "earnings (log_ledger a l) = earnings l"
  "payouts (log_ledger a l) = payouts l" "shifts (log_ledger a l) = shifts l"
  "salaries (log_ledger a l) = salaries l" "shift_seq (log_ledger a l) = shift_seq l"
  "earning_seq (log_ledger a l) = earning_seq l" "fbh_seq (log_ledger a l) = fbh_seq l"
  by (simp_all add: log_ledger_def)

lemma book_step_rows:
  "fbhs (book_step l i) = fbhs l \<or>
   (\<exists>r. fbhs (book_step l i) = fbhs l @ [r] \<and> b_before r = running 0 (fbhs l)
      \<and> b_after r = running 0 (fbhs l) + b_amount r \<and> \<not> b_deleted r
      \<and> (b_order_id r \<noteq> None \<longrightarrow> (\<forall>x\<in>set (fbhs l). (b_order_id x, b_source_type x) \<noteq> (b_order_id r, b_source_type r))))"
proof (cases "i_amount i")
  case (Num a)
  show ?thesis
  proof (cases "fbhs (book_step l i) = fbhs l")
    case False
    then have d: "a \<noteq> 0" "(if truthy (i_order_id i)
        then find (\<lambda>b. b_order_id b = i_order_id i \<and> b_source_type b = i_source_type i) (fbhs l) else None) = None"
      using Num by (auto simp: book_step_def recordFinancialBalance_def split: option.splits if_splits)
    have n: "\<forall>x\<in>set (fbhs l). (b_order_id x, b_source_type x) \<noteq> (i_order_id i, i_source_type i)"
      if "truthy (i_order_id i)"
      using d(2) that by (simp add: find_None_all)
    show ?thesis
      using Num d n
      by (intro disjI2) (simp add: book_step_def recordFinancialBalance_def running_def nonempty_or_null_def
          Let_def del: not_None_eq)
  qed simp
qed (auto simp: book_step_def recordFinancialBalance_def)


subsection \<open>Commissions\<close>

interpretation ea: table "n_id :: earning \<Rightarrow> ident" .

definition demo_earning :: earning_input where
  "demo_earning = \<lparr>g_order_id = Some ''55'', g_operator_id = Some ''9'', g_market_id = Some ''31'',
     g_total_price = Num 100000\<rparr>"

definition demo_profile :: commission_reply where
  "demo_profile = Inr (Some (Some ''percent'', Num 5))"

definition ok_ledger :: "rpc_error + ledger \<times> 'r \<Rightarrow> ledger" where
  "ok_ledger r = (case r of Inl _ \<Rightarrow> empty_ledger | Inr (l, _) \<Rightarrow> l)"

lemma save_earning_simps [simp]: "earnings (save_earning e l) = save_row n_id e (earnings l)"
  by (simp add: save_earning_def)

lemma find_order_save:
  assumes "ea.wf n es" and "find (\<lambda>e. n_order_id e = k) es = Some e" and "n_id e' = n_id e" and "n_order_id e' = k"
  shows "find (\<lambda>e. n_order_id e = k) (save_row n_id e' es) = Some e'"
proof -
  have "P (if n_id x = n_id e' then e' else x) = P x" if "x \<in> set es" "P = (\<lambda>e. n_order_id e = k)" for x P
    using that assms(3,4) find_Some_mem [OF assms(2)] ea.mem_unique [OF assms(1) that(1)] by auto
  then have "find (\<lambda>e. n_order_id e = k) (save_row n_id e' es)
      = map_option (\<lambda>x. if n_id x = n_id e' then e' else x) (find (\<lambda>e. n_order_id e = k) es)"
    unfolding save_row_def by (intro find_map_stable) simp
  then show ?thesis using assms(2,3) by simp
qed

lemma save_save: "n_id a = n_id b \<Longrightarrow> save_row n_id a (save_row n_id b es) = save_row n_id a es"
  by (auto simp: save_row_def)

lemma earning_update_simps [simp]:
  "n_id (earning_update inp c a e) = n_id e" "n_order_id (earning_update inp c a e) = n_order_id e"
  "n_deleted (earning_update inp c a e) = n_deleted e"
  "earning_update inp c a (earning_update inp c a e) = earning_update inp c a e"
  "earning_update inp c a (earning_insert i inp k c a) = earning_insert i inp k c a"
  "n_order_id (earning_insert i inp k c a) = k" "n_id (earning_insert i inp k c a) = i"
  by (simp_all add: earning_update_def earning_insert_def nonempty_or_null_def)

lemma upsert_earning_again:
  assumes wf: "ea.wf (earning_seq l) (earnings l)"
  shows "earnings (fst (upsert_earning inp k c a (fst (upsert_earning inp k c a l))))
       = earnings (fst (upsert_earning inp k c a l))"
proof (cases "find (\<lambda>e. n_order_id e = k) (earnings l)")
  case None
  let ?e = "earning_insert (string_of_nat (earning_seq l)) inp k c a"
  have l1: "earnings (fst (upsert_earning inp k c a l)) = earnings l @ [?e]"
    using None by (simp add: upsert_earning_def Let_def)
  then have "find (\<lambda>e. n_order_id e = k) (earnings (fst (upsert_earning inp k c a l))) = Some ?e"
    using None by (simp add: find_append_None)
  moreover have "save_row n_id ?e (earnings l @ [?e]) = earnings l @ [?e]"
    by (rule ea.save_same [OF ea.wf_insert [OF wf]]) simp_all
  ultimately show ?thesis using l1 by (simp add: upsert_earning_def [of inp k c a "fst _"] Let_def)
next
  case (Some e)
  let ?e = "earning_update inp c a e"
  have l1: "earnings (fst (upsert_earning inp k c a l)) = save_row n_id ?e (earnings l)"
    using Some by (simp add: upsert_earning_def Let_def)
  have "find (\<lambda>e. n_order_id e = k) (earnings (fst (upsert_earning inp k c a l))) = Some ?e"
    unfolding l1 by (rule find_order_save [OF wf Some]) (use find_Some_mem [OF Some] in simp_all)
  then show ?thesis using l1 by (simp add: upsert_earning_def [of inp k c a "fst _"] Let_def save_save)
qed

lemma recordOperatorEarning_cases:
  assumes "recordOperatorEarning profile inp l = Inr (l1, r)"
  obtains "l1 = l" "recordOperatorEarning profile inp = (\<lambda>l. Inr (l, r))"
  | k c a where "g_order_id inp = Some k" "(l1, r) = upsert_earning inp k c a l"
      "recordOperatorEarning profile inp = (\<lambda>l. Inr (upsert_earning inp k c a l))"
proof -
  obtain k where k: "assertBigIntId (g_order_id inp) ''order_id'' = Inr k" "g_order_id inp = Some k"
    using assms by (auto simp: recordOperatorEarning_def rbind_Inr assert_Inr simp del: rbind.simps)
  show thesis
  proof (cases "truthy (g_operator_id inp) \<and> is_digits (str_or_empty (g_operator_id inp))")
    case False
    then show thesis using assms k that(1) by (auto simp: recordOperatorEarning_def fun_eq_iff)
  next
    case True
    then obtain p where p: "profile = Inr p"
      using assms k by (cases profile) (auto simp: recordOperatorEarning_def)
    let ?c = "case p of Some c \<Rightarrow> c | None \<Rightarrow> (None, Num 0)"
    let ?a = "computeCommission (fst ?c) (snd ?c) (g_total_price inp)"
    show thesis
    proof (cases "?a \<le> 0")
      case zero: True
      then show thesis using assms k p True that(1) by (auto simp: recordOperatorEarning_def fun_eq_iff)
    next
      case pos: False
      then show thesis
        using assms k p True
        by (intro that(2) [of k ?c ?a]) (auto simp: recordOperatorEarning_def fun_eq_iff Let_def)
    qed
  qed
qed

text \<open>
  A redelivered commission event credits nothing twice: handling the same event again with
  the same commission profile succeeds and leaves the earnings as they are.
\<close>

theorem earning_redelivery:
  assumes wf: "ea.wf (earning_seq l) (earnings l)"
    and ok: "recordOperatorEarning profile inp l = Inr (l1, r)"
  shows "\<exists>l2 r2. recordOperatorEarning profile inp l1 = Inr (l2, r2) \<and> earnings l2 = earnings l1"
  using ok
proof (rule recordOperatorEarning_cases)
  fix k c a
  assume "(l1, r) = upsert_earning inp k c a l"
    and f: "recordOperatorEarning profile inp = (\<lambda>l. Inr (upsert_earning inp k c a l))"
  then have "l1 = fst (upsert_earning inp k c a l)" by (metis fst_conv)
  then show ?thesis using f upsert_earning_again [OF wf, of inp k c a] by (metis prod.collapse)
qed auto

theorem earning_redelivery_witness:
  "\<exists>l2 r2. recordOperatorEarning demo_profile demo_earning
        (ok_ledger (recordOperatorEarning demo_profile demo_earning empty_ledger)) = Inr (l2, r2)
     \<and> operator_earned ''9'' l2 = 5000"
proof -
  let ?l1 = "ok_ledger (recordOperatorEarning demo_profile demo_earning empty_ledger)"
  have "case recordOperatorEarning demo_profile demo_earning empty_ledger of Inl _ \<Rightarrow> False | Inr _ \<Rightarrow> True"
    by code_simp
  then obtain r where ok: "recordOperatorEarning demo_profile demo_earning empty_ledger = Inr (?l1, r)"
    by (auto simp: ok_ledger_def split: sum.splits)
  have "operator_earned ''9'' ?l1 = 5000" by code_simp
  moreover have "ea.wf (earning_seq empty_ledger) (earnings empty_ledger)"
    by (simp add: empty_ledger_def ea.wf_empty)
  ultimately show ?thesis using earning_redelivery [OF _ ok] by (auto simp: operator_earned_def)
qed

text \<open>
  C34. A commission that a rollback removed stays removed: once the earning of an order is
  soft-deleted, recording the commission of a later re-sale of that order succeeds but changes no
  operator's balance, because the row is updated without clearing the deletion flag.
\<close>

theorem resale_commission_lost:
  assumes wf: "ea.wf (earning_seq l) (earnings l)"
    and sold: "find (\<lambda>e. n_order_id e = k) (earnings l) = Some e"
    and rolled_back: "removeOperatorEarning (Some k) l = Inr l1"
    and resold: "recordOperatorEarning profile inp l1 = Inr (l2, r)" and same: "g_order_id inp = Some k"
  shows "findOperatorBalance (Some u) l2 = findOperatorBalance (Some u) l1"
proof -
  let ?d = "e\<lparr>n_deleted := True\<rparr>"
  have l1: "earnings l1 = save_row n_id ?d (earnings l)" "payouts l1 = payouts l" "earning_seq l1 = earning_seq l"
    using rolled_back sold
    by (auto simp: removeOperatorEarning_def save_earning_def log_ledger_def rbind_Inr assert_Inr simp del: rbind.simps)
  have wf1: "ea.wf (earning_seq l1) (earnings l1)" unfolding l1 by (rule ea.wf_save [OF wf])
  have f1: "find (\<lambda>e. n_order_id e = k) (earnings l1) = Some ?d"
    unfolding l1 by (rule find_order_save [OF wf sold]) (use find_Some_mem [OF sold] in simp_all)
  from resold show ?thesis
  proof (rule recordOperatorEarning_cases)
    fix k' c a
    assume "g_order_id inp = Some k'" and up: "(l2, r) = upsert_earning inp k' c a l1"
    then have k': "k' = k" using same by simp
    let ?e = "earning_update inp c a ?d"
    have l2: "earnings l2 = save_row n_id ?e (earnings l1)" "payouts l2 = payouts l1"
      using up f1 unfolding k' by (auto simp: upsert_earning_def Let_def save_earning_def log_ledger_def split: if_splits)
    have "operator_earned v l2 = operator_earned v l1" for v
    proof -
      have "filter (\<lambda>x. n_operator_id x = v \<and> \<not> n_deleted x) (save_row n_id ?e (earnings l1))
          = filter (\<lambda>x. n_operator_id x = v \<and> \<not> n_deleted x) (earnings l1)"
      proof (rule filter_save_hidden)
        fix x assume "x \<in> set (earnings l1)" "n_id x = n_id ?e"
        then have "x = ?d" using ea.mem_unique [OF wf1 _ conjunct1 [OF find_Some_mem [OF f1]]] by simp
        then show "\<not> (n_operator_id x = v \<and> \<not> n_deleted x)" by simp
      qed simp
      then show ?thesis by (simp add: operator_earned_def l2)
    qed
    then show ?thesis by (simp add: findOperatorBalance_def operator_paid_def l2)
  qed simp
qed

theorem resale_commission_lost_witness:
  "\<exists>l1 l2 r. removeOperatorEarning (Some ''55'')
        (ok_ledger (recordOperatorEarning demo_profile demo_earning empty_ledger)) = Inr l1
     \<and> recordOperatorEarning demo_profile demo_earning l1 = Inr (l2, r)
     \<and> findOperatorBalance (Some ''9'') l2 = Inr 0"
proof -
  let ?l = "ok_ledger (recordOperatorEarning demo_profile demo_earning empty_ledger)"
  let ?l1 = "case removeOperatorEarning (Some ''55'') ?l of Inl _ \<Rightarrow> empty_ledger | Inr l \<Rightarrow> l"
  have c: "case removeOperatorEarning (Some ''55'') ?l of Inl _ \<Rightarrow> False | Inr _ \<Rightarrow> True"
    "case recordOperatorEarning demo_profile demo_earning ?l1 of Inl _ \<Rightarrow> False | Inr _ \<Rightarrow> True"
    "find (\<lambda>e. n_order_id e = ''55'') (earnings ?l) \<noteq> None"
    "findOperatorBalance (Some ''9'') ?l1 = Inr 0" "map n_id (earnings ?l) = [''0'']" "earning_seq ?l = 1"
    by code_simp+
  have "n_id e = ''0''" if "e \<in> set (earnings ?l)" for e
    using that c(5) by (metis imageI list.set_map list.simps(15) list.set(1) singletonD)
  then have wf: "ea.wf (earning_seq ?l) (earnings ?l)"
    using c(5,6) by (auto simp: ea.wf_def string_of_nat.simps)
  obtain e where e: "find (\<lambda>e. n_order_id e = ''55'') (earnings ?l) = Some e" using c(3) by blast
  obtain l2 r where r: "recordOperatorEarning demo_profile demo_earning ?l1 = Inr (l2, r)"
    using c(2) by (auto split: sum.splits)
  have m: "removeOperatorEarning (Some ''55'') ?l = Inr ?l1" using c(1) by (auto split: sum.splits)
  have "g_order_id demo_earning = Some ''55''" by (simp add: demo_earning_def)
  then show ?thesis
    using resale_commission_lost [OF wf e m r, of "''9''"] m r c(4) by auto
qed

subsection \<open>Shifts\<close>

interpretation shs: table "sh_id :: shift \<Rightarrow> ident" .

definition cash_flow :: "totals \<Rightarrow> money" where
  "cash_flow t = tt_income_cash t + tt_income_card t - (tt_expense_cash t + tt_expense_card t)"

lemma cash_flow_add: "cash_flow (add_history t h) = cash_flow t + signed_amount h"
  by (cases "h_operation h") (simp_all add: cash_flow_def add_history_def signed_amount_def)

lemma cash_flow_foldl: "cash_flow (foldl add_history t hs) = cash_flow t + (\<Sum>h\<leftarrow>hs. signed_amount h)"
  by (induction hs arbitrary: t) (simp_all add: cash_flow_add)


definition demo_shift :: ledger where
  "demo_shift = ok_ledger (openShift 0 \<lparr>od_opened_by = Some ''4'', od_cash = None, od_card = None, od_comment = None\<rparr> empty_ledger)"

definition demo_close :: close_dto where
  "demo_close = \<lparr>cd_closed_by = Some ''4'', cd_shift_id = None, cd_opened_by = Some ''4'', cd_cash = None,
     cd_card = None, cd_comment = None\<rparr>"


datatype shift_op = Sh_open time open_dto | Sh_close time close_dto "history list"

fun shift_step :: "ledger \<Rightarrow> shift_op \<Rightarrow> ledger" where
  "shift_step l (Sh_open now dto) = (case openShift now dto l of Inl _ \<Rightarrow> l | Inr (l', _) \<Rightarrow> l')"
| "shift_step l (Sh_close now dto hs) = (case closeShift now dto hs l of Inl _ \<Rightarrow> l | Inr (l', _) \<Rightarrow> l')"

definition single_open :: "shift list \<Rightarrow> bool" where
  "single_open ss \<longleftrightarrow> distinct (map sh_opened_by (filter (\<lambda>s. sh_status s = OPEN) ss))"

lemma filter_close:
  assumes "sh_status s \<noteq> OPEN"
  shows "single_open ss \<Longrightarrow> single_open (save_row sh_id s ss)"
  using assms unfolding single_open_def save_row_def
  by (induction ss) (auto split: if_splits)

lemma closeShift_rows:
  assumes "closeShift now dto hs l = Inr (l', sh)"
  shows "shifts l' = save_row sh_id sh (shifts l) \<and> sh_status sh = SHIFT_CLOSED"
  using assms
  by (auto simp: closeShift_def rbind_Inr find_or_Inr Let_def simp del: rbind.simps split: option.splits)

text \<open>
  C25. However shifts are opened and closed, no user ever has two open shifts.
\<close>

theorem one_open_shift:
  "length (filter (\<lambda>s. sh_opened_by s = u \<and> sh_status s = OPEN) (shifts (foldl shift_step empty_ledger ops))) \<le> 1"
proof -
  have step: "single_open (shifts (shift_step l op))" if s: "single_open (shifts l)" for l op
  proof (cases op)
    case (Sh_open now dto)
    then show ?thesis using s
      by (auto simp: openShift_def rbind_Inr Let_def single_open_def find_None_all
          simp del: rbind.simps split: sum.splits if_splits)
  next
    case (Sh_close now dto hs)
    then show ?thesis using s closeShift_rows filter_close by (fastforce split: sum.splits)
  qed
  have "single_open (shifts (foldl shift_step l ops))" if "single_open (shifts l)" for l
    using that by (induction ops arbitrary: l) (simp_all add: step)
  then have "distinct (map sh_opened_by (filter (\<lambda>s. sh_status s = OPEN) (shifts (foldl shift_step empty_ledger ops))))"
    by (simp add: single_open_def empty_ledger_def)
  moreover have "length (filter (\<lambda>s. sh_opened_by s = u) xs) \<le> 1" if "distinct (map sh_opened_by xs)" for xs
    using that by (induction xs) (auto simp: filter_empty_conv, metis image_eqI)
  moreover have "filter (\<lambda>s. sh_opened_by s = u \<and> sh_status s = OPEN) ss
      = filter (\<lambda>s. sh_opened_by s = u) (filter (\<lambda>s. sh_status s = OPEN) ss)" for ss
    by (induction ss) auto
  ultimately show ?thesis by metis
qed

end
