(* ===== verification/Settlement.thy ===== *)
theory Settlement
  imports Cashbox
begin

text \<open>
  The per-order settlement ledger of the order service: the row written at sale time and reset on
  rollback (\<open>recordSaleSettlement\<close>, \<open>resetSettlementOnRollback\<close>, \<open>isSettledToHq\<close> of
  \<open>lifecycle/order-lifecycle.service.ts\<close>), the first-in-first-out allocation of a lump sum
  (\<open>runFifoSettlement\<close>, \<open>advanceSettlement\<close> of \<open>settlement/order-settlement.service.ts\<close>) and the
  summary the finance service asks for.
\<close>

record settlement =
  st_id :: ident
  st_order_id :: ident
  st_courier_id :: "ident option"
  st_branch_id :: "ident option"
  st_market_id :: "ident option"
  st_courier_amount :: money
  st_branch_amount :: money
  st_market_amount :: money
  st_status :: SettlementStatus
  st_courier_to_branch_at :: "time option"
  st_courier_to_branch_by :: "ident option"
  st_branch_to_hq_at :: "time option"
  st_branch_to_hq_by :: "ident option"
  st_hq_to_market_at :: "time option"
  st_hq_to_market_by :: "ident option"
  st_deleted :: bool
  st_created_at :: time

record settlements =
  rows :: "settlement list"
  row_seq :: nat

definition empty_settlements :: settlements where
  "empty_settlements = \<lparr>rows = [], row_seq = 0\<rparr>"

subsection \<open>The row of a sale\<close>

record sale_settlement =
  ss_order_id :: ident
  ss_courier_id :: "ident option"
  ss_branch_id :: "ident option"
  ss_market_id :: "ident option"
  ss_courier_amount :: money
  ss_branch_amount :: money
  ss_market_amount :: money
  ss_hasCourier :: bool

definition sale_status :: "sale_settlement \<Rightarrow> SettlementStatus" where
  "sale_status d = (if ss_hasCourier d then PENDING
     else if truthy (ss_branch_id d) then COURIER_SETTLED else BRANCH_SETTLED)"

definition sale_fields :: "time \<Rightarrow> sale_settlement \<Rightarrow> settlement \<Rightarrow> settlement" where
  "sale_fields now d row = row\<lparr>
     st_order_id := ss_order_id d,
     st_courier_id := nonempty_or_null (ss_courier_id d),
     st_branch_id := nonempty_or_null (ss_branch_id d),
     st_market_id := nonempty_or_null (ss_market_id d),
     st_courier_amount := max (ss_courier_amount d) 0,
     st_branch_amount := max (ss_branch_amount d) 0,
     st_market_amount := max (ss_market_amount d) 0,
     st_status := sale_status d,
     st_courier_to_branch_at := (if ss_hasCourier d then None else Some now),
     st_courier_to_branch_by := None,
     st_branch_to_hq_at := (if ss_hasCourier d \<or> truthy (ss_branch_id d) then None else Some now),
     st_branch_to_hq_by := None, st_hq_to_market_at := None, st_hq_to_market_by := None,
     st_deleted := False\<rparr>"

definition new_row :: "ident \<Rightarrow> time \<Rightarrow> settlement" where
  "new_row i now = \<lparr>st_id = i, st_order_id = [], st_courier_id = None, st_branch_id = None,
     st_market_id = None, st_courier_amount = 0, st_branch_amount = 0, st_market_amount = 0,
     st_status = PENDING, st_courier_to_branch_at = None, st_courier_to_branch_by = None,
     st_branch_to_hq_at = None, st_branch_to_hq_by = None, st_hq_to_market_at = None,
     st_hq_to_market_by = None, st_deleted = False, st_created_at = now\<rparr>"

definition recordSaleSettlement :: "time \<Rightarrow> sale_settlement \<Rightarrow> settlements \<Rightarrow> settlements" where
  "recordSaleSettlement now d s =
     (case find (\<lambda>r. st_order_id r = ss_order_id d) (rows s) of
        Some existing \<Rightarrow>
          s\<lparr>rows := update_where (\<lambda>r. st_id r = st_id existing) (sale_fields now d) (rows s)\<rparr>
      | None \<Rightarrow>
          s\<lparr>rows := rows s @ [sale_fields now d (new_row (string_of_nat (row_seq s)) now)],
            row_seq := Suc (row_seq s)\<rparr>)"

definition isSettledToHq :: "SettlementStatus option \<Rightarrow> bool" where
  "isSettledToHq st \<longleftrightarrow> st = Some BRANCH_SETTLED \<or> st = Some MARKET_SETTLED"

definition reset_fields :: "settlement \<Rightarrow> settlement" where
  "reset_fields row = row\<lparr>st_status := PENDING,
     st_courier_to_branch_at := None, st_courier_to_branch_by := None,
     st_branch_to_hq_at := None, st_branch_to_hq_by := None,
     st_hq_to_market_at := None, st_hq_to_market_by := None,
     st_courier_amount := 0, st_branch_amount := 0, st_market_amount := 0, st_deleted := True\<rparr>"

definition resetSettlementOnRollback :: "ident \<Rightarrow> settlements \<Rightarrow> settlements" where
  "resetSettlementOnRollback orderId s =
     s\<lparr>rows := update_where (\<lambda>r. st_order_id r = orderId) reset_fields (rows s)\<rparr>"

subsection \<open>Advancing by a lump sum\<close>

fun match_column :: "settlement_level \<Rightarrow> settlement \<Rightarrow> ident option" where
  "match_column Courier_to_branch = st_courier_id"
| "match_column Branch_to_hq = st_branch_id"
| "match_column Hq_to_market = st_market_id"

fun fromStatus :: "settlement_level \<Rightarrow> SettlementStatus" where
  "fromStatus Courier_to_branch = PENDING"
| "fromStatus Branch_to_hq = COURIER_SETTLED"
| "fromStatus Hq_to_market = BRANCH_SETTLED"

fun toStatus :: "settlement_level \<Rightarrow> SettlementStatus" where
  "toStatus Courier_to_branch = COURIER_SETTLED"
| "toStatus Branch_to_hq = BRANCH_SETTLED"
| "toStatus Hq_to_market = MARKET_SETTLED"

fun amountField :: "settlement_level \<Rightarrow> settlement \<Rightarrow> money" where
  "amountField Courier_to_branch = st_courier_amount"
| "amountField Branch_to_hq = st_branch_amount"
| "amountField Hq_to_market = st_market_amount"

fun stamp :: "settlement_level \<Rightarrow> time \<Rightarrow> ident \<Rightarrow> settlement \<Rightarrow> settlement" where
  "stamp Courier_to_branch now who r = r\<lparr>st_courier_to_branch_at := Some now, st_courier_to_branch_by := Some who\<rparr>"
| "stamp Branch_to_hq now who r = r\<lparr>st_branch_to_hq_at := Some now, st_branch_to_hq_by := Some who\<rparr>"
| "stamp Hq_to_market now who r = r\<lparr>st_hq_to_market_at := Some now, st_hq_to_market_by := Some who\<rparr>"

definition legAmount :: "settlement_level \<Rightarrow> settlement \<Rightarrow> money" where
  "legAmount lv r = max (amountField lv r) 0"

definition candidates :: "settlement_level \<Rightarrow> ident \<Rightarrow> settlement list \<Rightarrow> settlement list" where
  "candidates lv v rs =
     sort_key st_created_at
       (filter (\<lambda>r. match_column lv r = Some v \<and> st_status r = fromStatus lv \<and> \<not> st_deleted r) rs)"

text \<open>
  The loop over the candidates: the rows it settles and the sum it allocates. It stops at the
  first row whose leg does not fit in what remains; a leg of zero always fits.
\<close>

fun fifo :: "settlement_level \<Rightarrow> money \<Rightarrow> settlement list \<Rightarrow> settlement list \<times> money" where
  "fifo lv remaining [] = ([], 0)"
| "fifo lv remaining (r # rs) =
     (let leg = legAmount lv r in
      if leg > remaining \<and> leg > 0 then ([], 0)
      else let (settled, allocated) = fifo lv (remaining - leg) rs in (r # settled, leg + allocated))"

definition settle_row :: "settlement_level \<Rightarrow> time \<Rightarrow> ident \<Rightarrow> settlement \<Rightarrow> settlement" where
  "settle_row lv now by r = stamp lv now by (r\<lparr>st_status := toStatus lv\<rparr>)"

record fifo_result =
  settled_order_ids :: "ident list"
  allocated :: money
  leftover :: money

text \<open>
  The stamp columns are \<open>bigint\<close>: writing a requester that is not a number fails the transaction,
  which \<open>handleDbError\<close> turns into a 400.
\<close>

definition runFifoSettlement ::
  "time \<Rightarrow> settlement_level \<Rightarrow> ident \<Rightarrow> money \<Rightarrow> ident \<Rightarrow> settlements \<Rightarrow> rpc_error + settlements \<times> fifo_result" where
  "runFifoSettlement now lv matchValue lump requesterId s =
     (let lumpSum = max lump 0 in
      if matchValue = [] \<or> lumpSum \<le> 0
      then Inr (s, \<lparr>settled_order_ids = [], allocated = 0, leftover = lumpSum\<rparr>)
      else
        let (settled, sum) = fifo lv lumpSum (candidates lv matchValue (rows s)) in
        if settled \<noteq> [] \<and> \<not> is_digits requesterId
        then Inl (badRequest ''ID qiymatlari raqam ko'rinishida bo'lishi kerak'')
        else Inr (s\<lparr>rows := fold (\<lambda>x. update_where (\<lambda>r. st_id r = st_id x) (settle_row lv now requesterId))
                       settled (rows s)\<rparr>,
                  \<lparr>settled_order_ids = map st_order_id settled, allocated = sum,
                   leftover = max (lumpSum - sum) 0\<rparr>))"

definition advanceSettlement ::
  "time \<Rightarrow> advance \<Rightarrow> settlements \<Rightarrow> rpc_error + settlements \<times> fifo_result" where
  "advanceSettlement now d s =
     (let requesterId = (case a_requester_id d of Some u \<Rightarrow> u | None \<Rightarrow> ''system'');
          matchValue = trim (a_match_value d)
      in if matchValue = [] \<or> \<not> a_amount d > 0
         then Inr (s, \<lparr>settled_order_ids = [], allocated = 0, leftover = a_amount d\<rparr>)
         else runFifoSettlement now (a_level d) matchValue (a_amount d) requesterId s)"

subsection \<open>Reads\<close>

definition getSettlementByOrderId :: "string option \<Rightarrow> settlements \<Rightarrow> rpc_error + settlement option" where
  "getSettlementByOrderId orderId s =
     (let i = trim (str_or_empty orderId) in
      if i = [] then Inl (badRequest ''order id is required'')
      else Inr (find (\<lambda>r. st_order_id r = i) (rows s)))"

text \<open>\<open>SELECT col, SUM(amount) ... GROUP BY col\<close>, each group clamped at zero.\<close>

definition group_sums ::
  "(settlement \<Rightarrow> ident option) \<Rightarrow> (settlement \<Rightarrow> money) \<Rightarrow> SettlementStatus list \<Rightarrow> settlement list
   \<Rightarrow> (ident \<times> money) list" where
  "group_sums col amt sts rs =
     (let live = filter (\<lambda>r. \<not> st_deleted r \<and> col r \<noteq> None \<and> st_status r \<in> set sts) rs
      in map (\<lambda>k. (the k, max (\<Sum>r\<leftarrow>filter (\<lambda>r. col r = k) live. amt r) 0)) (remdups (map col live)))"

record summary =
  branch_receivable :: money
  market_payable :: money
  sm_branches :: "(ident \<times> money) list"
  sm_markets :: "(ident \<times> money) list"

definition getFinancialBalanceSettlementSummary :: "settlements \<Rightarrow> summary" where
  "getFinancialBalanceSettlementSummary s =
     (let branches = group_sums st_branch_id st_branch_amount [PENDING, COURIER_SETTLED] (rows s);
          markets = group_sums st_market_id st_market_amount [PENDING, COURIER_SETTLED, BRANCH_SETTLED] (rows s)
      in \<lparr>branch_receivable = (\<Sum>x\<leftarrow>branches. snd x), market_payable = (\<Sum>x\<leftarrow>markets. snd x),
          sm_branches = branches, sm_markets = markets\<rparr>)"

subsection \<open>The invariant of the settlement table\<close>

interpretation se: table "st_id :: settlement \<Rightarrow> ident" .

text \<open>
  The stamps say how far the cash has come: each hop is stamped exactly when the status is past
  it. Amounts are what is owed, never negative.
\<close>

definition stamps_match :: "settlement \<Rightarrow> bool" where
  "stamps_match r \<longleftrightarrow>
     (st_courier_to_branch_at r \<noteq> None \<longleftrightarrow> st_status r \<noteq> PENDING)
     \<and> (st_branch_to_hq_at r \<noteq> None \<longleftrightarrow> isSettledToHq (Some (st_status r)))
     \<and> (st_hq_to_market_at r \<noteq> None \<longleftrightarrow> st_status r = MARKET_SETTLED)
     \<and> 0 \<le> st_courier_amount r \<and> 0 \<le> st_branch_amount r \<and> 0 \<le> st_market_amount r"

definition settle_inv :: "settlements \<Rightarrow> bool" where
  "settle_inv s \<longleftrightarrow> se.wf (row_seq s) (rows s) \<and> distinct (map st_order_id (rows s))
     \<and> list_all stamps_match (rows s)"

lemma settle_row_simps [simp]:
  "st_id (settle_row lv now u r) = st_id r" "st_order_id (settle_row lv now u r) = st_order_id r"
  "st_status (settle_row lv now u r) = toStatus lv" "st_deleted (settle_row lv now u r) = st_deleted r"
  "st_branch_id (settle_row lv now u r) = st_branch_id r"
  "st_branch_amount (settle_row lv now u r) = st_branch_amount r"
  by (cases lv; simp add: settle_row_def)+

lemma settle_row_stamps: "stamps_match r \<Longrightarrow> st_status r = fromStatus lv \<Longrightarrow> stamps_match (settle_row lv now u r)"
  by (cases lv) (simp_all add: stamps_match_def settle_row_def isSettledToHq_def)

lemma sale_fields_simps [simp]:
  "st_id (sale_fields now d r) = st_id r" "st_order_id (sale_fields now d r) = ss_order_id d"
  by (simp_all add: sale_fields_def)

lemma sale_fields_stamps: "stamps_match (sale_fields now d r)"
  by (simp add: stamps_match_def sale_fields_def sale_status_def isSettledToHq_def)

lemma reset_fields_simps [simp]:
  "st_id (reset_fields r) = st_id r" "st_order_id (reset_fields r) = st_order_id r"
  by (simp_all add: reset_fields_def)

lemma reset_fields_stamps: "stamps_match (reset_fields r)"
  by (simp add: stamps_match_def reset_fields_def isSettledToHq_def)

lemma settle_inv_empty: "settle_inv empty_settlements"
  by (simp add: settle_inv_def empty_settlements_def se.wf_empty)

lemma settle_inv_map:
  assumes inv: "settle_inv s" and s': "rows s' = map f (rows s)" "row_seq s' = row_seq s"
    and f: "\<And>r. r \<in> set (rows s) \<Longrightarrow> st_id (f r) = st_id r \<and> st_order_id (f r) = st_order_id r \<and> stamps_match (f r)"
  shows "settle_inv s'"
proof -
  have ids: "map st_id (rows s') = map st_id (rows s)" and ks: "map st_order_id (rows s') = map st_order_id (rows s)"
    using f by (simp_all add: s')
  have "st_id ` set (rows s') = st_id ` set (rows s)" using ids by (metis list.set_map)
  then have "se.wf (row_seq s') (rows s')"
    using inv ids unfolding settle_inv_def se.wf_def s'(2) by (metis imageE imageI)
  moreover have "list_all stamps_match (rows s')" using f by (auto simp: s' list_all_iff)
  ultimately show ?thesis using inv ks unfolding settle_inv_def by metis
qed

lemma recordSaleSettlement_inv:
  assumes inv: "settle_inv s"
  shows "settle_inv (recordSaleSettlement now d s)"
proof (cases "find (\<lambda>r. st_order_id r = ss_order_id d) (rows s)")
  case None
  have "se.wf (Suc (row_seq s)) (rows s @ [sale_fields now d (new_row (string_of_nat (row_seq s)) now)])"
    using inv by (intro se.wf_insert) (simp_all add: settle_inv_def new_row_def)
  moreover have "ss_order_id d \<notin> st_order_id ` set (rows s)" using None by (auto simp: find_None_all)
  ultimately show ?thesis
    using inv None by (simp add: settle_inv_def recordSaleSettlement_def sale_fields_stamps)
next
  case (Some e)
  note e = find_Some_mem [OF Some]
  have same: "st_order_id r = ss_order_id d" if "r \<in> set (rows s)" "st_id r = st_id e" for r
    using se.mem_unique [of "row_seq s" "rows s" r e] inv e that by (simp add: settle_inv_def)
  show ?thesis
  proof (rule settle_inv_map [OF inv])
    show "rows (recordSaleSettlement now d s) = map (\<lambda>r. if st_id r = st_id e then sale_fields now d r else r) (rows s)"
      "row_seq (recordSaleSettlement now d s) = row_seq s"
      using Some by (simp_all add: recordSaleSettlement_def update_where_def)
  qed (use same inv in \<open>auto simp: sale_fields_stamps settle_inv_def list_all_iff\<close>)
qed

lemma resetSettlementOnRollback_inv:
  assumes inv: "settle_inv s"
  shows "settle_inv (resetSettlementOnRollback k s)"
proof (rule settle_inv_map [OF inv])
  show "rows (resetSettlementOnRollback k s) = map (\<lambda>r. if st_order_id r = k then reset_fields r else r) (rows s)"
    "row_seq (resetSettlementOnRollback k s) = row_seq s"
    by (simp_all add: resetSettlementOnRollback_def update_where_def)
qed (use inv in \<open>auto simp: reset_fields_stamps settle_inv_def list_all_iff\<close>)

subsection \<open>First in, first out\<close>

lemma legAmount_nonneg [simp]: "0 \<le> legAmount lv r"
  by (simp add: legAmount_def)

lemma fifo_spec:
  assumes "0 \<le> a" and "fifo lv a cs = (settled, tot)"
  shows "\<exists>n. settled = take n cs \<and> n \<le> length cs \<and> tot = (\<Sum>r\<leftarrow>take n cs. legAmount lv r) \<and> tot \<le> a
     \<and> (n < length cs \<longrightarrow> a - tot < legAmount lv (cs ! n))"
  using assms
proof (induction cs arbitrary: a settled tot)
  case Nil
  then show ?case by simp
next
  case (Cons r cs)
  show ?case
  proof (cases "legAmount lv r > a \<and> legAmount lv r > 0")
    case True
    then show ?thesis using Cons.prems by (intro exI [of _ 0]) auto
  next
    case False
    obtain xs al where rec: "fifo lv (a - legAmount lv r) cs = (xs, al)" by fastforce
    have fits: "legAmount lv r \<le> a" using False Cons.prems(1) by (cases "legAmount lv r > 0") auto
    then obtain n where n: "xs = take n cs" "n \<le> length cs" "al = (\<Sum>r\<leftarrow>take n cs. legAmount lv r)"
        "al \<le> a - legAmount lv r" "n < length cs \<longrightarrow> a - legAmount lv r - al < legAmount lv (cs ! n)"
      using Cons.IH [OF _ rec] by auto
    then show ?thesis
      using False Cons.prems(2) rec by (intro exI [of _ "Suc n"]) (auto simp: Let_def algebra_simps)
  qed
qed

lemma candidates_mem: "r \<in> set (candidates lv v rs) \<longleftrightarrow>
    r \<in> set rs \<and> match_column lv r = Some v \<and> st_status r = fromStatus lv \<and> \<not> st_deleted r"
  by (auto simp: candidates_def)

lemma candidates_distinct:
  assumes "se.wf n rs"
  shows "distinct (map st_id (candidates lv v rs))"
proof -
  have "mset (map st_id (candidates lv v rs)) = mset (map st_id (filter (\<lambda>r. match_column lv r = Some v
      \<and> st_status r = fromStatus lv \<and> \<not> st_deleted r) rs))"
    by (simp add: candidates_def)
  then have "distinct (map st_id (candidates lv v rs)) = distinct (map st_id (filter (\<lambda>r. match_column lv r = Some v
      \<and> st_status r = fromStatus lv \<and> \<not> st_deleted r) rs))"
    by (rule mset_eq_imp_distinct_iff)
  then show ?thesis using assms by (simp add: se.wf_def distinct_map_filter)
qed

lemma advance_rows:
  assumes inv: "settle_inv s" and ok: "advanceSettlement now d s = Inr (s', res)"
    and pos: "0 < a_amount d" and mv: "trim (a_match_value d) \<noteq> []"
  obtains n u where "u = (case a_requester_id d of Some u \<Rightarrow> u | None \<Rightarrow> ''system'')"
    "n \<le> length (candidates (a_level d) (trim (a_match_value d)) (rows s))"
    "settled_order_ids res = map st_order_id (take n (candidates (a_level d) (trim (a_match_value d)) (rows s)))"
    "allocated res = (\<Sum>r\<leftarrow>take n (candidates (a_level d) (trim (a_match_value d)) (rows s)). legAmount (a_level d) r)"
    "allocated res + leftover res = a_amount d" "0 \<le> leftover res"
    "n < length (candidates (a_level d) (trim (a_match_value d)) (rows s)) \<longrightarrow>
       leftover res < legAmount (a_level d) (candidates (a_level d) (trim (a_match_value d)) (rows s) ! n)"
    "rows s' = map (\<lambda>r. if r \<in> set (take n (candidates (a_level d) (trim (a_match_value d)) (rows s)))
        then settle_row (a_level d) now u r else r) (rows s)" "row_seq s' = row_seq s"
proof -
  let ?u = "case a_requester_id d of Some u \<Rightarrow> u | None \<Rightarrow> ''system''"
  let ?cs = "candidates (a_level d) (trim (a_match_value d)) (rows s)"
  have wf: "se.wf (row_seq s) (rows s)" using inv by (simp add: settle_inv_def)
  obtain xs al where f: "fifo (a_level d) (a_amount d) ?cs = (xs, al)" by fastforce
  have "0 \<le> a_amount d" using pos by simp
  from fifo_spec [OF this f] obtain n where n: "xs = take n ?cs" "n \<le> length ?cs"
      "al = (\<Sum>r\<leftarrow>take n ?cs. legAmount (a_level d) r)" "al \<le> a_amount d"
      "n < length ?cs \<longrightarrow> a_amount d - al < legAmount (a_level d) (?cs ! n)" by blast
  have s': "s' = s\<lparr>rows := fold (\<lambda>x. update_where (\<lambda>r. st_id r = st_id x) (settle_row (a_level d) now ?u)) xs (rows s)\<rparr>"
    and res: "res = \<lparr>settled_order_ids = map st_order_id xs, allocated = al, leftover = max (a_amount d - al) 0\<rparr>"
    using ok pos mv f by (auto simp: advanceSettlement_def runFifoSettlement_def Let_def max_def split: if_splits)
  have dist: "distinct (map st_id xs)"
    unfolding n(1) using candidates_distinct [OF wf] by (metis distinct_take take_map)
  have key: "st_id r \<in> st_id ` set xs \<longleftrightarrow> r \<in> set xs" if "r \<in> set (rows s)" for r
  proof
    assume "st_id r \<in> st_id ` set xs"
    then obtain x where x: "x \<in> set xs" "st_id x = st_id r" by auto
    then have "x \<in> set (rows s)" using n(1) by (auto dest: in_set_takeD simp: candidates_mem)
    then have "r = x" using se.mem_unique [OF wf that] x(2) by metis
    then show "r \<in> set xs" using x(1) by simp
  qed simp
  have "rows s' = map (\<lambda>r. if r \<in> set xs then settle_row (a_level d) now ?u r else r) (rows s)"
    unfolding s' using se.fold_update_where [OF _ dist, of "settle_row (a_level d) now ?u" "rows s"] key by simp
  then show thesis
    using n res s' by (intro that [of ?u n]) auto
qed

lemma advance_inv:
  assumes inv: "settle_inv s" and ok: "advanceSettlement now d s = Inr (s', res)"
  shows "settle_inv s'"
proof (cases "0 < a_amount d \<and> trim (a_match_value d) \<noteq> []")
  case False
  then show ?thesis using ok inv by (auto simp: advanceSettlement_def Let_def split: if_splits)
next
  case True
  then have a: "0 < a_amount d" "trim (a_match_value d) \<noteq> []" by auto
  from inv ok a show ?thesis
  proof (rule advance_rows)
    fix n u
    let ?X = "set (take n (candidates (a_level d) (trim (a_match_value d)) (rows s)))"
    let ?f = "\<lambda>r. if r \<in> ?X then settle_row (a_level d) now u r else r"
    assume r: "rows s' = map ?f (rows s)" "row_seq s' = row_seq s"
    show ?thesis
    proof (rule settle_inv_map [OF inv r])
      fix x assume x: "x \<in> set (rows s)"
      have "stamps_match (?f x)"
        using x inv by (auto simp: settle_inv_def list_all_iff candidates_mem dest!: in_set_takeD intro: settle_row_stamps)
      then show "st_id (?f x) = st_id x \<and> st_order_id (?f x) = st_order_id x \<and> stamps_match (?f x)" by simp
    qed
  qed
qed


definition demo_sale :: "ident \<Rightarrow> money \<Rightarrow> sale_settlement" where
  "demo_sale k a = \<lparr>ss_order_id = k, ss_courier_id = Some ''7'', ss_branch_id = Some ''12'',
     ss_market_id = Some ''31'', ss_courier_amount = a, ss_branch_amount = a - 5000,
     ss_market_amount = a - 20000, ss_hasCourier = True\<rparr>"

definition demo_settlements :: settlements where
  "demo_settlements = recordSaleSettlement 3 (demo_sale ''57'' 10000)
     (recordSaleSettlement 2 (demo_sale ''56'' 70000)
       (recordSaleSettlement 1 (demo_sale ''55'' 50000) empty_settlements))"

definition demo_advance :: "money \<Rightarrow> advance" where
  "demo_advance a = \<lparr>a_level = Courier_to_branch, a_match_value = ''7'', a_amount = a, a_requester_id = Some ''2''\<rparr>"

lemma settle_inv_demo: "settle_inv demo_settlements"
  unfolding demo_settlements_def by (intro recordSaleSettlement_inv settle_inv_empty)


datatype settle_op = S_sale time sale_settlement | S_rollback ident | S_advance time advance

fun settle_step :: "settlements \<Rightarrow> settle_op \<Rightarrow> settlements" where
  "settle_step s (S_sale now d) = recordSaleSettlement now d s"
| "settle_step s (S_rollback k) = resetSettlementOnRollback k s"
| "settle_step s (S_advance now d) = (case advanceSettlement now d s of Inl _ \<Rightarrow> s | Inr (s', _) \<Rightarrow> s')"

text \<open>
  C7. Whatever sales, rollbacks and payments happen in whatever order, the ledger has one row
  per order, and each row's stamps tell exactly how far its cash has come: a hop is stamped if
  and only if the status is past it; owed amounts are never negative.
\<close>

theorem settlement_ledger_consistent:
  "distinct (map st_order_id (rows (foldl settle_step empty_settlements ops)))
   \<and> list_all stamps_match (rows (foldl settle_step empty_settlements ops))"
proof -
  have step: "settle_inv (settle_step s op)" if "settle_inv s" for s op
    using that advance_inv recordSaleSettlement_inv resetSettlementOnRollback_inv
    by (cases op) (auto split: sum.splits)
  have "settle_inv (foldl settle_step s ops)" if "settle_inv s" for s
    using that by (induction ops arbitrary: s) (simp_all add: step)
  then show ?thesis using settle_inv_empty by (simp add: settle_inv_def)
qed

subsection \<open>The summary follows the ledger\<close>

lemma sum_groups:
  fixes amt :: "'r \<Rightarrow> rat"
  assumes "distinct ks" and "\<forall>r\<in>set rs. col r \<in> set ks"
  shows "(\<Sum>k\<leftarrow>ks. \<Sum>r\<leftarrow>filter (\<lambda>r. col r = k) rs. amt r) = (\<Sum>r\<leftarrow>rs. amt r)"
  using assms(2)
proof (induction rs)
  case (Cons r rs)
  have one: "(\<Sum>k\<leftarrow>ks'. if col r = k then amt r else 0) = (if col r \<in> set ks' then amt r else 0)" if "distinct ks'" for ks'
    using that by (induction ks') auto
  have "(\<Sum>k\<leftarrow>ks. \<Sum>x\<leftarrow>filter (\<lambda>x. col x = k) (r # rs). amt x)
      = (\<Sum>k\<leftarrow>ks. (if col r = k then amt r else 0) + (\<Sum>x\<leftarrow>filter (\<lambda>x. col x = k) rs. amt x))"
    by (intro arg_cong [of _ _ sum_list] map_cong) auto
  also have "\<dots> = amt r + (\<Sum>x\<leftarrow>rs. amt x)"
    using Cons one [OF assms(1)] by (simp add: sum_list_addf)
  finally show ?case by simp
qed simp

lemma group_sums_total:
  assumes "\<forall>r\<in>set rs. 0 \<le> amt r"
  shows "(\<Sum>x\<leftarrow>group_sums col amt sts rs. snd x)
    = (\<Sum>r\<leftarrow>filter (\<lambda>r. \<not> st_deleted r \<and> col r \<noteq> None \<and> st_status r \<in> set sts) rs. amt r)"
proof -
  let ?live = "filter (\<lambda>r. \<not> st_deleted r \<and> col r \<noteq> None \<and> st_status r \<in> set sts) rs"
  have "0 \<le> (\<Sum>r\<leftarrow>filter P ?live. amt r)" for P
    using assms by (intro sum_list_nonneg) auto
  then have "(\<Sum>x\<leftarrow>group_sums col amt sts rs. snd x)
      = (\<Sum>k\<leftarrow>remdups (map col ?live). \<Sum>r\<leftarrow>filter (\<lambda>r. col r = k) ?live. amt r)"
    by (simp add: group_sums_def Let_def comp_def max_absorb1 del: filter_filter not_None_eq)
  also have "\<dots> = (\<Sum>r\<leftarrow>?live. amt r)" by (rule sum_groups) auto
  finally show ?thesis .
qed

lemma branch_receivable_sum:
  assumes "settle_inv s"
  shows "branch_receivable (getFinancialBalanceSettlementSummary s)
    = (\<Sum>r\<leftarrow>rows s. if \<not> st_deleted r \<and> st_branch_id r \<noteq> None \<and> (st_status r = PENDING \<or> st_status r = COURIER_SETTLED)
          then st_branch_amount r else 0)"
proof -
  have "\<forall>r\<in>set (rows s). 0 \<le> st_branch_amount r"
    using assms by (auto simp: settle_inv_def list_all_iff stamps_match_def)
  from group_sums_total [OF this, of st_branch_id "[PENDING, COURIER_SETTLED]"] show ?thesis
    by (simp add: getFinancialBalanceSettlementSummary_def Let_def sum_list_map_filter' del: not_None_eq)
qed

text \<open>
  C16. When a branch's remittance is booked, what HQ has still to receive from branches falls by
  exactly the amount that was allocated to orders.
\<close>

theorem remittance_reduces_receivable:
  assumes inv: "settle_inv s" and ok: "advanceSettlement now d s = Inr (s', res)"
    and lv: "a_level d = Branch_to_hq" and pos: "0 < a_amount d" and mv: "trim (a_match_value d) \<noteq> []"
  shows "branch_receivable (getFinancialBalanceSettlementSummary s')
       = branch_receivable (getFinancialBalanceSettlementSummary s) - allocated res"
  using inv ok pos mv
proof (rule advance_rows)
  fix n u
  let ?cs = "candidates (a_level d) (trim (a_match_value d)) (rows s)"
  let ?X = "set (take n ?cs)"
  let ?w = "\<lambda>r. if \<not> st_deleted r \<and> st_branch_id r \<noteq> None \<and> (st_status r = PENDING \<or> st_status r = COURIER_SETTLED)
          then st_branch_amount r else 0"
  assume al: "allocated res = (\<Sum>r\<leftarrow>take n ?cs. legAmount (a_level d) r)"
    and r: "rows s' = map (\<lambda>r. if r \<in> ?X then settle_row (a_level d) now u r else r) (rows s)"
  have wf: "se.wf (row_seq s) (rows s)" using inv by (simp add: settle_inv_def)
  have X: "?X \<subseteq> set (rows s)" by (auto dest: in_set_takeD simp: candidates_mem)
  have step: "?w (if x \<in> ?X then settle_row (a_level d) now u x else x) = ?w x - (if x \<in> ?X then legAmount (a_level d) x else 0)"
    if "x \<in> set (rows s)" for x
    using that inv lv
    by (auto simp: candidates_mem legAmount_def settle_inv_def list_all_iff stamps_match_def dest!: in_set_takeD)
  have d: "distinct (rows s)" "distinct (take n ?cs)"
    using wf candidates_distinct [OF wf, of "a_level d" "trim (a_match_value d)"]
    by (auto simp: se.wf_def distinct_map)
  have "(\<Sum>r\<leftarrow>rows s. if r \<in> ?X then legAmount (a_level d) r else 0) = (\<Sum>r\<in>?X. legAmount (a_level d) r)"
    using d(1) X by (simp add: sum_list_distinct_conv_sum_set sum.If_cases Int_absorb1)
  also have "\<dots> = allocated res" using d(2) al by (simp add: sum_list_distinct_conv_sum_set)
  finally have sumX: "(\<Sum>r\<leftarrow>rows s. if r \<in> ?X then legAmount (a_level d) r else 0) = allocated res" .
  have "(\<Sum>x\<leftarrow>rows s'. ?w x) = (\<Sum>x\<leftarrow>rows s. ?w x - (if x \<in> ?X then legAmount (a_level d) x else 0))"
    unfolding r map_map comp_def using step by (intro arg_cong [of _ _ sum_list] map_cong refl) simp
  then show ?thesis
    unfolding branch_receivable_sum [OF inv] branch_receivable_sum [OF advance_inv [OF inv ok]]
    using sumX by (simp add: sum_list_subtractf del: not_None_eq)
qed

definition demo_at_branch :: settlements where
  "demo_at_branch = settle_step demo_settlements (S_advance 9 (demo_advance 60000))"

definition demo_remittance :: advance where
  "demo_remittance = \<lparr>a_level = Branch_to_hq, a_match_value = ''12'', a_amount = 45000, a_requester_id = Some ''2''\<rparr>"

theorem remittance_reduces_receivable_witness:
  "\<exists>s' res. advanceSettlement 12 demo_remittance demo_at_branch = Inr (s', res)
     \<and> branch_receivable (getFinancialBalanceSettlementSummary demo_at_branch) = 115000
     \<and> branch_receivable (getFinancialBalanceSettlementSummary s') = 70000"
proof -
  have c: "case advanceSettlement 12 demo_remittance demo_at_branch of Inl _ \<Rightarrow> False
      | Inr (s', res) \<Rightarrow> allocated res = 45000"
    "branch_receivable (getFinancialBalanceSettlementSummary demo_at_branch) = 115000"
    "a_level demo_remittance = Branch_to_hq" "0 < a_amount demo_remittance" "trim (a_match_value demo_remittance) \<noteq> []"
    by code_simp+
  then obtain s' res where ok: "advanceSettlement 12 demo_remittance demo_at_branch = Inr (s', res)" "allocated res = 45000"
    by (auto split: sum.splits)
  have "settle_inv demo_at_branch"
    unfolding demo_at_branch_def using advance_inv [OF settle_inv_demo] settle_inv_demo by (auto split: sum.splits)
  from remittance_reduces_receivable [OF this ok(1) c(3-5)] ok c(2) show ?thesis by auto
qed

end
