(* ===== verification/Order_Store.thy ===== *)
theory Order_Store
  imports Order_Custody Order_Status Order_Money Finance_Ledger Settlement
begin

text \<open>
  The tables of the order service and the write path every lifecycle operation ends in:
  \<open>findById\<close>, \<open>resolveHolderFromState\<close>, \<open>replaceOrderItems\<close>, \<open>enqueueFinanceOnStatusChange\<close>,
  \<open>updateFull\<close> and \<open>remove\<close> of \<open>apps/order-service/src/lifecycle/order-lifecycle.service.ts\<close>.

  What other services answer is an argument (\<open>remote\<close>): the replies to the lookups of
  \<open>lookup/order-lookup.service.ts\<close>. The outbox carries the events for the finance service, whose
  payloads are the inputs of its operations, and the search-index events.
\<close>

datatype Order_source = INTERNAL | EXTERNAL | SRC_BRANCH

record order =
  ord_id :: ident
  ord_market_id :: ident
  ord_customer_id :: ident
  ord_product_quantity :: int
  ord_where_deliver :: Where_deliver
  ord_total_price :: money
  ord_market_tariff :: "money option"
  ord_courier_tariff :: "money option"
  ord_courier_share :: "money option"
  ord_branch_share :: "money option"
  ord_branch_cashbox_amount :: "money option"
  ord_to_be_paid :: money
  ord_paid_amount :: money
  ord_status :: Order_status
  ord_comment :: "string option"
  ord_operator :: "string option"
  ord_operator_id :: "ident option"
  ord_post_id :: "ident option"
  ord_canceled_post_id :: "ident option"
  ord_return_requested :: bool
  ord_proof_files :: "string list option"
  ord_sold_at :: "time option"
  ord_district_id :: "ident option"
  ord_region_id :: "ident option"
  ord_branch_id :: "ident option"
  ord_home_branch_id :: "ident option"
  ord_current_batch_id :: "ident option"
  ord_courier_id :: "ident option"
  ord_assigned_at :: "time option"
  ord_holder_type :: OrderHolderType
  ord_holder_branch_id :: "ident option"
  ord_holder_courier_id :: "ident option"
  ord_last_handover_at :: "time option"
  ord_last_handover_by :: "ident option"
  ord_return_reason :: "string option"
  ord_address :: "string option"
  ord_qr_code_token :: "string option"
  ord_parent_order_id :: "ident option"
  ord_external_id :: "string option"
  ord_source :: Order_source
  ord_deleted :: bool
  ord_deleted_at :: "time option"
  ord_created_at :: time
  ord_updated_at :: time

record order_item =
  it_order_id :: ident
  it_product_id :: ident
  it_quantity :: int

datatype order_event =
    Ev_balance update_dto
  | Ev_earning earning_input
  | Ev_earning_remove ident
  | Ev_ledger fb_input
  | Ev_search_upsert ident
  | Ev_search_remove ident

record order_db =
  db_orders :: "order list"
  db_order_seq :: nat
  db_items :: "order_item list"
  db_tracking :: "tracking list"
  db_custody :: "custody list"
  db_settlements :: settlements
  db_outbox :: "order_event outbox"
  db_audit :: "audit_entry list"

subsection \<open>What other services answer\<close>

record market_info =
  mk_tariff_home :: money
  mk_tariff_center :: money
  mk_proof_conditions :: "ExpenseProofCondition list option"

record actor_info =
  ac_tariff_home :: money
  ac_tariff_center :: money
  ac_compensation_mode :: "CourierCompensationMode option"

record remote =
  rm_now :: time
  rm_uuid :: "nat \<Rightarrow> string"
  rm_post :: "ident \<Rightarrow> (ident option) option"
  rm_market :: "ident \<Rightarrow> market_info option"
  rm_courier :: "ident \<Rightarrow> actor_info option"
  rm_user :: "ident \<Rightarrow> actor_info option"
  rm_hq_branch :: "ident option"
  rm_branch :: "ident \<Rightarrow> (BranchOwnership \<times> jsnum) option"
  rm_file_exists :: "string \<Rightarrow> bool"
  rm_sent_to_branch :: "ident \<Rightarrow> bool"
  rm_branch_label :: "ident option \<Rightarrow> string option"
  rm_cancel_post :: "ident list \<Rightarrow> rpc_error option"

text \<open>\<open>resolveSettlementBranchId\<close>: the non-HQ branch where custody sits.\<close>

definition resolveSettlementBranchId :: "remote \<Rightarrow> order \<Rightarrow> ident option" where
  "resolveSettlementBranchId rm ord =
     (let branchId = trim (str_or_empty (case ord_holder_branch_id ord of Some b \<Rightarrow> Some b | None \<Rightarrow> ord_branch_id ord))
      in if branchId = [] then None
         else if branchId = trim (str_or_empty (rm_hq_branch rm)) then None
         else Some branchId)"

definition resolveBranchShare :: "remote \<Rightarrow> ident option \<Rightarrow> money" where
  "resolveBranchShare rm branchId =
     (if \<not> truthy branchId then 0
      else case rm_branch rm (str_or_empty branchId) of
             Some (PARTNER, Num share) \<Rightarrow> if 0 < share then share else 0
           | _ \<Rightarrow> 0)"

text \<open>
  The two calls to the finance service: a lookup of a cashbox, whose failure is swallowed, and the
  creation of a branch cashbox, which is a no-op when it exists.
\<close>

definition getCashboxByUser :: "ident \<Rightarrow> Cashbox_type \<Rightarrow> finance \<Rightarrow> cashbox option" where
  "getCashboxByUser userId t fs =
     (if is_digits userId then find (active_box userId t) (cashboxes fs) else None)"

definition ensureBranchCashbox :: "ident \<Rightarrow> finance \<Rightarrow> finance" where
  "ensureBranchCashbox branchId fs =
     (case createCashbox \<lparr>cr_user_id = Some branchId, cr_cashbox_type = C_BRANCH, cr_balance = None,
             cr_balance_cash = None, cr_balance_card = None\<rparr> fs of
        Inl _ \<Rightarrow> fs | Inr (fs', _) \<Rightarrow> fs')"

subsection \<open>Rows and events\<close>

definition emit :: "remote \<Rightarrow> string \<Rightarrow> string \<Rightarrow> order_event \<Rightarrow> order_db \<Rightarrow> order_db" where
  "emit rm target pattern e db =
     db\<lparr>db_outbox := enqueue (rm_now rm) (rm_uuid rm (event_seq (db_outbox db))) target pattern e
          None None None (db_outbox db)\<rparr>"

definition syncOrderToSearch :: "remote \<Rightarrow> order \<Rightarrow> order_db \<Rightarrow> order_db" where
  "syncOrderToSearch rm ord = emit rm ''SEARCH'' ''search.index.upsert'' (Ev_search_upsert (ord_id ord))"

definition removeOrderFromSearch :: "remote \<Rightarrow> ident \<Rightarrow> order_db \<Rightarrow> order_db" where
  "removeOrderFromSearch rm i = emit rm ''SEARCH'' ''search.index.remove'' (Ev_search_remove i)"

definition log_order :: "audit_entry \<Rightarrow> order_db \<Rightarrow> order_db" where
  "log_order a db = db\<lparr>db_audit := db_audit db @ [a]\<rparr>"

definition findById :: "ident \<Rightarrow> order_db \<Rightarrow> rpc_error + order" where
  "findById i db = find_or (notFound (''Order #'' @ i @ '' topilmadi''))
     (\<lambda>x. ord_id x = i \<and> \<not> ord_deleted x \<and> ord_deleted_at x = None) (db_orders db)"

text \<open>
  A save that changes the row stamps \<open>updatedAt\<close>. \<open>to_be_paid\<close> and \<open>paid_amount\<close> are \<open>int\<close> columns: saving a fraction fails, and \<open>handleDbError\<close>
  reports the 22P02 error as a 400.
\<close>

definition is_whole :: "money \<Rightarrow> bool" where
  "is_whole x \<longleftrightarrow> of_int \<lfloor>x\<rfloor> = x"

definition written :: "remote \<Rightarrow> order list \<Rightarrow> order \<Rightarrow> order" where
  "written rm stored ord = (if ord \<in> set stored then ord else ord\<lparr>ord_updated_at := rm_now rm\<rparr>)"

definition save_order :: "remote \<Rightarrow> order \<Rightarrow> order_db \<Rightarrow> rpc_error + order_db" where
  "save_order rm ord db =
     (if is_whole (ord_to_be_paid ord) \<and> is_whole (ord_paid_amount ord)
      then Inr (db\<lparr>db_orders := save_row ord_id (written rm (db_orders db) ord) (db_orders db)\<rparr>)
      else Inl (badRequest ''Noto'g'ri formatdagi qiymat yuborildi''))"

definition replaceOrderItems :: "ident \<Rightarrow> (ident \<times> int option) list \<Rightarrow> order_db \<Rightarrow> order_db \<times> int" where
  "replaceOrderItems orderId items db =
     (let new = map (\<lambda>(p, q). \<lparr>it_order_id = orderId, it_product_id = p,
                       it_quantity = (case q of Some n \<Rightarrow> n | None \<Rightarrow> 1)\<rparr>) items
      in (db\<lparr>db_items := filter (\<lambda>x. it_order_id x \<noteq> orderId) (db_items db) @ new\<rparr>,
          \<Sum>x\<leftarrow>new. it_quantity x))"

definition resolveHolderFromState ::
  "remote \<Rightarrow> ident option \<Rightarrow> ident option \<Rightarrow> OrderHolderType \<times> ident option \<times> ident option" where
  "resolveHolderFromState rm branchId courierId =
     (let b = nonempty_or_null branchId; c = nonempty_or_null courierId in
      if c \<noteq> None then (H_COURIER, b, c)
      else if b \<noteq> None \<and> b \<noteq> rm_hq_branch rm then (H_BRANCH, b, None)
      else (H_HQ, None, None))"

subsection \<open>Finance events of a status change\<close>

definition or_null :: "money option \<Rightarrow> money option \<Rightarrow> money" where
  "or_null x y = (case x of Some v \<Rightarrow> v | None \<Rightarrow> (case y of Some w \<Rightarrow> w | None \<Rightarrow> 0))"

definition enqueueFinanceOnStatusChange :: "remote \<Rightarrow> order \<Rightarrow> Order_status \<Rightarrow> order_db \<Rightarrow> order_db" where
  "enqueueFinanceOnStatusChange rm ord oldStatus db =
     (if ord_status ord \<in> set soldStates \<and> oldStatus \<notin> set soldStates
      then
        let db1 = (if truthy (ord_operator_id ord)
              then emit rm ''FINANCE'' ''finance.operator.earning.record''
                (Ev_earning \<lparr>g_order_id = Some (ord_id ord), g_operator_id = ord_operator_id ord,
                   g_market_id = nonempty_or_null (Some (ord_market_id ord)),
                   g_total_price = Num (ord_total_price ord)\<rparr>) db
              else db);
            sellProfit = computeSellProfit (or_null (ord_market_tariff ord) None)
              (or_null (ord_courier_share ord) (ord_courier_tariff ord)) (or_null (ord_branch_share ord) None)
        in if sellProfit \<noteq> 0
           then emit rm ''FINANCE'' ''finance.financial_balance.record''
                (Ev_ledger \<lparr>i_amount = Num sellProfit, i_source_type = F_SELL_PROFIT,
                   i_order_id = Some (ord_id ord),
                   i_related_user_id = nonempty_or_null (Some (ord_market_id ord)),
                   i_comment = Some (''Order #'' @ ord_id ord @ '' sell profit''), i_created_by = None\<rparr>) db1
           else db1
      else if ord_status ord = WAITING \<and> oldStatus \<in> set soldStates \<and> truthy (ord_operator_id ord)
      then emit rm ''FINANCE'' ''finance.operator.earning.remove'' (Ev_earning_remove (ord_id ord)) db
      else db)"

subsection \<open>updateFull\<close>

text \<open>
  A field of the DTO that falls back with \<open>??\<close> is an option; one for which \<open>undefined\<close> and
  \<open>null\<close> differ is an option of an option, \<open>Some None\<close> being \<open>null\<close>.
\<close>

record order_dto =
  d_market_id :: "ident option"
  d_customer_id :: "ident option"
  d_where_deliver :: "Where_deliver option"
  d_total_price :: "money option"
  d_market_tariff :: "money option option"
  d_courier_tariff :: "money option option"
  d_courier_share :: "money option option"
  d_branch_share :: "money option option"
  d_branch_cashbox_amount :: "money option option"
  d_to_be_paid :: "money option"
  d_paid_amount :: "money option"
  d_status :: "Order_status option"
  d_return_requested :: "bool option"
  d_comment :: "string option"
  d_operator :: "string option"
  d_post_id :: "ident option option"
  d_canceled_post_id :: "ident option option"
  d_sold_at :: "time option option"
  d_branch_id :: "ident option option"
  d_current_batch_id :: "ident option option"
  d_courier_id :: "ident option option"
  d_assigned_at :: "time option option"
  d_return_reason :: "string option option"
  d_district_id :: "ident option"
  d_region_id :: "ident option"
  d_address :: "string option"
  d_qr_code_token :: "string option"
  d_external_id :: "string option option"
  d_source :: "Order_source option"
  d_proof_files :: "string list option option"
  d_items :: "(ident \<times> int option) list option"

definition empty_dto :: order_dto where
  "empty_dto = \<lparr>d_market_id = None, d_customer_id = None, d_where_deliver = None, d_total_price = None,
     d_market_tariff = None, d_courier_tariff = None, d_courier_share = None, d_branch_share = None,
     d_branch_cashbox_amount = None, d_to_be_paid = None, d_paid_amount = None, d_status = None,
     d_return_requested = None, d_comment = None, d_operator = None, d_post_id = None,
     d_canceled_post_id = None, d_sold_at = None, d_branch_id = None, d_current_batch_id = None,
     d_courier_id = None, d_assigned_at = None, d_return_reason = None, d_district_id = None,
     d_region_id = None, d_address = None, d_qr_code_token = None, d_external_id = None,
     d_source = None, d_proof_files = None, d_items = None\<rparr>"

definition dflt :: "'a option \<Rightarrow> 'a \<Rightarrow> 'a" where
  "dflt x y = (case x of Some v \<Rightarrow> v | None \<Rightarrow> y)"

definition keep :: "'a option \<Rightarrow> 'a option \<Rightarrow> 'a option" where
  "keep x y = (case x of Some v \<Rightarrow> Some v | None \<Rightarrow> y)"

text \<open>The \<open>Object.assign\<close> of the loaded order.\<close>

definition assign_dto :: "order_dto \<Rightarrow> order \<Rightarrow> order" where
  "assign_dto d ord = ord\<lparr>
     ord_market_id := dflt (d_market_id d) (ord_market_id ord),
     ord_customer_id := dflt (d_customer_id d) (ord_customer_id ord),
     ord_where_deliver := dflt (d_where_deliver d) (ord_where_deliver ord),
     ord_total_price := dflt (d_total_price d) (ord_total_price ord),
     ord_market_tariff := dflt (d_market_tariff d) (ord_market_tariff ord),
     ord_courier_tariff := dflt (d_courier_tariff d) (ord_courier_tariff ord),
     ord_courier_share := dflt (d_courier_share d) (ord_courier_share ord),
     ord_branch_share := dflt (d_branch_share d) (ord_branch_share ord),
     ord_branch_cashbox_amount := dflt (d_branch_cashbox_amount d) (ord_branch_cashbox_amount ord),
     ord_to_be_paid := dflt (d_to_be_paid d) (ord_to_be_paid ord),
     ord_paid_amount := dflt (d_paid_amount d) (ord_paid_amount ord),
     ord_status := dflt (d_status d) (ord_status ord),
     ord_return_requested := dflt (d_return_requested d) (ord_return_requested ord),
     ord_comment := keep (d_comment d) (ord_comment ord),
     ord_operator := keep (d_operator d) (ord_operator ord),
     ord_post_id := dflt (d_post_id d) (ord_post_id ord),
     ord_canceled_post_id := dflt (d_canceled_post_id d) (ord_canceled_post_id ord),
     ord_sold_at := dflt (d_sold_at d) (ord_sold_at ord),
     ord_branch_id := dflt (d_branch_id d) (ord_branch_id ord),
     ord_current_batch_id := dflt (d_current_batch_id d) (ord_current_batch_id ord),
     ord_courier_id := dflt (d_courier_id d) (ord_courier_id ord),
     ord_assigned_at := dflt (d_assigned_at d) (ord_assigned_at ord),
     ord_return_reason := dflt (d_return_reason d) (ord_return_reason ord),
     ord_district_id := keep (d_district_id d) (ord_district_id ord),
     ord_region_id := keep (d_region_id d) (ord_region_id ord),
     ord_address := keep (d_address d) (ord_address ord),
     ord_qr_code_token := keep (d_qr_code_token d) (ord_qr_code_token ord),
     ord_external_id := dflt (d_external_id d) (ord_external_id ord),
     ord_source := dflt (d_source d) (ord_source ord),
     ord_proof_files := dflt (d_proof_files d) (ord_proof_files ord)\<rparr>"

definition recalculate_holder :: "remote \<Rightarrow> order_dto \<Rightarrow> order \<Rightarrow> order" where
  "recalculate_holder rm d ord =
     (if d_branch_id d \<noteq> None \<or> d_courier_id d \<noteq> None
      then let (t, b, c) = resolveHolderFromState rm (ord_branch_id ord) (ord_courier_id ord)
           in ord\<lparr>ord_holder_type := t, ord_holder_branch_id := b, ord_holder_courier_id := c\<rparr>
      else ord)"

definition custody_changed :: "order \<Rightarrow> order \<Rightarrow> bool" where
  "custody_changed old ord \<longleftrightarrow>
     ord_holder_type old \<noteq> ord_holder_type ord
     \<or> str_or_empty (ord_holder_branch_id old) \<noteq> str_or_empty (ord_holder_branch_id ord)
     \<or> str_or_empty (ord_holder_courier_id old) \<noteq> str_or_empty (ord_holder_courier_id ord)"

definition stamp_handover :: "remote \<Rightarrow> requester \<Rightarrow> order \<Rightarrow> order \<Rightarrow> order" where
  "stamp_handover rm rq old ord =
     (if custody_changed old ord
      then ord\<lparr>ord_last_handover_at := Some (rm_now rm), ord_last_handover_by := nonempty_or_null (rq_id rq)\<rparr>
      else ord)"

text \<open>A cancelled post that the receiving side accepts, and how the tracking event describes it.\<close>

definition canceled_post_accepted :: "order_dto \<Rightarrow> order \<Rightarrow> order \<Rightarrow> bool" where
  "canceled_post_accepted d old ord \<longleftrightarrow>
     ord_status old = CANCELLED_SENT \<and> ord_status ord = CANCELLED
     \<and> truthy (ord_canceled_post_id old) \<and> d_canceled_post_id d = Some None"

definition canceled_post_description :: "remote \<Rightarrow> string option \<Rightarrow> order \<Rightarrow> order \<Rightarrow> string" where
  "canceled_post_description rm note old ord =
     (let source = dflt (rm_branch_label rm (ord_holder_branch_id old)) ''branch'';
          destination = (if includes_str ''hq'' (lower (str_or_empty note)) then ''HQ''
             else dflt (rm_branch_label rm (ord_holder_branch_id ord)) ''branch'')
      in destination @ '' bekor qilingan pochtani '' @ source @ ''dan qabul qildi'')"

definition write_tracking :: "remote \<Rightarrow> order_dto \<Rightarrow> requester \<Rightarrow> string option \<Rightarrow> order \<Rightarrow> order \<Rightarrow> order_db \<Rightarrow> order_db" where
  "write_tracking rm d rq note old ord db =
     (let accepted = canceled_post_accepted d old ord in
      if ord_status old \<noteq> ord_status ord \<or> accepted
      then db\<lparr>db_tracking := db_tracking db @
             [createTrackingEvent (ord_id ord) (Some (ord_status old)) (ord_status ord)
                (changed_by (rq_id rq)) (changed_by_role (rq_id rq) (rq_roles rq))
                (if accepted then Some ''cancelled_post_received'' else None)
                (if accepted then Some (canceled_post_description rm note old ord) else None) note]\<rparr>
      else db)"

definition createCustodyEvent :: "requester \<Rightarrow> string option \<Rightarrow> order \<Rightarrow> order \<Rightarrow> custody" where
  "createCustodyEvent rq note old ord =
     \<lparr>cu_order_id = ord_id ord, cu_from_holder_type = Some (ord_holder_type old),
      cu_to_holder_type = ord_holder_type ord, cu_from_branch_id = ord_holder_branch_id old,
      cu_to_branch_id = ord_holder_branch_id ord, cu_from_courier_id = ord_holder_courier_id old,
      cu_to_courier_id = ord_holder_courier_id ord, cu_changed_by = changed_by (rq_id rq),
      cu_changed_by_role = changed_by_role (rq_id rq) (rq_roles rq),
      cu_note = Some (dflt note ''Order custody changed'')\<rparr>"

definition writeOrderChanges ::
  "remote \<Rightarrow> order_dto \<Rightarrow> requester \<Rightarrow> string option \<Rightarrow> order \<Rightarrow> order \<Rightarrow> order_db \<Rightarrow> rpc_error + order_db" where
  "writeOrderChanges rm d rq note old ord db =
     rbind (save_order rm ord db) (\<lambda>db1.
       let db2 = write_tracking rm d rq note old ord db1;
           db3 = (if custody_changed old ord
                  then db2\<lparr>db_custody := db_custody db2 @ [createCustodyEvent rq note old ord]\<rparr> else db2);
           db4 = syncOrderToSearch rm ord db3
       in Inr (if ord_status old \<noteq> ord_status ord
               then enqueueFinanceOnStatusChange rm ord (ord_status old) db4 else db4))"

text \<open>The order as it will be written, or the rejected transition.\<close>

definition prepare_update ::
  "remote \<Rightarrow> order_dto \<Rightarrow> requester \<Rightarrow> order \<Rightarrow> rpc_error + order" where
  "prepare_update rm d rq old =
     (let ord = stamp_handover rm rq old (recalculate_holder rm d (assign_dto d old))
      in if ord_status old \<noteq> ord_status ord \<and> \<not> isValidStatusTransition (ord_status old) (ord_status ord)
         then Inl (badRequest (''Invalid status transition: '' @ status_name (ord_status old) @ '' -> '' @ status_name (ord_status ord)))
         else Inr ord)"

text \<open>
  \<open>updateFull\<close> inside the caller's transaction (\<open>externalManager\<close>): the order is re-read, changed and
  written, and an error aborts the caller's transaction.
\<close>

definition updateFull_tx ::
  "remote \<Rightarrow> ident \<Rightarrow> order_dto \<Rightarrow> requester \<Rightarrow> string option \<Rightarrow> order_db \<Rightarrow> order_db \<Rightarrow> rpc_error + order_db" where
  "updateFull_tx rm i d rq note committed_db db =
     rbind (findById i committed_db) (\<lambda>old.
     rbind (prepare_update rm d rq old) (\<lambda>ord.
       let (db1, ord1) = (case d_items d of None \<Rightarrow> (db, ord)
             | Some its \<Rightarrow> (let (db', q) = replaceOrderItems (ord_id ord) its db
                            in (db', ord\<lparr>ord_product_quantity := q\<rparr>)))
       in writeOrderChanges rm d rq note old ord1 db1))"

subsection \<open>The public edit\<close>

definition aggregate :: "(ident \<times> int option) list \<Rightarrow> ident \<Rightarrow> int" where
  "aggregate items p = (\<Sum>x\<leftarrow>filter (\<lambda>x. fst x = p) items. dflt (snd x) 1)"

definition haveOrderItemsChanged :: "(ident \<times> int option) list \<Rightarrow> (ident \<times> int option) list \<Rightarrow> bool" where
  "haveOrderItemsChanged existing requested \<longleftrightarrow>
     length (remdups (map fst existing)) \<noteq> length (remdups (map fst requested))
     \<or> list_ex (\<lambda>p. p \<notin> fst ` set requested \<or> aggregate requested p \<noteq> aggregate existing p) (map fst existing)"

definition items_of :: "ident \<Rightarrow> order_db \<Rightarrow> (ident \<times> int option) list" where
  "items_of i db = map (\<lambda>x. (it_product_id x, Some (it_quantity x))) (filter (\<lambda>x. it_order_id x = i) (db_items db))"

definition assertCommercialFieldsEditable :: "order \<Rightarrow> order_dto \<Rightarrow> order_db \<Rightarrow> rpc_error + unit" where
  "assertCommercialFieldsEditable ord d db =
     require (ord_status ord = CREATED \<or> ord_status ord = NEW
         \<or> (\<not> (case d_total_price d of None \<Rightarrow> False | Some p \<Rightarrow> p \<noteq> ord_total_price ord)
            \<and> \<not> (case d_items d of None \<Rightarrow> False
                  | Some its \<Rightarrow> haveOrderItemsChanged (items_of (ord_id ord) db) its)))
       (badRequest ''HQ qabul qilgan buyurtmaning summasi va mahsulot sonini o'zgartirib bo'lmaydi'')"

definition differs :: "string option \<Rightarrow> string option \<Rightarrow> bool" where
  "differs new old \<longleftrightarrow> new \<noteq> None \<and> str_or_empty new \<noteq> str_or_empty old"

definition assertDeliveryDetailsEditable :: "remote \<Rightarrow> order \<Rightarrow> order_dto \<Rightarrow> rpc_error + unit" where
  "assertDeliveryDetailsEditable rm ord d =
     require (\<not> ((differs (d_customer_id d) (Some (ord_customer_id ord))
                 \<or> (case d_where_deliver d of None \<Rightarrow> False | Some w \<Rightarrow> w \<noteq> ord_where_deliver ord)
                 \<or> differs (d_district_id d) (ord_district_id ord)
                 \<or> differs (d_region_id d) (ord_region_id ord)
                 \<or> differs (d_address d) (ord_address ord))
                \<and> rm_sent_to_branch rm (ord_id ord)))
       (badRequest ''Branchga jo'natilgan buyurtmaning manzili va mijozini o'zgartirib bo'lmaydi'')"

text \<open>
  The public \<open>updateFull\<close>. The items are replaced before the transaction that writes the order, so
  they stay replaced when that transaction fails; the result carries the state in either case.
\<close>

definition updateFull ::
  "remote \<Rightarrow> ident \<Rightarrow> order_dto \<Rightarrow> requester \<Rightarrow> string option \<Rightarrow> bool \<Rightarrow> order_db \<Rightarrow> (rpc_error + order) \<times> order_db" where
  "updateFull rm i d rq note audit db =
     (case rbind (findById i db) (\<lambda>old.
           rbind (assertCommercialFieldsEditable old d db) (\<lambda>_.
           rbind (assertDeliveryDetailsEditable rm old d) (\<lambda>_.
           rbind (prepare_update rm d rq old) (\<lambda>ord. Inr (old, ord))))) of
        Inl e \<Rightarrow> (Inl e, db)
      | Inr (old, ord) \<Rightarrow>
          let (db1, ord1) = (case d_items d of None \<Rightarrow> (db, ord)
                | Some its \<Rightarrow> (let (db', q) = replaceOrderItems (ord_id ord) its db
                               in (db', ord\<lparr>ord_product_quantity := q\<rparr>)))
          in (case writeOrderChanges rm d rq note old ord1 db1 of
                Inl e \<Rightarrow> (Inl e, db1)
              | Inr db2 \<Rightarrow>
                  (Inr ord1,
                   if audit
                   then log_order (audit_row ''Order'' (ord_id ord1)
                          (if ord_status old \<noteq> ord_status ord1 then ''status_change'' else ''updated'')
                          (nonempty_or_null (rq_id rq))) db2
                   else db2)))"

subsection \<open>remove\<close>

definition hasRole :: "requester \<Rightarrow> Roles \<Rightarrow> bool" where
  "hasRole rq role \<longleftrightarrow> list_ex (\<lambda>r. lower r = lower (role_name role)) (rq_roles rq)"

definition may_remove :: "requester \<Rightarrow> order \<Rightarrow> rpc_error + unit" where
  "may_remove rq ord =
     (if ord_status ord = CREATED
      then require (hasRole rq MARKET \<and> str_or_empty (rq_id rq) = ord_market_id ord)
             (forbidden ''Faqat order egasi bo'lgan market 'created' holatdagi buyurtmani o'chira oladi'')
      else if ord_status ord = NEW
      then require (hasRole rq SUPERADMIN \<or> hasRole rq ADMIN \<or> hasRole rq REGISTRATOR \<or> hasRole rq MARKET)
             (forbidden ''Faqat superadmin/admin/registrator/market 'new' holatdagi buyurtmani o'chira oladi'')
      else if ord_status ord = RECEIVED
      then require (hasRole rq SUPERADMIN)
             (forbidden ''Faqat superadmin 'received' holatdagi buyurtmani o'chira oladi'')
      else Inl (badRequest ''Faqat 'created', 'new' yoki 'received' holatdagi buyurtmani o'chirish mumkin''))"

definition remove :: "remote \<Rightarrow> ident \<Rightarrow> requester \<Rightarrow> order_db \<Rightarrow> rpc_error + order_db" where
  "remove rm i rq db =
     rbind (findById i db) (\<lambda>ord.
     rbind (may_remove rq ord) (\<lambda>_.
     rbind (save_order rm (ord\<lparr>ord_deleted := True\<rparr>) db) (\<lambda>db1.
       Inr (log_order (audit_row ''Order'' i ''deleted'' (nonempty_or_null (rq_id rq)))
              (removeOrderFromSearch rm i db1)))))"

end
