(* ===== verification/Order_Sale.thy ===== *)
theory Order_Sale
  imports Order_Store
begin

text \<open>
  Selling, cancelling and failing to deliver an order, and the terminal statuses reported by a
  delivery provider: \<open>sellOrder\<close>, \<open>cancelOrder\<close>, \<open>couldNotDeliverOrder\<close> and \<open>markByProvider\<close> of
  \<open>apps/order-service/src/lifecycle/order-lifecycle.service.ts\<close>, with the helpers they share: who
  acts on an order, the proof policy of a market, the sale comment, the deduplication epoch and
  the cashbox legs put on the outbox.

  An operation returns its reply with the state of both services, since the branch cashbox is
  created in the finance service before the order transaction starts and stays when it fails.
\<close>

subsection \<open>Who acts\<close>

definition normalizeCourierId :: "string option \<Rightarrow> string" where
  "normalizeCourierId v = (let n = trim (str_or_empty v) in if n = ''0'' then [] else n)"

definition first_nonempty :: "string list \<Rightarrow> string" where
  "first_nonempty xs = (case find (\<lambda>x. x \<noteq> []) xs of Some x \<Rightarrow> x | None \<Rightarrow> [])"

definition resolveActorCourierId :: "requester \<Rightarrow> order \<Rightarrow> ident option \<Rightarrow> rpc_error + ident" where
  "resolveActorCourierId rq ord post_courier =
     (let postCourierId = normalizeCourierId post_courier;
          holderCourierId = normalizeCourierId (ord_holder_courier_id ord);
          orderCourierId = normalizeCourierId (ord_courier_id ord);
          resolvedCourierId = first_nonempty [postCourierId, holderCourierId, orderCourierId]
      in
      if hasRole rq COURIER
      then let requesterId = trim (str_or_empty (rq_id rq)) in
           if requesterId \<noteq> [] \<and> requesterId \<in> {postCourierId, holderCourierId, orderCourierId}
           then Inr requesterId
           else Inl (badRequest ''Order is not assigned to this courier'')
      else if hasRole rq MANAGER
      then let b = trim (str_or_empty (rq_branch_id rq)) in
           if b = [] \<or> (b \<noteq> trim (str_or_empty (ord_holder_branch_id ord)) \<and> b \<noteq> trim (str_or_empty (ord_branch_id ord)))
           then Inl (badRequest ''Order is not assigned to this manager branch'')
           else Inr (if resolvedCourierId \<noteq> [] then resolvedCourierId else str_or_empty (rq_id rq))
      else if hasRole rq SUPERADMIN
      then if resolvedCourierId = [] then Inl (badRequest ''Order has no courier assigned'')
           else Inr resolvedCourierId
      else Inl (badRequest ''Forbidden resource''))"

definition isManagerRequester :: "requester \<Rightarrow> bool" where
  "isManagerRequester rq \<longleftrightarrow> hasRole rq MANAGER \<and> \<not> hasRole rq COURIER"

subsection \<open>The proof policy\<close>

datatype sale_action = Act_sell | Act_cancel

definition matchExpenseProofConditions :: "sale_action \<Rightarrow> money \<Rightarrow> money \<Rightarrow> ExpenseProofCondition list" where
  "matchExpenseProofConditions act extraCost totalPrice =
     (case act of
        Act_cancel \<Rightarrow> [P_CANCEL_ANY] @ (if extraCost > 0 then [P_CANCEL_EXTRA_COST] else [])
                        @ (if \<not> totalPrice > 0 then [P_CANCEL_ZERO_TOTAL] else [])
      | Act_sell \<Rightarrow> [P_SELL_ANY] @ (if extraCost > 0 then [P_SELL_EXTRA_COST] else [])
                        @ (if \<not> totalPrice > 0 then [P_SELL_ZERO_TOTAL] else []))"

definition enforceOperationProof ::
  "remote \<Rightarrow> market_info option \<Rightarrow> sale_action \<Rightarrow> money \<Rightarrow> money \<Rightarrow> string list \<Rightarrow> bool \<Rightarrow> bool
   \<Rightarrow> rpc_error + string list" where
  "enforceOperationProof rm market act extraCost totalPrice proofFileKeys forceRequired verified =
     (let keys = dedup (filter (\<lambda>k. k \<noteq> []) (map trim proofFileKeys));
          enabled = (case market of None \<Rightarrow> [] | Some m \<Rightarrow> dflt (mk_proof_conditions m) []);
          matched = matchExpenseProofConditions act extraCost totalPrice
      in
      if enabled = [] \<and> \<not> forceRequired then Inr keys
      else if \<not> (forceRequired \<or> list_ex (\<lambda>c. c \<in> set matched) enabled) then Inr keys
      else if keys = []
      then Inl (badRequest ''Bu amal uchun rasm yoki video isbot majburiy. Iltimos, isbot fayl(lar)ini biriktiring.'')
      else if \<not> verified \<and> list_ex (\<lambda>k. \<not> rm_file_exists rm k) keys
      then Inl (badRequest ''Isbot fayl topilmadi yoki yuklanmagan. Iltimos, isbotni qaytadan yuklang.'')
      else Inr keys)"

subsection \<open>Amounts, comments and tokens\<close>

text \<open>\<open>Math.max(Number(x ?? 0), 0)\<close>; \<open>NaN\<close> compares false with everything and so acts as zero.\<close>

definition extra_cost :: "jsnum \<Rightarrow> money" where
  "extra_cost x = (case x of Num r \<Rightarrow> max r 0 | _ \<Rightarrow> 0)"

text \<open>An amount of at most two decimals, as JavaScript prints it.\<close>

definition show_money :: "money \<Rightarrow> string" where
  "show_money x =
     (let c = nat \<lfloor>\<bar>x\<bar> * 100\<rfloor>; whole = string_of_nat (c div 100); f = c mod 100
      in (if x < 0 then ''-'' else []) @ whole @
         (if f = 0 then [] else if f mod 10 = 0 then ''.'' @ string_of_nat (f div 10)
          else if f < 10 then ''.0'' @ string_of_nat f else ''.'' @ string_of_nat f))"

fun join_lines :: "string list \<Rightarrow> string" where
  "join_lines [] = []"
| "join_lines [x] = x"
| "join_lines (x # xs) = x @ [CHR 0x0A] @ join_lines xs"

definition generateSaleComment :: "string option \<Rightarrow> string option \<Rightarrow> money \<Rightarrow> string list \<Rightarrow> string" where
  "generateSaleComment orderComment dtoComment extraCost notes =
     (let part = (\<lambda>c. let t = trim (str_or_empty c) in if t = [] then [] else [t])
      in join_lines (part orderComment @ part dtoComment
           @ (if extraCost > 0
              then [''!!! Bu buyurtmadan qo'shimcha '' @ show_money extraCost @ '' miqdorda pul ushlab qolingan'']
              else [])
           @ map (\<lambda>n. ''!!! '' @ trim n) (filter (\<lambda>n. trim n \<noteq> []) notes)))"

definition resolveDedupEpoch :: "time \<Rightarrow> string option \<Rightarrow> string" where
  "resolveDedupEpoch now requestId =
     (let i = trim (str_or_empty requestId)
      in if i \<noteq> [] then ''req:'' @ i else string_of_nat (nat now))"

definition lockWaitingOrder :: "ident \<Rightarrow> order_db \<Rightarrow> rpc_error + unit" where
  "lockWaitingOrder i db =
     (case find (\<lambda>x. ord_id x = i \<and> ord_deleted_at x = None) (db_orders db) of
        Some x \<Rightarrow> require (ord_status x = WAITING) (badRequest ''Order not found or not in waiting status'')
      | None \<Rightarrow> Inl (badRequest ''Order not found or not in waiting status''))"

subsection \<open>Cashbox legs\<close>

record leg_data =
  lg_user_id :: ident
  lg_cashbox_type :: Cashbox_type
  lg_amount :: money
  lg_operation :: Operation_type
  lg_source_type :: Source_type
  lg_comment :: string
  lg_proof_files :: "string list option"

definition leg_dto :: "ident \<Rightarrow> requester \<Rightarrow> string \<Rightarrow> leg_data \<Rightarrow> update_dto" where
  "leg_dto order_id rq epoch g =
     \<lparr>u_selector = \<lparr>s_cashbox_id = None, s_user_id = Some (lg_user_id g), s_cashbox_type = Some (lg_cashbox_type g)\<rparr>,
      u_amount = Num (lg_amount g), u_operation = lg_operation g, u_source_type = lg_source_type g,
      u_source_id = Some order_id, u_dedup_epoch = Some epoch, u_source_user_id = None,
      u_method = Some CASH, u_comment = Some (lg_comment g), u_created_by = Some (str_or_empty (rq_id rq)),
      u_proof_files = lg_proof_files g, u_payment_date = NoDate\<rparr>"

definition updateCashboxBalance :: "remote \<Rightarrow> ident \<Rightarrow> requester \<Rightarrow> string \<Rightarrow> leg_data \<Rightarrow> order_db \<Rightarrow> order_db" where
  "updateCashboxBalance rm order_id rq epoch g db =
     (if lg_amount g \<le> 0 then db
      else emit rm ''FINANCE'' ''finance.cashbox.update_balance'' (Ev_balance (leg_dto order_id rq epoch g)) db)"

text \<open>A leg that is an income when positive and an expense when negative.\<close>

definition signed_leg :: "ident \<Rightarrow> Cashbox_type \<Rightarrow> Source_type \<Rightarrow> string \<Rightarrow> money \<Rightarrow> leg_data list" where
  "signed_leg u t st comment x =
     (if x > 0 then [\<lparr>lg_user_id = u, lg_cashbox_type = t, lg_amount = x, lg_operation = INCOME,
                      lg_source_type = st, lg_comment = comment, lg_proof_files = None\<rparr>]
      else if x < 0 then [\<lparr>lg_user_id = u, lg_cashbox_type = t, lg_amount = - x, lg_operation = EXPENSE,
                      lg_source_type = st, lg_comment = comment, lg_proof_files = None\<rparr>]
      else [])"

text \<open>The extra cost is charged to the market and, when it has a cashbox, to the actor.\<close>

definition extra_legs ::
  "ident \<Rightarrow> (ident \<times> Cashbox_type) option \<Rightarrow> money \<Rightarrow> string \<Rightarrow> string list \<Rightarrow> leg_data list" where
  "extra_legs market actor_box extraCost comment proofFiles =
     (if extraCost > 0
      then let g = (\<lambda>u t. \<lparr>lg_user_id = u, lg_cashbox_type = t, lg_amount = extraCost, lg_operation = EXPENSE,
                     lg_source_type = EXTRA_COST, lg_comment = comment,
                     lg_proof_files = (if proofFiles = [] then None else Some proofFiles)\<rparr>)
           in [g market FOR_MARKET] @ (case actor_box of None \<Rightarrow> [] | Some (u, t) \<Rightarrow> [g u t])
      else [])"

definition extra_ledger :: "FinancialSource_type \<Rightarrow> string \<Rightarrow> order \<Rightarrow> money \<Rightarrow> fb_input" where
  "extra_ledger st what ord extraCost =
     \<lparr>i_amount = Num (- extraCost), i_source_type = st, i_order_id = Some (ord_id ord),
      i_related_user_id = nonempty_or_null (Some (ord_market_id ord)),
      i_comment = Some (''Order #'' @ ord_id ord @ what), i_created_by = None\<rparr>"

definition post_legs :: "remote \<Rightarrow> ident \<Rightarrow> requester \<Rightarrow> string \<Rightarrow> leg_data list \<Rightarrow> order_db \<Rightarrow> order_db" where
  "post_legs rm order_id rq epoch legs db = fold (updateCashboxBalance rm order_id rq epoch) legs db"

subsection \<open>sellOrder\<close>

record sale_dto =
  sa_comment :: "string option"
  sa_extraCost :: jsnum
  sa_paidAmount :: "jsnum option"
  sa_proofFileKeys :: "string list"
  sa_verified :: bool

text \<open>What is known before the branch cashbox is ensured.\<close>

record parties =
  pa_order :: order
  pa_actor :: ident
  pa_manager :: bool
  pa_market :: market_info
  pa_financial_actor :: actor_info
  pa_market_balance :: money
  pa_courier_box :: bool

definition sale_actor :: "remote \<Rightarrow> requester \<Rightarrow> ident \<Rightarrow> order_db \<Rightarrow> rpc_error + order \<times> ident" where
  "sale_actor rm rq i db =
     rbind (findById i db) (\<lambda>ord.
     rbind (require (ord_status ord = WAITING) (badRequest ''Order not found or not in waiting status'')) (\<lambda>_.
     rbind (require (truthy (ord_post_id ord)) (badRequest ''Order has no post'')) (\<lambda>_.
     rbind (resolveActorCourierId rq ord (dflt (rm_post rm (str_or_empty (ord_post_id ord))) None)) (\<lambda>actor.
       Inr (ord, actor)))))"

definition parties_of :: "remote \<Rightarrow> requester \<Rightarrow> finance \<Rightarrow> order \<times> ident \<Rightarrow> rpc_error + parties" where
  "parties_of rm rq fs = (\<lambda>(ord, actor).
     let manager = isManagerRequester rq in
     rbind (case rm_market rm (ord_market_id ord) of None \<Rightarrow> Inl (notFound ''Market not found'') | Some m \<Rightarrow> Inr m) (\<lambda>market.
     rbind (case (if manager then rm_user rm (str_or_empty (rq_id rq)) else rm_courier rm actor) of
              None \<Rightarrow> Inl (notFound (if manager then ''Manager not found'' else ''Courier not found''))
            | Some a \<Rightarrow> Inr a) (\<lambda>financialActor.
     rbind (case getCashboxByUser (ord_market_id ord) FOR_MARKET fs of
              None \<Rightarrow> Inl (notFound ''Market cashbox not found'') | Some c \<Rightarrow> Inr (c_balance c)) (\<lambda>balance.
     let courierBox = \<not> manager \<and> getCashboxByUser actor FOR_COURIER fs \<noteq> None in
     rbind (require (courierBox \<or> manager) (notFound ''Courier cashbox not found'')) (\<lambda>_.
       Inr \<lparr>pa_order = ord, pa_actor = actor, pa_manager = manager, pa_market = market,
            pa_financial_actor = financialActor, pa_market_balance = balance, pa_courier_box = courierBox\<rparr>)))))"

definition sale_parties ::
  "remote \<Rightarrow> requester \<Rightarrow> ident \<Rightarrow> order_db \<Rightarrow> finance \<Rightarrow> rpc_error + parties" where
  "sale_parties rm rq i db fs = rbind (sale_actor rm rq i db) (parties_of rm rq fs)"

record sale_plan =
  sp_branch :: "ident option"
  sp_branch_box :: bool
  sp_market_tariff :: money
  sp_courier_tariff :: money
  sp_courier_share :: money
  sp_branch_share :: money
  sp_branch_net :: money
  sp_branch_amount :: money
  sp_extra :: money
  sp_proof :: "string list"
  sp_comment :: string
  sp_sale_comment :: string
  sp_net_to_be_paid :: money
  sp_paid :: money
  sp_status :: Order_status

text \<open>
  What is already paid, topped up by the market's earlier debt, and the status that follows.
\<close>

definition settle_payment :: "money \<Rightarrow> money \<Rightarrow> money \<Rightarrow> money \<times> Order_status" where
  "settle_payment netToBePaid requested marketBalanceBefore =
     (let currentPaid = min (max requested 0) netToBePaid;
          debtBeforeSale = (if marketBalanceBefore < 0 then \<bar>marketBalanceBefore\<bar> else 0);
          autoPay = min (netToBePaid - currentPaid) debtBeforeSale;
          paidAfter = min netToBePaid (currentPaid + autoPay);
          remaining = max (netToBePaid - paidAfter) 0
      in (paidAfter, if remaining = 0 \<and> paidAfter > 0 then PAID
                     else if paidAfter > 0 then PARTLY_PAID else SOLD))"

definition tariff :: "Where_deliver \<Rightarrow> money \<Rightarrow> money \<Rightarrow> money" where
  "tariff w center home = (if w = CENTER then center else home)"

definition plan_sale ::
  "remote \<Rightarrow> sale_dto \<Rightarrow> parties \<Rightarrow> ident option \<Rightarrow> finance \<Rightarrow> rpc_error + sale_plan" where
  "plan_sale rm dto p branch fs =
     (let ord = pa_order p; total = ord_total_price ord;
          branchShare = resolveBranchShare rm branch;
          marketTariff = tariff (ord_where_deliver ord) (mk_tariff_center (pa_market p)) (mk_tariff_home (pa_market p));
          courierTariff = tariff (ord_where_deliver ord) (ac_tariff_center (pa_financial_actor p))
             (ac_tariff_home (pa_financial_actor p));
          courierShare = resolveSaleActorShare (pa_manager p) (ac_compensation_mode (pa_financial_actor p)) courierTariff;
          extraCost = extra_cost (sa_extraCost dto)
      in
      rbind (enforceOperationProof rm (Some (pa_market p)) Act_sell extraCost total (sa_proofFileKeys dto) False
               (sa_verified dto)) (\<lambda>proofFiles.
      let finalComment = generateSaleComment (ord_comment ord) (sa_comment dto) extraCost [];
          branchNet = total - courierShare - branchShare;
          netToBePaid = max (total - marketTariff) 0
      in
      case dflt (sa_paidAmount dto) (Num (ord_paid_amount ord)) of
        Num requested \<Rightarrow>
          if requested < 0 then Inl (badRequest ''paidAmount must be a non-negative number'')
          else if requested > netToBePaid then Inl (badRequest (''paidAmount ('' @ show_money requested @ '') qoldiq summa ('' @ show_money netToBePaid @ '') dan oshmasligi kerak''))
          else
            let (paidAfter, nextStatus) = settle_payment netToBePaid requested (pa_market_balance p) in
            Inr \<lparr>sp_branch = branch,
                 sp_branch_box = (case branch of None \<Rightarrow> False | Some b \<Rightarrow> getCashboxByUser b C_BRANCH fs \<noteq> None),
                 sp_market_tariff = marketTariff, sp_courier_tariff = courierTariff,
                 sp_courier_share = courierShare, sp_branch_share = branchShare, sp_branch_net = branchNet,
                 sp_branch_amount = resolveBranchCashboxSaleAmount total branchNet (pa_manager p),
                 sp_extra = extraCost, sp_proof = proofFiles, sp_comment = finalComment,
                 sp_sale_comment = (if total = 0 then ''0 so'mlik mahsulot sotuvi''
                    else if total < marketTariff then show_money total @ '' so'mlik mahsulot sotuvi''
                    else finalComment),
                 sp_net_to_be_paid = netToBePaid, sp_paid = paidAfter, sp_status = nextStatus\<rparr>
      | _ \<Rightarrow> Inl (badRequest ''paidAmount must be a non-negative number'')))"

definition sale_legs_of :: "requester \<Rightarrow> parties \<Rightarrow> sale_plan \<Rightarrow> leg_data list" where
  "sale_legs_of rq p pl =
     (let ord = pa_order p; total = ord_total_price ord; c = sp_sale_comment pl in
      signed_leg (ord_market_id ord) FOR_MARKET SELL c (total - sp_market_tariff pl)
      @ (if pa_courier_box p then signed_leg (pa_actor p) FOR_COURIER SELL c (total - sp_courier_share pl) else [])
      @ (if sp_branch_box pl then signed_leg (str_or_empty (sp_branch pl)) C_BRANCH SELL c (sp_branch_amount pl) else [])
      @ extra_legs (ord_market_id ord)
          (if pa_manager p
           then if sp_branch_box pl then Some (str_or_empty (rq_branch_id rq), C_BRANCH) else None
           else if pa_courier_box p then Some (pa_actor p, FOR_COURIER) else None)
          (sp_extra pl) (sp_comment pl) (sp_proof pl))"

definition sold_dto :: "remote \<Rightarrow> parties \<Rightarrow> sale_plan \<Rightarrow> order_dto" where
  "sold_dto rm p pl = empty_dto\<lparr>
     d_status := Some (sp_status pl), d_to_be_paid := Some (sp_net_to_be_paid pl), d_paid_amount := Some (sp_paid pl),
     d_sold_at := Some (Some (rm_now rm)),
     d_market_tariff := Some (Some (dflt (ord_market_tariff (pa_order p)) (sp_market_tariff pl))),
     d_courier_tariff := Some (Some (dflt (ord_courier_tariff (pa_order p)) (sp_courier_tariff pl))),
     d_courier_share := Some (Some (sp_courier_share pl)), d_branch_share := Some (Some (sp_branch_share pl)),
     d_branch_cashbox_amount := Some (Some (sp_branch_amount pl)),
     d_comment := nonempty_or_null (Some (sp_comment pl)),
     d_proof_files := (if sp_proof pl = [] then None else Some (Some (sp_proof pl)))\<rparr>"

definition sale_settlement_of :: "parties \<Rightarrow> sale_plan \<Rightarrow> sale_settlement" where
  "sale_settlement_of p pl =
     (let total = ord_total_price (pa_order p) in
      \<lparr>ss_order_id = ord_id (pa_order p), ss_courier_id = (if pa_courier_box p then Some (pa_actor p) else None),
       ss_branch_id = sp_branch pl, ss_market_id = nonempty_or_null (Some (ord_market_id (pa_order p))),
       ss_courier_amount = max (total - sp_courier_share pl) 0, ss_branch_amount = max (sp_branch_net pl) 0,
       ss_market_amount = max (total - sp_market_tariff pl) 0, ss_hasCourier = pa_courier_box p\<rparr>)"

definition commit_sale ::
  "remote \<Rightarrow> requester \<Rightarrow> ident \<Rightarrow> string option \<Rightarrow> parties \<Rightarrow> sale_plan \<Rightarrow> order_db \<Rightarrow> rpc_error + order_db" where
  "commit_sale rm rq i requestId p pl db =
     rbind (lockWaitingOrder i db) (\<lambda>_.
       let ord = pa_order p;
           db1 = post_legs rm (ord_id ord) rq (resolveDedupEpoch (rm_now rm) requestId) (sale_legs_of rq p pl) db;
           db2 = (if sp_extra pl > 0
                  then emit rm ''FINANCE'' ''finance.financial_balance.record''
                         (Ev_ledger (extra_ledger F_SELL_EXTRA_COST '' sell extra cost'' ord (sp_extra pl))) db1
                  else db1)
       in
       rbind (updateFull_tx rm i (sold_dto rm p pl) rq (Some ''Order sold'') db db2) (\<lambda>db3.
         Inr (db3\<lparr>db_settlements := recordSaleSettlement (rm_now rm) (sale_settlement_of p pl) (db_settlements db3)\<rparr>)))"

definition sellOrder ::
  "remote \<Rightarrow> requester \<Rightarrow> ident \<Rightarrow> sale_dto \<Rightarrow> string option \<Rightarrow> order_db \<times> finance
   \<Rightarrow> (rpc_error + unit) \<times> order_db \<times> finance" where
  "sellOrder rm rq i dto requestId = (\<lambda>(db, fs).
     case sale_parties rm rq i db fs of
       Inl e \<Rightarrow> (Inl e, db, fs)
     | Inr p \<Rightarrow>
         let branch = resolveSettlementBranchId rm (pa_order p);
             fs1 = (case branch of None \<Rightarrow> fs | Some b \<Rightarrow> ensureBranchCashbox b fs)
         in
         case rbind (plan_sale rm dto p branch fs1) (\<lambda>pl. commit_sale rm rq i requestId p pl db) of
           Inl e \<Rightarrow> (Inl e, db, fs1)
         | Inr db' \<Rightarrow>
             (Inr (), log_order (audit_row ''Order'' (ord_id (pa_order p)) ''order.sell'' (nonempty_or_null (rq_id rq))) db', fs1))"

subsection \<open>cancelOrder\<close>

definition cancel_dto :: "string \<Rightarrow> string list \<Rightarrow> order_dto" where
  "cancel_dto comment proofFiles = empty_dto\<lparr>d_status := Some CANCELLED,
     d_comment := nonempty_or_null (Some comment), d_sold_at := Some None,
     d_proof_files := (if proofFiles = [] then None else Some (Some proofFiles))\<rparr>"

definition commit_cancel ::
  "remote \<Rightarrow> requester \<Rightarrow> ident \<Rightarrow> string option \<Rightarrow> order \<Rightarrow> (ident \<times> Cashbox_type) \<Rightarrow> money \<Rightarrow> string
   \<Rightarrow> string list \<Rightarrow> order_db \<Rightarrow> rpc_error + order_db" where
  "commit_cancel rm rq i requestId ord actor extraCost comment proofFiles db =
     rbind (lockWaitingOrder i db) (\<lambda>_.
       let db1 = post_legs rm (ord_id ord) rq (resolveDedupEpoch (rm_now rm) requestId)
                   (extra_legs (ord_market_id ord) (Some actor) extraCost comment proofFiles) db;
           db2 = (if extraCost > 0
                  then emit rm ''FINANCE'' ''finance.financial_balance.record''
                         (Ev_ledger (extra_ledger F_CANCEL_EXTRA_COST '' cancel extra cost'' ord extraCost)) db1
                  else db1)
       in updateFull_tx rm i (cancel_dto comment proofFiles) rq (Some ''Order canceled'') db db2)"

definition cancelOrder ::
  "remote \<Rightarrow> requester \<Rightarrow> ident \<Rightarrow> sale_dto \<Rightarrow> string option \<Rightarrow> order_db \<times> finance
   \<Rightarrow> (rpc_error + unit) \<times> order_db \<times> finance" where
  "cancelOrder rm rq i dto requestId = (\<lambda>(db, fs).
     case rbind (findById i db) (\<lambda>ord.
          rbind (require (ord_status ord = WAITING) (badRequest ''Order not found or not in waiting status'')) (\<lambda>_.
          rbind (require (truthy (ord_post_id ord)) (badRequest ''Order has no post'')) (\<lambda>_.
          rbind (resolveActorCourierId rq ord (dflt (rm_post rm (str_or_empty (ord_post_id ord))) None)) (\<lambda>actor.
          rbind (enforceOperationProof rm (rm_market rm (ord_market_id ord)) Act_cancel (extra_cost (sa_extraCost dto))
                   (ord_total_price ord) (sa_proofFileKeys dto) False (sa_verified dto)) (\<lambda>proofFiles.
          rbind (require (\<not> (isManagerRequester rq \<and> \<not> truthy (rq_branch_id rq)))
                   (badRequest ''Manager branch not found'')) (\<lambda>_.
            Inr (ord, actor, proofFiles))))))) of
       Inl e \<Rightarrow> (Inl e, db, fs)
     | Inr (ord, actor, proofFiles) \<Rightarrow>
         let manager = isManagerRequester rq;
             extraCost = extra_cost (sa_extraCost dto);
             comment = generateSaleComment (ord_comment ord) (sa_comment dto) extraCost [];
             box = (if manager then (str_or_empty (rq_branch_id rq), C_BRANCH) else (actor, FOR_COURIER));
             fs1 = (if extraCost > 0 \<and> manager then ensureBranchCashbox (fst box) fs else fs)
         in
         case rbind (require (extraCost > 0 \<longrightarrow> getCashboxByUser (ord_market_id ord) FOR_MARKET fs1 \<noteq> None)
                       (notFound ''Market cashbox not found'')) (\<lambda>_.
              rbind (require (extraCost > 0 \<longrightarrow> getCashboxByUser (fst box) (snd box) fs1 \<noteq> None)
                       (notFound (if manager then ''Branch cashbox not found'' else ''Courier cashbox not found''))) (\<lambda>_.
                commit_cancel rm rq i requestId ord box extraCost comment proofFiles db)) of
           Inl e \<Rightarrow> (Inl e, db, fs1)
         | Inr db' \<Rightarrow>
             (Inr (), log_order (audit_row ''Order'' (ord_id ord) ''order.cancel'' (nonempty_or_null (rq_id rq))) db', fs1))"

subsection \<open>couldNotDeliverOrder and markByProvider\<close>

definition couldNotDeliverOrder ::
  "remote \<Rightarrow> requester \<Rightarrow> ident \<Rightarrow> string option \<Rightarrow> order_db \<Rightarrow> (rpc_error + unit) \<times> order_db" where
  "couldNotDeliverOrder rm rq i reason db =
     (let r = trim (str_or_empty reason) in
      case rbind (require (10 \<le> length r) (badRequest ''reason must be at least 10 characters'')) (\<lambda>_.
           rbind (findById i db) (\<lambda>ord.
           rbind (require (ord_status ord = ON_THE_ROAD) (badRequest ''Order not found or not in on the road status'')) (\<lambda>_.
           rbind (require (truthy (ord_post_id ord)) (badRequest ''Order has no post'')) (\<lambda>_.
           rbind (resolveActorCourierId rq ord (dflt (rm_post rm (str_or_empty (ord_post_id ord))) None)) (\<lambda>_.
             Inr ord))))) of
        Inl e \<Rightarrow> (Inl e, db)
      | Inr ord \<Rightarrow>
          (case updateFull rm i (empty_dto\<lparr>d_status := Some WAITING_CUSTOMER\<rparr>) rq
                  (Some (''Courier '' @ str_or_empty (rq_id rq) @ '' yetkaza olmadi. Sabab: '' @ r)) False db of
             (Inl e, db') \<Rightarrow> (Inl e, db')
           | (Inr _, db') \<Rightarrow>
               (Inr (), log_order (audit_row ''Order'' (ord_id ord) ''status_change'' (nonempty_or_null (rq_id rq))) db')))"

datatype provider_action = Prov_sell | Prov_cancel | Prov_return

fun provider_target :: "provider_action \<Rightarrow> Order_status" where
  "provider_target Prov_sell = SOLD"
| "provider_target Prov_cancel = CANCELLED"
| "provider_target Prov_return = CLOSED"

fun provider_action_name :: "provider_action \<Rightarrow> string" where
  "provider_action_name Prov_sell = ''sell''"
| "provider_action_name Prov_cancel = ''cancel''"
| "provider_action_name Prov_return = ''return''"

definition already_applied :: "provider_action \<Rightarrow> Order_status \<Rightarrow> bool" where
  "already_applied act s \<longleftrightarrow>
     (act = Prov_sell \<and> s \<in> set soldStates)
     \<or> (act = Prov_cancel \<and> s \<in> {CANCELLED, CANCELLED_SENT, CLOSED})
     \<or> (act = Prov_return \<and> s = CLOSED)"

definition markByProvider ::
  "remote \<Rightarrow> ident \<Rightarrow> provider_action \<Rightarrow> string option \<Rightarrow> string option \<Rightarrow> order_db \<Rightarrow> rpc_error + order_db" where
  "markByProvider rm i act slug ref db =
     rbind (findById i db) (\<lambda>ord.
       if already_applied act (ord_status ord) then Inr db
       else
         let note = ''Provider '' @ dflt slug ''external'' @ '' -> '' @ provider_action_name act
                @ (if truthy ref then '' (ref: '' @ str_or_empty ref @ '')'' else []);
             new = ord\<lparr>ord_status := provider_target act,
                 ord_sold_at := (if act = Prov_sell then keep (ord_sold_at ord) (Some (rm_now rm)) else ord_sold_at ord)\<rparr>
         in
         rbind (save_order rm new db) (\<lambda>db1.
           let db2 = db1\<lparr>db_tracking := db_tracking db1 @
                   [createTrackingEvent (ord_id ord) (Some (ord_status ord)) (provider_target act) ''system'' ''system''
                      None None (Some note)]\<rparr>
           in Inr (log_order (audit_row ''Order'' (ord_id ord) ''webhook_received'' None) (syncOrderToSearch rm new db2))))"

subsection \<open>What reaches the outbox\<close>

interpretation om: table "ord_id :: order \<Rightarrow> ident" .

definition payloads :: "order_db \<Rightarrow> order_event list" where
  "payloads db = map e_payload (events (db_outbox db))"

lemma payloads_emit [simp]: "payloads (emit rm tg pat e db) = payloads db @ [e]"
  by (simp add: payloads_def emit_def enqueue_def)

lemma emit_tables [simp]:
  "db_orders (emit rm tg pat e db) = db_orders db" "db_settlements (emit rm tg pat e db) = db_settlements db"
  "db_items (emit rm tg pat e db) = db_items db" "db_tracking (emit rm tg pat e db) = db_tracking db"
  by (simp_all add: emit_def)

lemma log_order_tables [simp]:
  "db_orders (log_order a db) = db_orders db" "db_settlements (log_order a db) = db_settlements db"
  "payloads (log_order a db) = payloads db"
  by (simp_all add: log_order_def payloads_def)

lemma post_legs_effect:
  "payloads (post_legs rm k rq ep legs db)
     = payloads db @ map (\<lambda>g. Ev_balance (leg_dto k rq ep g)) (filter (\<lambda>g. 0 < lg_amount g) legs)"
  "db_orders (post_legs rm k rq ep legs db) = db_orders db"
  "db_settlements (post_legs rm k rq ep legs db) = db_settlements db"
proof -
  have "payloads (post_legs rm k rq ep legs db)
     = payloads db @ map (\<lambda>g. Ev_balance (leg_dto k rq ep g)) (filter (\<lambda>g. 0 < lg_amount g) legs)
    \<and> db_orders (post_legs rm k rq ep legs db) = db_orders db
    \<and> db_settlements (post_legs rm k rq ep legs db) = db_settlements db"
    unfolding post_legs_def by (induction legs arbitrary: db) (auto simp: updateCashboxBalance_def)
  then show "payloads (post_legs rm k rq ep legs db)
     = payloads db @ map (\<lambda>g. Ev_balance (leg_dto k rq ep g)) (filter (\<lambda>g. 0 < lg_amount g) legs)"
    "db_orders (post_legs rm k rq ep legs db) = db_orders db"
    "db_settlements (post_legs rm k rq ep legs db) = db_settlements db" by blast+
qed

text \<open>The finance events of a status change.\<close>

definition profit_of_order :: "order \<Rightarrow> money" where
  "profit_of_order ord = computeSellProfit (or_null (ord_market_tariff ord) None)
     (or_null (ord_courier_share ord) (ord_courier_tariff ord)) (or_null (ord_branch_share ord) None)"

definition status_events :: "order \<Rightarrow> Order_status \<Rightarrow> order_event list" where
  "status_events ord old =
     (if ord_status ord \<in> set soldStates \<and> old \<notin> set soldStates
      then (if truthy (ord_operator_id ord)
            then [Ev_earning \<lparr>g_order_id = Some (ord_id ord), g_operator_id = ord_operator_id ord,
                    g_market_id = nonempty_or_null (Some (ord_market_id ord)), g_total_price = Num (ord_total_price ord)\<rparr>]
            else [])
         @ (if profit_of_order ord \<noteq> 0
            then [Ev_ledger \<lparr>i_amount = Num (profit_of_order ord), i_source_type = F_SELL_PROFIT,
                    i_order_id = Some (ord_id ord), i_related_user_id = nonempty_or_null (Some (ord_market_id ord)),
                    i_comment = Some (''Order #'' @ ord_id ord @ '' sell profit''), i_created_by = None\<rparr>]
            else [])
      else if ord_status ord = WAITING \<and> old \<in> set soldStates \<and> truthy (ord_operator_id ord)
      then [Ev_earning_remove (ord_id ord)] else [])"

lemma enqueueFinance_effect [simp]:
  "payloads (enqueueFinanceOnStatusChange rm ord old db) = payloads db @ status_events ord old"
  "db_orders (enqueueFinanceOnStatusChange rm ord old db) = db_orders db"
  "db_settlements (enqueueFinanceOnStatusChange rm ord old db) = db_settlements db"
  by (simp_all add: enqueueFinanceOnStatusChange_def status_events_def profit_of_order_def Let_def)

lemma status_events_same [simp]: "status_events ord (ord_status ord) = []"
  by (auto simp: status_events_def)

lemma written_fields [simp]:
  "ord_id (written rm rs ord) = ord_id ord" "ord_status (written rm rs ord) = ord_status ord"
  "ord_deleted (written rm rs ord) = ord_deleted ord" "ord_deleted_at (written rm rs ord) = ord_deleted_at ord"
  "ord_total_price (written rm rs ord) = ord_total_price ord"
  "ord_to_be_paid (written rm rs ord) = ord_to_be_paid ord" "ord_paid_amount (written rm rs ord) = ord_paid_amount ord"
  by (simp_all add: written_def)

lemma writeOrderChanges_Inr:
  assumes "writeOrderChanges rm d rq note old ord db = Inr db'"
  shows "db_orders db' = save_row ord_id (written rm (db_orders db) ord) (db_orders db)" and "db_settlements db' = db_settlements db"
    and "payloads db' = payloads db @ Ev_search_upsert (ord_id ord) # status_events ord (ord_status old)"
    and "is_whole (ord_to_be_paid ord)" and "is_whole (ord_paid_amount ord)"
proof -
  have "status_events ord (ord_status ord) = []" by simp
  then show "db_orders db' = save_row ord_id (written rm (db_orders db) ord) (db_orders db)" "db_settlements db' = db_settlements db"
    "payloads db' = payloads db @ Ev_search_upsert (ord_id ord) # status_events ord (ord_status old)"
    "is_whole (ord_to_be_paid ord)" "is_whole (ord_paid_amount ord)"
    using assms
    by (auto simp: writeOrderChanges_def save_order_def result_simps write_tracking_def syncOrderToSearch_def Let_def
        payloads_def [of "_\<lparr>db_orders := _\<rparr>"] payloads_def [of "_\<lparr>db_tracking := _\<rparr>"]
        payloads_def [of "_\<lparr>db_custody := _\<rparr>"] simp flip: payloads_def split: if_splits)
qed

lemma updateFull_tx_Inr:
  assumes "updateFull_tx rm i d rq note cdb db = Inr db'" and "d_items d = None"
  obtains old ord where "findById i cdb = Inr old" "prepare_update rm d rq old = Inr ord"
    "writeOrderChanges rm d rq note old ord db = Inr db'"
  using assms by (auto simp: updateFull_tx_def result_simps simp del: rbind.simps)

lemma stamp_handover_fields [simp]:
  "ord_id (stamp_handover rm rq old ord) = ord_id ord"
  "ord_status (stamp_handover rm rq old ord) = ord_status ord"
  "ord_deleted (stamp_handover rm rq old ord) = ord_deleted ord"
  "ord_deleted_at (stamp_handover rm rq old ord) = ord_deleted_at ord"
  "ord_market_tariff (stamp_handover rm rq old ord) = ord_market_tariff ord"
  "ord_courier_share (stamp_handover rm rq old ord) = ord_courier_share ord"
  "ord_branch_share (stamp_handover rm rq old ord) = ord_branch_share ord"
  "ord_to_be_paid (stamp_handover rm rq old ord) = ord_to_be_paid ord"
  "ord_paid_amount (stamp_handover rm rq old ord) = ord_paid_amount ord"
  "ord_total_price (stamp_handover rm rq old ord) = ord_total_price ord"
  by (simp_all add: stamp_handover_def)

lemma recalculate_holder_fields [simp]:
  "ord_id (recalculate_holder rm d ord) = ord_id ord"
  "ord_status (recalculate_holder rm d ord) = ord_status ord"
  "ord_deleted (recalculate_holder rm d ord) = ord_deleted ord"
  "ord_deleted_at (recalculate_holder rm d ord) = ord_deleted_at ord"
  "ord_market_tariff (recalculate_holder rm d ord) = ord_market_tariff ord"
  "ord_courier_share (recalculate_holder rm d ord) = ord_courier_share ord"
  "ord_branch_share (recalculate_holder rm d ord) = ord_branch_share ord"
  "ord_to_be_paid (recalculate_holder rm d ord) = ord_to_be_paid ord"
  "ord_paid_amount (recalculate_holder rm d ord) = ord_paid_amount ord"
  "ord_total_price (recalculate_holder rm d ord) = ord_total_price ord"
  by (simp_all add: recalculate_holder_def split: prod.split)

lemma prepare_update_Inr:
  assumes "prepare_update rm d rq old = Inr ord"
  shows "ord_id ord = ord_id old" and "ord_status ord = dflt (d_status d) (ord_status old)"
    and "ord_status ord = ord_status old \<or> isValidStatusTransition (ord_status old) (ord_status ord)"
    and "ord_deleted ord = ord_deleted old \<and> ord_deleted_at ord = ord_deleted_at old"
    and "ord_market_tariff ord = dflt (d_market_tariff d) (ord_market_tariff old)"
    and "ord_courier_share ord = dflt (d_courier_share d) (ord_courier_share old)"
    and "ord_branch_share ord = dflt (d_branch_share d) (ord_branch_share old)"
    and "ord_to_be_paid ord = dflt (d_to_be_paid d) (ord_to_be_paid old)"
    and "ord_paid_amount ord = dflt (d_paid_amount d) (ord_paid_amount old)"
    and "ord_total_price ord = dflt (d_total_price d) (ord_total_price old)"
proof -
  have ord: "ord = stamp_handover rm rq old (recalculate_holder rm d (assign_dto d old))"
    using assms by (simp add: prepare_update_def Let_def split: if_splits)
  have ok: "ord_status old = ord_status ord \<or> isValidStatusTransition (ord_status old) (ord_status ord)"
    using assms unfolding ord by (simp add: prepare_update_def Let_def split: if_splits)
  show "ord_status ord = ord_status old \<or> isValidStatusTransition (ord_status old) (ord_status ord)" using ok by auto
  show "ord_id ord = ord_id old" "ord_status ord = dflt (d_status d) (ord_status old)"
    "ord_deleted ord = ord_deleted old \<and> ord_deleted_at ord = ord_deleted_at old"
    "ord_market_tariff ord = dflt (d_market_tariff d) (ord_market_tariff old)"
    "ord_courier_share ord = dflt (d_courier_share d) (ord_courier_share old)"
    "ord_branch_share ord = dflt (d_branch_share d) (ord_branch_share old)"
    "ord_to_be_paid ord = dflt (d_to_be_paid d) (ord_to_be_paid old)"
    "ord_paid_amount ord = dflt (d_paid_amount d) (ord_paid_amount old)"
    "ord_total_price ord = dflt (d_total_price d) (ord_total_price old)"
    by (simp_all add: ord assign_dto_def)
qed

text \<open>The only things that stop the final write: the transition, and an amount that is not a whole number.\<close>

lemma updateFull_tx_ok:
  assumes "findById i cdb = Inr old" and "d_items d = None"
    and "dflt (d_status d) (ord_status old) = ord_status old
         \<or> isValidStatusTransition (ord_status old) (dflt (d_status d) (ord_status old))"
    and "is_whole (dflt (d_to_be_paid d) (ord_to_be_paid old))" "is_whole (dflt (d_paid_amount d) (ord_paid_amount old))"
  obtains db' where "updateFull_tx rm i d rq note cdb db = Inr db'"
proof -
  let ?ord = "stamp_handover rm rq old (recalculate_holder rm d (assign_dto d old))"
  have f: "ord_status ?ord = dflt (d_status d) (ord_status old)"
    "ord_to_be_paid ?ord = dflt (d_to_be_paid d) (ord_to_be_paid old)"
    "ord_paid_amount ?ord = dflt (d_paid_amount d) (ord_paid_amount old)" by (simp_all add: assign_dto_def)
  then have p: "prepare_update rm d rq old = Inr ?ord" using assms(3) unfolding prepare_update_def Let_def f(1) by metis
  obtain db1 where "save_order rm ?ord db = Inr db1" using assms(4,5) f by (simp add: save_order_def)
  then have "\<exists>db'. updateFull_tx rm i d rq note cdb db = Inr db'"
    unfolding updateFull_tx_def assms(1,2) rbind.simps p Let_def prod.case option.case writeOrderChanges_def by simp
  then show thesis using that by blast
qed

subsection \<open>A sale\<close>

lemma sale_actor_Inr:
  assumes "sale_actor rm rq i db = Inr (ord, actor)"
  shows "findById i db = Inr ord" and "ord_status ord = WAITING"
    and "resolveActorCourierId rq ord (dflt (rm_post rm (str_or_empty (ord_post_id ord))) None) = Inr actor"
  using assms by (auto simp: sale_actor_def result_simps simp del: rbind.simps)

lemma parties_of_Inr:
  assumes "parties_of rm rq fs (ord, actor) = Inr p"
  shows "pa_order p = ord" and "pa_actor p = actor"
    and "rm_market rm (ord_market_id (pa_order p)) = Some (pa_market p)"
    and "pa_manager p = isManagerRequester rq" and "pa_courier_box p \<or> pa_manager p"
    and "pa_courier_box p \<Longrightarrow> \<not> pa_manager p"
  using assms by (auto simp: parties_of_def result_simps Let_def simp del: rbind.simps split: option.splits)

lemma sale_parties_Inr:
  assumes "sale_parties rm rq i db fs = Inr p"
  shows "findById i db = Inr (pa_order p)" and "ord_status (pa_order p) = WAITING"
    and "rm_market rm (ord_market_id (pa_order p)) = Some (pa_market p)"
    and "pa_manager p = isManagerRequester rq" and "pa_courier_box p \<or> pa_manager p"
    and "pa_courier_box p \<Longrightarrow> \<not> pa_manager p"
    and "resolveActorCourierId rq (pa_order p) (dflt (rm_post rm (str_or_empty (ord_post_id (pa_order p)))) None)
           = Inr (pa_actor p)"
proof -
  obtain ord actor where a: "sale_actor rm rq i db = Inr (ord, actor)" and p: "parties_of rm rq fs (ord, actor) = Inr p"
    using assms by (auto simp: sale_parties_def result_simps simp del: rbind.simps)
  note f = sale_actor_Inr [OF a] and q = parties_of_Inr [OF p]
  show "findById i db = Inr (pa_order p)" "ord_status (pa_order p) = WAITING"
    "resolveActorCourierId rq (pa_order p) (dflt (rm_post rm (str_or_empty (ord_post_id (pa_order p)))) None)
       = Inr (pa_actor p)" using f q(1,2) by simp_all
  show "rm_market rm (ord_market_id (pa_order p)) = Some (pa_market p)" "pa_manager p = isManagerRequester rq"
    "pa_courier_box p \<or> pa_manager p" "pa_courier_box p \<Longrightarrow> \<not> pa_manager p" using q(3-6) by simp_all
qed

lemma plan_sale_Inr:
  assumes "plan_sale rm dto p branch fs = Inr pl"
  shows "sp_branch pl = branch" and "sp_branch_share pl = resolveBranchShare rm branch"
    and "sp_branch_box pl = (case branch of None \<Rightarrow> False | Some b \<Rightarrow> getCashboxByUser b C_BRANCH fs \<noteq> None)"
    and "sp_market_tariff pl = tariff (ord_where_deliver (pa_order p)) (mk_tariff_center (pa_market p)) (mk_tariff_home (pa_market p))"
    and "sp_branch_net pl = ord_total_price (pa_order p) - sp_courier_share pl - sp_branch_share pl"
    and "sp_branch_amount pl = resolveBranchCashboxSaleAmount (ord_total_price (pa_order p)) (sp_branch_net pl) (pa_manager p)"
    and "sp_net_to_be_paid pl = max (ord_total_price (pa_order p) - sp_market_tariff pl) 0"
    and "sp_extra pl = extra_cost (sa_extraCost dto)"
    and "\<exists>requested. 0 \<le> requested \<and> requested \<le> sp_net_to_be_paid pl
          \<and> (sp_paid pl, sp_status pl) = settle_payment (sp_net_to_be_paid pl) requested (pa_market_balance p)"
proof -
  obtain requested where r: "dflt (sa_paidAmount dto) (Num (ord_paid_amount (pa_order p))) = Num requested"
    using assms by (cases "dflt (sa_paidAmount dto) (Num (ord_paid_amount (pa_order p)))")
      (auto simp: plan_sale_def result_simps Let_def simp del: rbind.simps)
  note unf = plan_sale_def result_simps Let_def
  show "sp_branch pl = branch" and "sp_branch_share pl = resolveBranchShare rm branch"
    and "sp_branch_box pl = (case branch of None \<Rightarrow> False | Some b \<Rightarrow> getCashboxByUser b C_BRANCH fs \<noteq> None)"
    and "sp_market_tariff pl = tariff (ord_where_deliver (pa_order p)) (mk_tariff_center (pa_market p)) (mk_tariff_home (pa_market p))"
    and "sp_branch_net pl = ord_total_price (pa_order p) - sp_courier_share pl - sp_branch_share pl"
    and "sp_branch_amount pl = resolveBranchCashboxSaleAmount (ord_total_price (pa_order p)) (sp_branch_net pl) (pa_manager p)"
    and "sp_net_to_be_paid pl = max (ord_total_price (pa_order p) - sp_market_tariff pl) 0"
    and "sp_extra pl = extra_cost (sa_extraCost dto)"
    using assms r by (auto simp: unf simp del: rbind.simps split: if_splits prod.splits)
  show "\<exists>requested. 0 \<le> requested \<and> requested \<le> sp_net_to_be_paid pl
          \<and> (sp_paid pl, sp_status pl) = settle_payment (sp_net_to_be_paid pl) requested (pa_market_balance p)"
    using assms r by (intro exI [of _ requested]) (auto simp: unf simp del: rbind.simps split: if_splits prod.splits)
qed

lemma settle_payment_props:
  assumes "(paid, st) = settle_payment net requested bal" and "0 \<le> requested" and "requested \<le> net"
  shows "0 \<le> paid" and "paid \<le> net" and "requested \<le> paid"
    and "st = (if paid = net \<and> 0 < paid then PAID else if 0 < paid then PARTLY_PAID else SOLD)"
  using assms by (auto simp: settle_payment_def Let_def min_def max_def split: if_splits)

lemma sellOrder_Inr:
  assumes "sellOrder rm rq i dto req (db, fs) = (Inr (), db', fs')"
  obtains p pl dbc where "sale_parties rm rq i db fs = Inr p"
    "fs' = (case resolveSettlementBranchId rm (pa_order p) of None \<Rightarrow> fs | Some b \<Rightarrow> ensureBranchCashbox b fs)"
    "plan_sale rm dto p (resolveSettlementBranchId rm (pa_order p)) fs' = Inr pl"
    "commit_sale rm rq i req p pl db = Inr dbc"
    "db' = log_order (audit_row ''Order'' (ord_id (pa_order p)) ''order.sell'' (nonempty_or_null (rq_id rq))) dbc"
proof (cases "sale_parties rm rq i db fs")
  case (Inr p)
  let ?b = "resolveSettlementBranchId rm (pa_order p)"
  let ?fs = "case ?b of None \<Rightarrow> fs | Some b \<Rightarrow> ensureBranchCashbox b fs"
  have fs': "fs' = ?fs" using assms Inr by (auto simp: sellOrder_def Let_def split: sum.splits)
  obtain dbc where c: "rbind (plan_sale rm dto p ?b ?fs) (\<lambda>pl. commit_sale rm rq i req p pl db) = Inr dbc"
    using assms Inr by (auto simp: sellOrder_def Let_def split: sum.splits)
  then obtain pl where "plan_sale rm dto p ?b ?fs = Inr pl" "commit_sale rm rq i req p pl db = Inr dbc"
    by (auto simp: result_simps simp del: rbind.simps)
  moreover have "db' = log_order (audit_row ''Order'' (ord_id (pa_order p)) ''order.sell'' (nonempty_or_null (rq_id rq))) dbc"
    using assms Inr c by (auto simp: sellOrder_def Let_def)
  ultimately show thesis using that [of p pl dbc] Inr fs' by simp
qed (use assms in \<open>simp add: sellOrder_def\<close>)

lemma findById_Inr:
  "findById i db = Inr ord \<Longrightarrow>
     ord \<in> set (db_orders db) \<and> ord_id ord = i \<and> \<not> ord_deleted ord \<and> ord_deleted_at ord = None"
  by (auto simp: findById_def result_simps dest: find_Some_mem)

lemma commit_sale_Inr:
  assumes ok: "commit_sale rm rq i req p pl db = Inr dbc" and f: "findById i db = Inr (pa_order p)"
  obtains ord where "prepare_update rm (sold_dto rm p pl) rq (pa_order p) = Inr ord"
    "db_orders dbc = save_row ord_id (written rm (db_orders db) ord) (db_orders db)"
    "payloads dbc = payloads db
       @ map (\<lambda>g. Ev_balance (leg_dto i rq (resolveDedupEpoch (rm_now rm) req) g)) (filter (\<lambda>g. 0 < lg_amount g) (sale_legs_of rq p pl))
       @ (if 0 < sp_extra pl then [Ev_ledger (extra_ledger F_SELL_EXTRA_COST '' sell extra cost'' (pa_order p) (sp_extra pl))] else [])
       @ Ev_search_upsert i # status_events ord (ord_status (pa_order p))"
    "db_settlements dbc = recordSaleSettlement (rm_now rm) (sale_settlement_of p pl) (db_settlements db)"
    "is_whole (ord_to_be_paid ord)"
proof -
  have id: "ord_id (pa_order p) = i" using findById_Inr [OF f] by simp
  let ?db1 = "post_legs rm i rq (resolveDedupEpoch (rm_now rm) req) (sale_legs_of rq p pl) db"
  let ?db2 = "if sp_extra pl > 0 then emit rm ''FINANCE'' ''finance.financial_balance.record''
      (Ev_ledger (extra_ledger F_SELL_EXTRA_COST '' sell extra cost'' (pa_order p) (sp_extra pl))) ?db1 else ?db1"
  obtain db3 where u: "updateFull_tx rm i (sold_dto rm p pl) rq (Some ''Order sold'') db ?db2 = Inr db3"
    and dbc: "dbc = db3\<lparr>db_settlements := recordSaleSettlement (rm_now rm) (sale_settlement_of p pl) (db_settlements db3)\<rparr>"
    using ok id by (auto simp: commit_sale_def result_simps Let_def simp del: rbind.simps)
  have "d_items (sold_dto rm p pl) = None" by (simp add: sold_dto_def empty_dto_def)
  from u this obtain old ord where o: "findById i db = Inr old" "prepare_update rm (sold_dto rm p pl) rq old = Inr ord"
    "writeOrderChanges rm (sold_dto rm p pl) rq (Some ''Order sold'') old ord ?db2 = Inr db3" by (rule updateFull_tx_Inr)
  have old: "old = pa_order p" using o(1) f by simp
  note w = writeOrderChanges_Inr [OF o(3)]
  have "ord_id ord = i" using prepare_update_Inr(1) [OF o(2)] old id by simp
  then show thesis
    using that [of ord] o(2) w old dbc by (auto simp: post_legs_effect payloads_def [of "_\<lparr>db_settlements := _\<rparr>"] simp flip: payloads_def)
qed

text \<open>When a sale goes through: the parties and the amounts are known, and the amounts are whole.\<close>

definition sale_ready :: "remote \<Rightarrow> requester \<Rightarrow> ident \<Rightarrow> sale_dto \<Rightarrow> order_db \<Rightarrow> finance \<Rightarrow> bool" where
  "sale_ready rm rq i dto db fs =
     (case sale_parties rm rq i db fs of Inl _ \<Rightarrow> False
      | Inr p \<Rightarrow> lockWaitingOrder i db = Inr () \<and>
         (let b = resolveSettlementBranchId rm (pa_order p) in
          case plan_sale rm dto p b (case b of None \<Rightarrow> fs | Some b \<Rightarrow> ensureBranchCashbox b fs) of Inl _ \<Rightarrow> False
          | Inr pl \<Rightarrow> is_whole (sp_net_to_be_paid pl) \<and> is_whole (sp_paid pl)))"

lemma sale_ready_runs:
  assumes "sale_ready rm rq i dto db fs"
  obtains db' fs' where "sellOrder rm rq i dto req (db, fs) = (Inr (), db', fs')"
proof -
  obtain p where p: "sale_parties rm rq i db fs = Inr p"
    using assms by (cases "sale_parties rm rq i db fs") (simp_all add: sale_ready_def)
  let ?b = "resolveSettlementBranchId rm (pa_order p)"
  let ?fs = "case ?b of None \<Rightarrow> fs | Some b \<Rightarrow> ensureBranchCashbox b fs"
  obtain pl where pl: "plan_sale rm dto p ?b ?fs = Inr pl"
    using assms p by (cases "plan_sale rm dto p ?b ?fs") (simp_all add: sale_ready_def Let_def)
  have whole: "is_whole (sp_net_to_be_paid pl)" "is_whole (sp_paid pl)" and lock: "lockWaitingOrder i db = Inr ()"
    using assms p pl by (simp_all add: sale_ready_def Let_def)
  note f = sale_parties_Inr(1,2) [OF p]
  obtain requested where "(sp_paid pl, sp_status pl) = settle_payment (sp_net_to_be_paid pl) requested (pa_market_balance p)"
    using plan_sale_Inr(9) [OF pl] by blast
  then have st: "isValidStatusTransition WAITING (sp_status pl)"
    by (auto simp: settle_payment_def Let_def isValidStatusTransition_def split: if_splits)
  have "\<exists>dbc. commit_sale rm rq i req p pl db = Inr dbc"
  proof -
    have d: "d_items (sold_dto rm p pl) = None" "d_status (sold_dto rm p pl) = Some (sp_status pl)"
      "d_to_be_paid (sold_dto rm p pl) = Some (sp_net_to_be_paid pl)" "d_paid_amount (sold_dto rm p pl) = Some (sp_paid pl)"
      by (simp_all add: sold_dto_def empty_dto_def)
    have "\<exists>db3. updateFull_tx rm i (sold_dto rm p pl) rq nt db db2 = Inr db3" for nt db2
      by (rule updateFull_tx_ok [OF f(1) d(1)]) (use d st f(2) whole in \<open>auto simp: dflt_def\<close>)
    note u = this
    show ?thesis unfolding commit_sale_def lock rbind.simps Let_def by (rule rbind_ok [OF u]) (rule exI, rule refl)
  qed
  then obtain dbc where "commit_sale rm rq i req p pl db = Inr dbc" by blast
  then show thesis using that p pl by (simp add: sellOrder_def Let_def)
qed

subsection \<open>The books of a sale balance\<close>

definition amount_of :: "jsnum \<Rightarrow> money" where
  "amount_of j = (case j of Num r \<Rightarrow> r | _ \<Rightarrow> 0)"

definition leg_net :: "Cashbox_type \<Rightarrow> update_dto \<Rightarrow> money" where
  "leg_net t d = (if u_source_type d = SELL \<and> s_cashbox_type (u_selector d) = Some t
     then sign_of (u_operation d) * amount_of (u_amount d) else 0)"

text \<open>What the sale legs among some events add to the cashboxes of a type, and the profit they book.\<close>

definition sell_net :: "Cashbox_type \<Rightarrow> order_event list \<Rightarrow> money" where
  "sell_net t es = (\<Sum>e\<leftarrow>es. case e of Ev_balance d \<Rightarrow> leg_net t d | _ \<Rightarrow> 0)"

definition booked_profit :: "order_event list \<Rightarrow> money" where
  "booked_profit es = (\<Sum>e\<leftarrow>es. case e of Ev_ledger i \<Rightarrow>
     if i_source_type i = F_SELL_PROFIT then amount_of (i_amount i) else 0 | _ \<Rightarrow> 0)"

lemma sell_net_simps [simp]:
  "sell_net t [] = 0" "sell_net t (xs @ ys) = sell_net t xs + sell_net t ys"
  "sell_net t (e # es) = (case e of Ev_balance d \<Rightarrow> leg_net t d | _ \<Rightarrow> 0) + sell_net t es"
  "booked_profit [] = 0" "booked_profit (xs @ ys) = booked_profit xs + booked_profit ys"
  "booked_profit (e # es) = (case e of Ev_ledger i \<Rightarrow>
     if i_source_type i = F_SELL_PROFIT then amount_of (i_amount i) else 0 | _ \<Rightarrow> 0) + booked_profit es"
  by (simp_all add: sell_net_def booked_profit_def)

abbreviation leg_events :: "ident \<Rightarrow> requester \<Rightarrow> string \<Rightarrow> leg_data list \<Rightarrow> order_event list" where
  "leg_events k rq ep legs \<equiv> map (\<lambda>g. Ev_balance (leg_dto k rq ep g)) (filter (\<lambda>g. 0 < lg_amount g) legs)"

lemma booked_profit_legs [simp]: "booked_profit (leg_events k rq ep legs) = 0"
  by (induction legs) simp_all

lemma sell_net_signed [simp]: "sell_net t (leg_events k rq ep (signed_leg u t' SELL c x)) = (if t = t' then x else 0)"
  by (simp add: signed_leg_def leg_net_def leg_dto_def sign_of_def amount_of_def)

lemma sell_net_extra [simp]: "sell_net t (leg_events k rq ep (extra_legs m box x c pf)) = 0"
  by (auto simp: extra_legs_def Let_def leg_net_def leg_dto_def split: option.split prod.split)

lemma status_events_net [simp]: "sell_net t (status_events ord old) = 0"
  by (simp add: status_events_def)

lemma booked_profit_status:
  "booked_profit (status_events ord old)
     = (if ord_status ord \<in> set soldStates \<and> old \<notin> set soldStates then profit_of_order ord else 0)"
  by (simp add: status_events_def amount_of_def)

lemma ensured_branch_box:
  assumes "is_digits b"
  shows "getCashboxByUser b C_BRANCH (ensureBranchCashbox b fs) \<noteq> None"
proof -
  have "find (active_box b C_BRANCH) (cashboxes (ensureBranchCashbox b fs)) \<noteq> None"
  proof (cases "find (active_box b C_BRANCH) (cashboxes fs)")
    case None
    then show ?thesis
      using assms by (auto simp: ensureBranchCashbox_def createCashbox_def assertBigIntId_def is_digits_def
          insert_cashbox_def Let_def find_append_None active_box_def)
  next
    case (Some c)
    then show ?thesis
      using assms by (auto simp: ensureBranchCashbox_def createCashbox_def assertBigIntId_def is_digits_def)
  qed
  then show ?thesis using assms by (simp add: getCashboxByUser_def)
qed

text \<open>
  C2. The books of a courier's sale balance: the amount put on the branch's cashbox (what the
  branch will owe HQ) is the amount put on the market's cashbox (what HQ will owe the market) plus
  the profit booked on the company ledger. This holds when the order carries no market tariff
  from an earlier sale, or the same one.
\<close>

theorem sale_books_balance:
  assumes ok: "sellOrder rm rq i dto req (db, fs) = (Inr (), db', fs')"
    and courier: "\<not> isManagerRequester rq" and f: "findById i db = Inr ord"
    and branch: "resolveSettlementBranchId rm ord = Some b" "is_digits b"
    and market: "rm_market rm (ord_market_id ord) = Some m"
    and snap: "ord_market_tariff ord = None
      \<or> ord_market_tariff ord = Some (tariff (ord_where_deliver ord) (mk_tariff_center m) (mk_tariff_home m))"
  shows "\<exists>new. payloads db' = payloads db @ new
      \<and> sell_net C_BRANCH new = sell_net FOR_MARKET new + booked_profit new"
  using ok
proof (rule sellOrder_Inr)
  fix p pl dbc
  assume pa: "sale_parties rm rq i db fs = Inr p"
    and fs': "fs' = (case resolveSettlementBranchId rm (pa_order p) of None \<Rightarrow> fs | Some b \<Rightarrow> ensureBranchCashbox b fs)"
    and pl: "plan_sale rm dto p (resolveSettlementBranchId rm (pa_order p)) fs' = Inr pl"
    and c: "commit_sale rm rq i req p pl db = Inr dbc"
    and db': "db' = log_order (audit_row ''Order'' (ord_id (pa_order p)) ''order.sell'' (nonempty_or_null (rq_id rq))) dbc"
  have po: "pa_order p = ord" using sale_parties_Inr(1) [OF pa] f by simp
  have cb: "\<not> pa_manager p" "pa_courier_box p" using sale_parties_Inr(4,5) [OF pa] courier by auto
  note pls = plan_sale_Inr [OF pl, unfolded po branch(1)]
  have box: "sp_branch_box pl" using pls(3) fs' ensured_branch_box [OF branch(2)] by (simp add: po branch(1))
  obtain requested where st: "0 \<le> requested" "requested \<le> sp_net_to_be_paid pl"
      "(sp_paid pl, sp_status pl) = settle_payment (sp_net_to_be_paid pl) requested (pa_market_balance p)"
    using pls(9) by blast
  have sold: "sp_status pl \<in> set soldStates" using settle_payment_props(4) [OF st(3,1,2)] by simp
  from c f [folded po] show ?thesis
  proof (rule commit_sale_Inr)
    fix new
    assume u: "prepare_update rm (sold_dto rm p pl) rq (pa_order p) = Inr new"
      and ev: "payloads dbc = payloads db
       @ leg_events i rq (resolveDedupEpoch (rm_now rm) req) (sale_legs_of rq p pl)
       @ (if 0 < sp_extra pl then [Ev_ledger (extra_ledger F_SELL_EXTRA_COST '' sell extra cost'' (pa_order p) (sp_extra pl))] else [])
       @ Ev_search_upsert i # status_events new (ord_status (pa_order p))"
    note up = prepare_update_Inr [OF u]
    have "ord_status new \<in> set soldStates" using up(2) sold by (simp add: sold_dto_def dflt_def)
    moreover have "ord_status (pa_order p) \<notin> set soldStates" using sale_parties_Inr(2) [OF pa] by simp
    moreover have "profit_of_order new = sp_market_tariff pl - sp_courier_share pl - sp_branch_share pl"
      using up(5-7) snap pls(4) market sale_parties_Inr(3) [OF pa]
      by (auto simp: profit_of_order_def sold_dto_def dflt_def or_null_def computeSellProfit_def po)
    ultimately have profit: "booked_profit (status_events new (ord_status (pa_order p)))
        = sp_market_tariff pl - sp_courier_share pl - sp_branch_share pl"
      by (simp add: booked_profit_status)
    show ?thesis
      using ev db' cb box pls(5,6) profit
      by (intro exI [of _ "drop (length (payloads db)) (payloads dbc)"])
        (simp add: sale_legs_of_def Let_def po resolveBranchCashboxSaleAmount_def extra_ledger_def)
  qed
qed

definition demo_courier_requester :: requester where
  "demo_courier_requester = \<lparr>rq_id = Some ''7'', rq_roles = [''courier''], rq_branch_id = None\<rparr>"

definition demo_remote :: remote where
  "demo_remote = \<lparr>rm_now = 9, rm_uuid = (\<lambda>n. ''ev-'' @ string_of_nat n),
     rm_post = (\<lambda>k. if k = ''90'' then Some (Some ''7'') else None),
     rm_market = (\<lambda>k. if k = ''31'' then Some \<lparr>mk_tariff_home = 3, mk_tariff_center = 2, mk_proof_conditions = None\<rparr> else None),
     rm_courier = (\<lambda>k. if k = ''7'' then Some \<lparr>ac_tariff_home = 1, ac_tariff_center = 1, ac_compensation_mode = None\<rparr> else None),
     rm_user = (\<lambda>_. None), rm_hq_branch = Some ''1'',
     rm_branch = (\<lambda>k. if k = ''12'' then Some (PARTNER, Num 1) else None),
     rm_file_exists = (\<lambda>_. True), rm_sent_to_branch = (\<lambda>_. True), rm_branch_label = (\<lambda>_. None), rm_cancel_post = (\<lambda>_. None)\<rparr>"

definition demo_order :: order where
  "demo_order = \<lparr>ord_id = ''500'', ord_market_id = ''31'', ord_customer_id = ''81'', ord_product_quantity = 2,
     ord_where_deliver = ADDRESS, ord_total_price = 15, ord_market_tariff = None, ord_courier_tariff = None,
     ord_courier_share = None, ord_branch_share = None, ord_branch_cashbox_amount = None, ord_to_be_paid = 0,
     ord_paid_amount = 0, ord_status = WAITING, ord_comment = None, ord_operator = None, ord_operator_id = None,
     ord_post_id = Some ''90'', ord_canceled_post_id = None, ord_return_requested = False, ord_proof_files = None,
     ord_sold_at = None, ord_district_id = None, ord_region_id = None, ord_branch_id = Some ''12'', ord_home_branch_id = Some ''12'',
     ord_current_batch_id = None, ord_courier_id = Some ''7'', ord_assigned_at = None, ord_holder_type = H_COURIER,
     ord_holder_branch_id = Some ''12'', ord_holder_courier_id = Some ''7'', ord_last_handover_at = None,
     ord_last_handover_by = None, ord_return_reason = None, ord_address = None, ord_qr_code_token = Some ''q500'',
     ord_parent_order_id = None, ord_external_id = None, ord_source = INTERNAL, ord_deleted = False,
     ord_deleted_at = None, ord_created_at = 1, ord_updated_at = 1\<rparr>"

definition demo_orders :: order_db where
  "demo_orders = \<lparr>db_orders = [demo_order], db_order_seq = 501, db_items = [], db_tracking = [], db_custody = [],
     db_settlements = empty_settlements, db_outbox = empty_outbox, db_audit = []\<rparr>"

definition demo_sale_finance :: finance where
  "demo_sale_finance = (case createCashbox (demo_courier\<lparr>cr_user_id := Some ''31'', cr_cashbox_type := FOR_MARKET\<rparr>) demo_finance of
     Inr (fs, _) \<Rightarrow> fs | Inl _ \<Rightarrow> demo_finance)"

definition demo_sale_dto :: sale_dto where
  "demo_sale_dto = \<lparr>sa_comment = Some ''naqd'', sa_extraCost = Num 0, sa_paidAmount = None,
     sa_proofFileKeys = [], sa_verified = False\<rparr>"

definition demo_selling :: "(rpc_error + unit) \<times> order_db \<times> finance" where
  "demo_selling = sellOrder demo_remote demo_courier_requester ''500'' demo_sale_dto (Some ''r1'') (demo_orders, demo_sale_finance)"

lemma demo_selling_ok:
  obtains db' fs' where "demo_selling = (Inr (), db', fs')"
proof -
  have "sale_ready demo_remote demo_courier_requester ''500'' demo_sale_dto demo_orders demo_sale_finance" by code_simp
  then show thesis unfolding demo_selling_def by (rule sale_ready_runs) (rule that [unfolded demo_selling_def])
qed

theorem sale_books_balance_witness:
  "\<exists>db' fs' new. demo_selling = (Inr (), db', fs') \<and> payloads db' = payloads demo_orders @ new
     \<and> sell_net C_BRANCH new = sell_net FOR_MARKET new + booked_profit new"
proof -
  obtain db' fs' where ok: "demo_selling = (Inr (), db', fs')" by (rule demo_selling_ok)
  have h: "\<not> isManagerRequester demo_courier_requester" "findById ''500'' demo_orders = Inr demo_order"
    "resolveSettlementBranchId demo_remote demo_order = Some ''12''" "is_digits ''12''"
    "rm_market demo_remote (ord_market_id demo_order)
       = Some \<lparr>mk_tariff_home = 3, mk_tariff_center = 2, mk_proof_conditions = None\<rparr>"
    "ord_market_tariff demo_order = None" by code_simp+
  from sale_books_balance [OF ok [unfolded demo_selling_def] h(1-5)] h(6) ok
  show ?thesis by auto
qed

subsection \<open>The outcome of a sale\<close>

text \<open>After a row is saved under its key, the lookup of that key returns it.\<close>

lemma findById_key: "findById i db = Inr ord \<Longrightarrow> i \<in> ord_id ` set (db_orders db)"
  using findById_Inr [of i db ord] by blast

lemma findById_save:
  assumes "i \<in> ord_id ` set (db_orders db)" and "ord_id new = i" and "\<not> ord_deleted new" "ord_deleted_at new = None"
    and "db_orders db' = save_row ord_id new (db_orders db)"
  shows "findById i db' = Inr new"
proof -
  let ?P = "\<lambda>x. ord_id x = i \<and> \<not> ord_deleted x \<and> ord_deleted_at x = None"
  obtain old where "old \<in> set (db_orders db)" "ord_id old = i" using assms(1) by blast
  then have "new \<in> set (db_orders db')" using om.save_mem [of old _ new] assms(2,5) by simp
  moreover have "x = new" if "x \<in> set (db_orders db')" "ord_id x = i" for x
    using that om.mem_save [of x new "db_orders db"] unfolding assms(2,5) by metis
  moreover obtain y where y: "find ?P (db_orders db') = Some y"
    using calculation(1) assms(2-4) by (metis (mono_tags, lifting) find_None_iff not_None_eq)
  ultimately have "y = new" using find_Some_mem [OF y] by blast
  with y have "find ?P (db_orders db') = Some new" by simp
  then show ?thesis by (simp add: findById_def find_or_def)
qed

lemma sellOrder_not_waiting:
  assumes "findById i db = Inr ord" and "ord_status ord \<noteq> WAITING"
  shows "sellOrder rm rq i dto req (db, fs) = (Inl (badRequest ''Order not found or not in waiting status''), db, fs)"
    and "cancelOrder rm rq i dto req (db, fs) = (Inl (badRequest ''Order not found or not in waiting status''), db, fs)"
  using assms by (simp_all add: sellOrder_def sale_parties_def sale_actor_def cancelOrder_def require_def)

text \<open>
  C13. A sale that succeeds moves a waiting order to sold, partly paid or paid, with an amount paid
  between zero and the amount owed to the market and the status that amount calls for; no other
  order changes. Afterwards every attempt to sell or to cancel the order again is refused and
  changes nothing in either service.
\<close>

theorem sale_outcome:
  assumes ok: "sellOrder rm rq i dto req (db, fs) = (Inr (), db', fs')"
  shows "\<exists>ord new. findById i db = Inr ord \<and> ord_status ord = WAITING
      \<and> db_orders db' = save_row ord_id new (db_orders db) \<and> findById i db' = Inr new
      \<and> ord_status new \<in> set soldStates \<and> isValidStatusTransition WAITING (ord_status new)
      \<and> 0 \<le> ord_paid_amount new \<and> ord_paid_amount new \<le> ord_to_be_paid new
      \<and> ord_status new = (if ord_paid_amount new = ord_to_be_paid new \<and> 0 < ord_paid_amount new then PAID
                           else if 0 < ord_paid_amount new then PARTLY_PAID else SOLD)
      \<and> (\<forall>rm' rq' dto' req'. sellOrder rm' rq' i dto' req' (db', fs')
           = (Inl (badRequest ''Order not found or not in waiting status''), db', fs'))
      \<and> (\<forall>rm' rq' dto' req'. cancelOrder rm' rq' i dto' req' (db', fs')
           = (Inl (badRequest ''Order not found or not in waiting status''), db', fs'))"
proof -
  from ok obtain p pl dbc where pa: "sale_parties rm rq i db fs = Inr p"
    and pl: "plan_sale rm dto p (resolveSettlementBranchId rm (pa_order p)) fs' = Inr pl"
    and c: "commit_sale rm rq i req p pl db = Inr dbc"
    and db': "db_orders db' = db_orders dbc"
    by (rule sellOrder_Inr) simp
  note f = sale_parties_Inr(1) [OF pa]
  from c f obtain new where u: "prepare_update rm (sold_dto rm p pl) rq (pa_order p) = Inr new"
    and rows: "db_orders dbc = save_row ord_id (written rm (db_orders db) new) (db_orders db)"
    by (rule commit_sale_Inr)
  note up = prepare_update_Inr [OF u]
  obtain requested where st: "0 \<le> requested" "requested \<le> sp_net_to_be_paid pl"
      "(sp_paid pl, sp_status pl) = settle_payment (sp_net_to_be_paid pl) requested (pa_market_balance p)"
    using plan_sale_Inr(9) [OF pl] by blast
  note paid = settle_payment_props [OF st(3,1,2)]
  let ?row = "written rm (db_orders db) new"
  have new: "ord_status ?row = sp_status pl" "ord_paid_amount ?row = sp_paid pl" "ord_to_be_paid ?row = sp_net_to_be_paid pl"
    using up(2,8,9) by (simp_all add: sold_dto_def dflt_def)
  have id: "ord_id ?row = i" "\<not> ord_deleted ?row" "ord_deleted_at ?row = None"
    using up(1,4) findById_Inr [OF f] by simp_all
  have f': "findById i db' = Inr ?row"
    using findById_save [OF findById_key [OF f] id] rows db' by simp
  have "isValidStatusTransition WAITING (ord_status ?row)" and sold: "ord_status ?row \<in> set soldStates"
    using new(1) paid(4) by (simp_all add: isValidStatusTransition_def)
  moreover have "ord_status ?row \<noteq> WAITING" using sold by auto
  ultimately show ?thesis
    using f f' sale_parties_Inr(2) [OF pa] rows db' paid(1,2,4) new sellOrder_not_waiting [OF f']
    by (intro exI [of _ "pa_order p"] exI [of _ ?row]) (simp del: written_fields)
qed

theorem sale_outcome_witness:
  "\<exists>db' fs' new. demo_selling = (Inr (), db', fs') \<and> findById ''500'' db' = Inr new
     \<and> ord_status new \<in> set soldStates
     \<and> cancelOrder demo_remote demo_courier_requester ''500'' demo_sale_dto None (db', fs')
         = (Inl (badRequest ''Order not found or not in waiting status''), db', fs')"
proof -
  obtain db' fs' where ok: "demo_selling = (Inr (), db', fs')" by (rule demo_selling_ok)
  from sale_outcome [OF ok [unfolded demo_selling_def]] ok show ?thesis by blast
qed

text \<open>
  C35. What a delivery provider reports: an order whose status already reflects the report is left
  alone, every other order takes the reported status, whatever its status was, with one tracking
  event and one search event. No cashbox leg, no ledger entry and no settlement row is written.
\<close>

theorem provider_mark_effect:
  assumes f: "findById i db = Inr ord"
    and cols: "is_whole (ord_to_be_paid ord)" "is_whole (ord_paid_amount ord)"
  shows "\<exists>db'. markByProvider rm i act slug ref db = Inr db'
      \<and> db_settlements db' = db_settlements db
      \<and> (if already_applied act (ord_status ord) then db' = db
         else (\<exists>new. findById i db' = Inr new \<and> ord_status new = provider_target act
                \<and> payloads db' = payloads db @ [Ev_search_upsert i]
                \<and> length (db_tracking db') = Suc (length (db_tracking db))))"
proof (cases "already_applied act (ord_status ord)")
  case True
  then show ?thesis using f by (simp add: markByProvider_def)
next
  case False
  let ?new = "ord\<lparr>ord_status := provider_target act,
    ord_sold_at := (if act = Prov_sell then keep (ord_sold_at ord) (Some (rm_now rm)) else ord_sold_at ord)\<rparr>"
  let ?row = "written rm (db_orders db) ?new"
  obtain db' where m: "markByProvider rm i act slug ref db = Inr db'"
    and rows: "db_orders db' = save_row ord_id ?row (db_orders db)"
    and rest: "db_settlements db' = db_settlements db"
      "payloads db' = payloads db @ [Ev_search_upsert (ord_id ?row)]"
      "length (db_tracking db') = Suc (length (db_tracking db))"
    using f cols False by (simp add: markByProvider_def save_order_def Let_def syncOrderToSearch_def
        log_order_def payloads_def emit_def enqueue_def)
  have id: "ord_id ?row = i" "\<not> ord_deleted ?row" "ord_deleted_at ?row = None" using findById_Inr [OF f] by auto
  have "findById i db' = Inr ?row" by (rule findById_save [OF findById_key [OF f] id rows])
  then show ?thesis using m rest id(1) False by (intro exI [of _ db']) auto
qed

theorem provider_mark_effect_witness:
  "\<exists>db'. markByProvider demo_remote ''500'' Prov_sell (Some ''bts'') None
       (demo_orders\<lparr>db_orders := [demo_order\<lparr>ord_status := RETURNED_TO_MARKET\<rparr>]\<rparr>) = Inr db'
     \<and> (\<exists>new. findById ''500'' db' = Inr new \<and> ord_status new = SOLD)
     \<and> \<not> isValidStatusTransition RETURNED_TO_MARKET SOLD"
proof -
  let ?o = "demo_order\<lparr>ord_status := RETURNED_TO_MARKET\<rparr>"
  let ?db = "demo_orders\<lparr>db_orders := [?o]\<rparr>"
  have f: "findById ''500'' ?db = Inr ?o" "is_whole (ord_to_be_paid ?o)" "is_whole (ord_paid_amount ?o)"
    "\<not> already_applied Prov_sell (ord_status ?o)" "\<not> isValidStatusTransition RETURNED_TO_MARKET SOLD" by code_simp+
  show ?thesis using provider_mark_effect [OF f(1-3), of demo_remote Prov_sell "Some ''bts''" None] f(4,5) by auto
qed

end
