(* ===== verification/Order_Rollback.thy ===== *)
theory Order_Rollback
  imports Order_Sale
begin

text \<open>
  Taking a sale or a cancellation back and returning an order to its market:
  \<open>rollbackOrderToWaiting\<close> with \<open>mergePartialChildrenBack\<close>, \<open>initiateReturn\<close> and \<open>markReturnedToMarket\<close> of
  \<open>apps/order-service/src/lifecycle/order-lifecycle.service.ts\<close>.

  The rollback reverses the cashbox legs of the sale from the amounts kept on the order, gives
  back an extra cost it recognises by time, resets the settlement row and merges the children of a
  partial sale back. Typographic apostrophes of the messages are written as plain ones.
\<close>

subsection \<open>What the finance service still shows\<close>

text \<open>
  \<open>finance.history.find_all\<close> with one row per page: the newest history row of a source in any of
  the user's cashboxes. A rejected query counts as no row; rows of the same instant are taken in
  the order of their insertion.
\<close>

definition findLatestHistoryBySource ::
  "ident \<Rightarrow> Source_type \<Rightarrow> ident \<Rightarrow> finance \<Rightarrow> history option" where
  "findLatestHistoryBySource userId st sourceId fs =
     (if \<not> is_digits userId \<or> \<not> is_digits sourceId then None
      else
        let boxes = map c_id (filter (\<lambda>c. c_user_id c = userId \<and> \<not> c_deleted c) (cashboxes fs));
            found = filter (\<lambda>h. \<not> h_deleted h \<and> h_source_type h = st \<and> h_source_id h = Some sourceId
                             \<and> h_cashbox_id h \<in> set boxes) (histories fs)
        in (case sort_key (\<lambda>h. - h_created_at h) found of [] \<Rightarrow> None | h # _ \<Rightarrow> Some h))"

definition isNearInTime :: "time option \<Rightarrow> time option \<Rightarrow> bool" where
  "isNearInTime left right =
     (case (left, right) of (Some l, Some r) \<Rightarrow> \<bar>l - r\<bar> \<le> 5000 | _ \<Rightarrow> False)"

text \<open>The extra cost that a rollback gives back: the newest one, if it was posted by the last sale or cancellation.\<close>

definition extra_to_restore :: "order \<Rightarrow> history option \<Rightarrow> money option" where
  "extra_to_restore ord h =
     (case h of None \<Rightarrow> None
      | Some x \<Rightarrow>
          if 0 < h_amount x
             \<and> (if ord_status ord \<in> set soldStates then isNearInTime (ord_sold_at ord) (Some (h_created_at x))
                else if ord_status ord \<in> {CANCELLED, CLOSED} then isNearInTime (Some (ord_updated_at ord)) (Some (h_created_at x))
                else False)
          then Some (h_amount x) else None)"

subsection \<open>Children of a partial sale\<close>

fun rfold :: "('x \<Rightarrow> 's \<Rightarrow> 'e + 's) \<Rightarrow> 'x list \<Rightarrow> 's \<Rightarrow> 'e + 's" where
  "rfold f [] s = Inr s"
| "rfold f (x # xs) s = rbind (f x s) (rfold f xs)"

fun update_first :: "('r \<Rightarrow> bool) \<Rightarrow> ('r \<Rightarrow> 'r) \<Rightarrow> 'r list \<Rightarrow> 'r list" where
  "update_first P f [] = []"
| "update_first P f (r # rs) = (if P r then f r # rs else r # update_first P f rs)"

text \<open>
  The map from products to the parent's items keeps the last item of a product; an item of a
  product the parent lost is created anew.
\<close>

definition merge_item :: "ident \<Rightarrow> order_item \<Rightarrow> order_item list \<Rightarrow> order_item list" where
  "merge_item parent it items =
     (let mine = (\<lambda>x. it_order_id x = parent \<and> it_product_id x = it_product_id it) in
      if list_ex mine items
      then rev (update_first mine (\<lambda>x. x\<lparr>it_quantity := it_quantity x + it_quantity it\<rparr>) (rev items))
      else items @ [it\<lparr>it_order_id := parent\<rparr>])"

definition partial_children :: "ident \<Rightarrow> order_db \<Rightarrow> order list" where
  "partial_children i db =
     sort_key ord_created_at
       (filter (\<lambda>x. ord_parent_order_id x = Some i \<and> ord_status x \<in> {CANCELLED, WAITING} \<and> \<not> ord_deleted x
                  \<and> ord_deleted_at x = None) (db_orders db))"

definition merge_child :: "remote \<Rightarrow> ident \<Rightarrow> order \<Rightarrow> order_db \<Rightarrow> rpc_error + order_db" where
  "merge_child rm parent child db =
     (let its = filter (\<lambda>x. it_order_id x = ord_id child) (db_items db)
      in rbind (save_order rm (child\<lparr>ord_deleted := True, ord_deleted_at := Some (rm_now rm)\<rparr>)
                  (db\<lparr>db_items := fold (merge_item parent) its (db_items db)\<rparr>)) (\<lambda>db1.
           Inr (removeOrderFromSearch rm (ord_id child) db1)))"

definition mergePartialChildrenBack :: "remote \<Rightarrow> order \<Rightarrow> order_db \<Rightarrow> rpc_error + order_db" where
  "mergePartialChildrenBack rm ord db =
     (let children = partial_children (ord_id ord) db in
      if children = [] then Inr db
      else
        rbind (rfold (merge_child rm (ord_id ord)) children db) (\<lambda>db1.
        let merged = ord\<lparr>ord_total_price := ord_total_price ord + (\<Sum>x\<leftarrow>children. ord_total_price x),
              ord_product_quantity := ord_product_quantity ord + (\<Sum>x\<leftarrow>children. ord_product_quantity x)\<rparr>
        in rbind (save_order rm merged db1) (\<lambda>db2. Inr (syncOrderToSearch rm merged db2))))"

subsection \<open>Who may roll back what\<close>

datatype rollback_target = To_waiting | To_cancelled | To_cancelled_sent

definition rollbackTarget :: "string option \<Rightarrow> rpc_error + rollback_target" where
  "rollbackTarget ts =
     (let t = lower (trim (dflt ts ''waiting'')) in
      if t = ''waiting'' then Inr To_waiting
      else if t = ''cancelled'' then Inr To_cancelled
      else if t = ''cancelled_sent'' then Inr To_cancelled_sent
      else Inl (badRequest (''Invalid rollback target: '' @ str_or_empty ts)))"

definition not_possible :: "order \<Rightarrow> rpc_error" where
  "not_possible ord = badRequest (''Rollback mumkin emas (status: '' @ status_name (ord_status ord) @ '')'')"

definition may_roll_back :: "requester \<Rightarrow> rollback_target \<Rightarrow> order \<Rightarrow> rpc_error + unit" where
  "may_roll_back rq target ord =
     (let s = ord_status ord in
      rbind (require (target = To_cancelled_sent \<longrightarrow> hasRole rq COURIER)
               (badRequest ''cancelled_sent rollback faqat courier uchun ruxsat etilgan'')) (\<lambda>_.
      rbind (require (hasRole rq COURIER \<longrightarrow> s \<in> {SOLD, CANCELLED}) (not_possible ord)) (\<lambda>_.
      rbind (require (hasRole rq SUPERADMIN \<longrightarrow> s \<in> {SOLD, CANCELLED, CLOSED, PAID, PARTLY_PAID}) (not_possible ord)) (\<lambda>_.
      rbind (require (hasRole rq COURIER \<or> hasRole rq SUPERADMIN \<or> hasRole rq MANAGER)
               (badRequest ''Rollback uchun ruxsat yo'q'')) (\<lambda>_.
        require (s = PARTLY_PAID \<longrightarrow> hasRole rq SUPERADMIN)
          (badRequest ''Qisman to'langan buyurtmani faqat superadmin WAITING holatiga qaytara oladi''))))))"

record rollback_parties =
  rb_order :: order
  rb_target :: rollback_target
  rb_courier :: ident
  rb_manager :: bool
  rb_market :: market_info
  rb_financial_actor :: actor_info
  rb_courier_box :: bool

definition rollback_parties ::
  "remote \<Rightarrow> requester \<Rightarrow> ident \<Rightarrow> string option \<Rightarrow> order_db \<Rightarrow> finance \<Rightarrow> rpc_error + rollback_parties" where
  "rollback_parties rm rq i ts db fs =
     rbind (rollbackTarget ts) (\<lambda>target.
     rbind (findById i db) (\<lambda>ord.
     rbind (may_roll_back rq target ord) (\<lambda>_.
     let manager = isManagerRequester rq;
         post_courier = (if truthy (ord_post_id ord) then dflt (rm_post rm (str_or_empty (ord_post_id ord))) None else None);
         b = trim (str_or_empty (rq_branch_id rq)) in
     rbind (require (hasRole rq MANAGER \<and> \<not> hasRole rq SUPERADMIN \<longrightarrow> b \<noteq> []
                \<and> (b = trim (str_or_empty (ord_holder_branch_id ord)) \<or> b = trim (str_or_empty (ord_branch_id ord))))
              (badRequest ''Order is not assigned to this manager branch'')) (\<lambda>_.
     rbind (require (\<not> isSettledToHq (map_option st_status
                (find (\<lambda>r. st_order_id r = i \<and> \<not> st_deleted r) (rows (db_settlements db)))))
              (badRequest ''Bu buyurtma summasi bosh ofisga to'langan - rollback mumkin emas'')) (\<lambda>_.
     rbind (resolveActorCourierId rq ord post_courier) (\<lambda>courier.
     rbind (require (courier \<noteq> []) (notFound ''Courier not found'')) (\<lambda>_.
     rbind (case rm_market rm (ord_market_id ord) of None \<Rightarrow> Inl (notFound ''Market not found'') | Some m \<Rightarrow> Inr m) (\<lambda>market.
     rbind (case (if manager then rm_user rm (str_or_empty (rq_id rq)) else rm_courier rm courier) of
              None \<Rightarrow> Inl (notFound (if manager then ''Manager not found'' else ''Courier not found''))
            | Some a \<Rightarrow> Inr a) (\<lambda>financialActor.
     rbind (require (getCashboxByUser (ord_market_id ord) FOR_MARKET fs \<noteq> None) (notFound ''Market cashbox not found'')) (\<lambda>_.
     let courierBox = \<not> manager \<and> getCashboxByUser courier FOR_COURIER fs \<noteq> None in
     rbind (require (courierBox \<or> manager) (notFound ''Courier cashbox not found'')) (\<lambda>_.
     rbind (require (manager \<longrightarrow> truthy (rq_branch_id rq)) (badRequest ''Manager branch not found'')) (\<lambda>_.
       Inr \<lparr>rb_order = ord, rb_target = target, rb_courier = courier, rb_manager = manager, rb_market = market,
            rb_financial_actor = financialActor, rb_courier_box = courierBox\<rparr>))))))))))))"

subsection \<open>The legs of a rollback\<close>

text \<open>The cashbox that carried the actor's extra cost, when it exists.\<close>

definition rollback_actor :: "requester \<Rightarrow> rollback_parties \<Rightarrow> ident \<times> Cashbox_type" where
  "rollback_actor rq p = (if rb_manager p then (str_or_empty (rq_branch_id rq), C_BRANCH) else (rb_courier p, FOR_COURIER))"

definition restore_legs ::
  "string \<Rightarrow> ident \<Rightarrow> (ident \<times> Cashbox_type) option \<Rightarrow> money option \<Rightarrow> money option \<Rightarrow> leg_data list" where
  "restore_legs comment market actor marketExtra actorExtra =
     (let g = (\<lambda>u t x. \<lparr>lg_user_id = u, lg_cashbox_type = t, lg_amount = x, lg_operation = INCOME,
                lg_source_type = CORRECTION, lg_comment = comment, lg_proof_files = None\<rparr>)
      in (case marketExtra of None \<Rightarrow> [] | Some x \<Rightarrow> [g market FOR_MARKET x])
         @ (case (actorExtra, actor) of (Some x, Some (u, t)) \<Rightarrow> [g u t x] | _ \<Rightarrow> []))"

text \<open>The mirror image of the legs of a sale, from the amounts the order kept.\<close>

definition doSaleReversal :: "requester \<Rightarrow> order \<Rightarrow> bool" where
  "doSaleReversal rq ord \<longleftrightarrow>
     ord_status ord \<in> {SOLD, PAID} \<or> (ord_status ord = PARTLY_PAID \<and> hasRole rq SUPERADMIN)"

definition reversal_legs :: "remote \<Rightarrow> rollback_parties \<Rightarrow> finance \<Rightarrow> leg_data list" where
  "reversal_legs rm p fs =
     (let ord = rb_order p; total = ord_total_price ord;
          comment = trim (''[ROLLBACK] '' @ str_or_empty (ord_comment ord));
          marketTariff = dflt (ord_market_tariff ord)
             (tariff (ord_where_deliver ord) (mk_tariff_center (rb_market p)) (mk_tariff_home (rb_market p)));
          courierTariff = dflt (ord_courier_tariff ord)
             (tariff (ord_where_deliver ord) (ac_tariff_center (rb_financial_actor p)) (ac_tariff_home (rb_financial_actor p)));
          courierShare = dflt (ord_courier_share ord) courierTariff;
          branchShare = dflt (ord_branch_share ord) 0;
          branchAmount = dflt (ord_branch_cashbox_amount ord) (total - courierShare - branchShare)
      in signed_leg (ord_market_id ord) FOR_MARKET CORRECTION comment (marketTariff - total)
         @ (if rb_courier_box p then signed_leg (rb_courier p) FOR_COURIER CORRECTION comment (courierShare - total) else [])
         @ (case resolveSettlementBranchId rm ord of
              None \<Rightarrow> []
            | Some b \<Rightarrow> if getCashboxByUser b C_BRANCH fs \<noteq> None
                        then signed_leg b C_BRANCH CORRECTION comment (- branchAmount) else []))"

text \<open>Every posting of a rollback has its own suffix of the epoch.\<close>

definition post_numbered ::
  "remote \<Rightarrow> ident \<Rightarrow> requester \<Rightarrow> string \<Rightarrow> nat \<Rightarrow> leg_data list \<Rightarrow> order_db \<Rightarrow> order_db" where
  "post_numbered rm order_id rq epoch start legs db =
     fold (\<lambda>(k, g). updateCashboxBalance rm order_id rq (epoch @ '':'' @ string_of_nat k) g) (enumerate start legs) db"

definition restore_ledger :: "order \<Rightarrow> money \<Rightarrow> fb_input" where
  "restore_ledger ord x =
     \<lparr>i_amount = Num x, i_source_type = F_CORRECTION, i_order_id = Some (ord_id ord),
      i_related_user_id = nonempty_or_null (Some (ord_market_id ord)),
      i_comment = Some (''Order #'' @ ord_id ord @ '' extra cost rollback''), i_created_by = None\<rparr>"

definition rollback_dto :: "requester \<Rightarrow> rollback_target \<Rightarrow> order \<Rightarrow> order_dto" where
  "rollback_dto rq target ord =
     (if target \<noteq> To_waiting
      then empty_dto\<lparr>d_status := Some CANCELLED, d_canceled_post_id := Some None, d_return_requested := Some False,
             d_sold_at := Some None\<rparr>
      else if hasRole rq SUPERADMIN \<and> ord_status ord \<in> {PAID, PARTLY_PAID}
      then empty_dto\<lparr>d_status := Some WAITING, d_paid_amount := Some 0, d_sold_at := Some None\<rparr>
      else empty_dto\<lparr>d_status := Some WAITING, d_to_be_paid := Some 0, d_sold_at := Some None\<rparr>)"

fun target_name :: "rollback_target \<Rightarrow> string" where
  "target_name To_waiting = ''waiting''"
| "target_name To_cancelled = ''cancelled''"
| "target_name To_cancelled_sent = ''cancelled_sent''"

definition lock_unchanged :: "order \<Rightarrow> order_db \<Rightarrow> rpc_error + unit" where
  "lock_unchanged ord db =
     (let locked = find (\<lambda>x. ord_id x = ord_id ord \<and> ord_deleted_at x = None) (db_orders db)
      in require (map_option ord_status locked = Some (ord_status ord))
           (badRequest (''Rollback holati o'zgargan (status: ''
              @ (case locked of None \<Rightarrow> ''yo'q'' | Some x \<Rightarrow> status_name (ord_status x)) @ '')'')))"

subsection \<open>rollbackOrderToWaiting\<close>

text \<open>
  The transaction after the lock: the corrections of a sold order and the reset of its settlement
  row, the merge of its children, the extra cost of a cancelled order, the final write.
\<close>

definition sale_corrections ::
  "remote \<Rightarrow> requester \<Rightarrow> ident \<Rightarrow> string \<Rightarrow> rollback_parties \<Rightarrow> (ident \<times> Cashbox_type) option \<Rightarrow> money option \<Rightarrow> money option
   \<Rightarrow> finance \<Rightarrow> order_db \<Rightarrow> order_db" where
  "sale_corrections rm rq i epoch p actor marketExtra actorExtra fs db =
     (let ord = rb_order p; sold = ord_status ord \<in> set soldStates;
          restored = max (dflt marketExtra 0) (dflt actorExtra 0);
          legs = restore_legs ''Qo'shimcha xarajat orqaga qaytarildi'' (ord_market_id ord) actor marketExtra actorExtra;
          db1 = (if sold then post_numbered rm (ord_id ord) rq epoch 0 legs db else db);
          db2 = (if sold \<and> restored > 0
                 then emit rm ''FINANCE'' ''finance.financial_balance.record'' (Ev_ledger (restore_ledger ord restored)) db1
                 else db1);
          db3 = (if doSaleReversal rq ord
                 then post_numbered rm (ord_id ord) rq epoch (length legs) (reversal_legs rm p fs) db2 else db2)
      in db3\<lparr>db_settlements := resetSettlementOnRollback i (db_settlements db3)\<rparr>)"

definition cancel_corrections ::
  "remote \<Rightarrow> requester \<Rightarrow> string \<Rightarrow> order \<Rightarrow> (ident \<times> Cashbox_type) option \<Rightarrow> money option \<Rightarrow> money option
   \<Rightarrow> order_db \<Rightarrow> order_db" where
  "cancel_corrections rm rq epoch ord actor marketExtra actorExtra db =
     (if ord_status ord \<in> {CANCELLED, CLOSED}
      then post_numbered rm (ord_id ord) rq epoch 0
             (restore_legs ''Bekor qilingan buyurtmaga yozilgan qo'shimcha xarajat orqaga qaytarildi''
                (ord_market_id ord) actor marketExtra actorExtra) db
      else db)"

definition commit_rollback ::
  "remote \<Rightarrow> requester \<Rightarrow> ident \<Rightarrow> string option \<Rightarrow> rollback_parties \<Rightarrow> bool \<Rightarrow> money option \<Rightarrow> money option
   \<Rightarrow> finance \<Rightarrow> order_db \<Rightarrow> rpc_error + order_db" where
  "commit_rollback rm rq i requestId p actorBox marketExtra actorExtra fs db =
     (let epoch = resolveDedupEpoch (rm_now rm) requestId;
          actor = (if actorBox then Some (rollback_actor rq p) else None)
      in
      rbind (mergePartialChildrenBack rm (rb_order p)
               (sale_corrections rm rq i epoch p actor marketExtra actorExtra fs db)) (\<lambda>db5.
        updateFull_tx rm i (rollback_dto rq (rb_target p) (rb_order p)) rq
          (Some (''Rollback to '' @ target_name (rb_target p))) db
          (cancel_corrections rm rq epoch (rb_order p) actor marketExtra actorExtra db5)))"

definition rollbackOrderToWaiting ::
  "remote \<Rightarrow> requester \<Rightarrow> ident \<Rightarrow> string option \<Rightarrow> string option \<Rightarrow> order_db \<times> finance
   \<Rightarrow> (rpc_error + unit) \<times> order_db \<times> finance" where
  "rollbackOrderToWaiting rm rq i ts requestId = (\<lambda>(db, fs).
     case rollback_parties rm rq i ts db fs of
       Inl e \<Rightarrow> (Inl e, db, fs)
     | Inr p \<Rightarrow>
         let ord = rb_order p; (actor, actorType) = rollback_actor rq p;
             fs1 = (if rb_manager p then ensureBranchCashbox actor fs else fs);
             actorBox = (if rb_manager p then getCashboxByUser actor C_BRANCH fs1 \<noteq> None else rb_courier_box p);
             marketExtra = extra_to_restore ord (findLatestHistoryBySource (ord_market_id ord) EXTRA_COST (ord_id ord) fs1);
             actorExtra = extra_to_restore ord (findLatestHistoryBySource actor EXTRA_COST (ord_id ord) fs1)
         in
         case lock_unchanged ord db of
           Inl e \<Rightarrow> (Inl e, db, fs1)
         | Inr _ \<Rightarrow>
             let fs2 = (case resolveSettlementBranchId rm ord of
                          Some b \<Rightarrow> if doSaleReversal rq ord then ensureBranchCashbox b fs1 else fs1
                        | None \<Rightarrow> fs1)
             in
             case commit_rollback rm rq i requestId p actorBox marketExtra actorExtra fs2 db of
               Inl e \<Rightarrow> (Inl e, db, fs2)
             | Inr db' \<Rightarrow>
                 (case (if rb_target p = To_cancelled_sent then rm_cancel_post rm [i] else None) of
                    Some e \<Rightarrow> (Inl e, db', fs2)
                  | None \<Rightarrow> (Inr (), log_order (audit_row ''Order'' (ord_id ord) ''order.rollback'' (nonempty_or_null (rq_id rq))) db', fs2)))"

subsection \<open>Returning an order to its market\<close>

definition initiateReturn :: "remote \<Rightarrow> requester \<Rightarrow> ident \<Rightarrow> string option \<Rightarrow> order_db \<Rightarrow> rpc_error + order_db" where
  "initiateReturn rm rq i why db =
     (let reason = trim (str_or_empty why) in
      rbind (require (reason \<noteq> []) (badRequest ''reason is required'')) (\<lambda>_.
      rbind (findById i db) (\<lambda>ord.
      rbind (require (ord_status ord \<notin> {SOLD, PAID, PARTLY_PAID, RETURNED_TO_MARKET, CLOSED, CANCELLED})
               (badRequest ''Bu holatdagi orderni qaytarishni boshlab bo'lmaydi'')) (\<lambda>_.
      let new = ord\<lparr>ord_return_reason := Some reason, ord_return_requested := True\<rparr> in
      rbind (save_order rm new db) (\<lambda>db1.
        let db2 = db1\<lparr>db_tracking := db_tracking db1 @
              [createTrackingEvent (ord_id ord) (Some (ord_status ord)) (ord_status ord) (changed_by (rq_id rq))
                 (changed_by_role (rq_id rq) (rq_roles rq)) None None (Some (''Return initiated: '' @ reason))]\<rparr>
        in Inr (log_order (audit_row ''Order'' (ord_id ord) ''order.initiate_return'' (nonempty_or_null (rq_id rq)))
                  (syncOrderToSearch rm new db2)))))))"

text \<open>
  Custody with HQ or the home branch allows a direct handover when a return was requested; a
  received return batch to the order's branch, which the batch tables answer, allows it too.
\<close>

definition directHandoverAllowed :: "remote \<Rightarrow> order \<Rightarrow> bool" where
  "directHandoverAllowed rm ord \<longleftrightarrow>
     (let home = trim (str_or_empty (ord_home_branch_id ord));
          holder = trim (str_or_empty (ord_holder_branch_id ord));
          valid = filter (\<lambda>b. b \<noteq> []) [str_or_empty (rm_hq_branch rm), home]
      in ord_return_requested ord
         \<and> ((ord_holder_type ord = H_BRANCH \<and> holder \<in> set valid)
            \<or> (ord_holder_type ord = H_COURIER \<and> home \<noteq> [] \<and> holder = home)))"

definition markReturnedToMarket ::
  "remote \<Rightarrow> (ident \<Rightarrow> ident \<Rightarrow> bool) \<Rightarrow> requester \<Rightarrow> ident \<Rightarrow> order_db \<Rightarrow> rpc_error + order_db" where
  "markReturnedToMarket rm received_return_batch rq i db =
     rbind (findById i db) (\<lambda>ord.
     rbind (require (ord_status ord \<noteq> RETURNED_TO_MARKET) (badRequest ''Order allaqachon RETURNED_TO_MARKET holatida'')) (\<lambda>_.
     rbind (require (ord_status ord \<notin> set soldStates)
              (badRequest ''Sotilgan/to'langan buyurtmani to'g'ridan-to'g'ri marketga qaytarib bo'lmaydi - avval rollback qiling (pul qaytariladi), keyin qaytaring'')) (\<lambda>_.
     rbind (require (received_return_batch (ord_id ord) (str_or_empty (ord_branch_id ord)) \<or> directHandoverAllowed rm ord)
              (badRequest ''Order HQ yoki o'z filialiga qaytarib qabul qilingan bo'lishi kerak (return paket yoki to'g'ridan-to'g'ri topshirish orqali)'')) (\<lambda>_.
     let new = ord\<lparr>ord_status := RETURNED_TO_MARKET, ord_return_requested := False, ord_holder_type := H_MARKET,
           ord_holder_branch_id := None, ord_holder_courier_id := None\<rparr> in
     rbind (save_order rm new db) (\<lambda>db1.
       let db2 = db1\<lparr>db_tracking := db_tracking db1 @
             [createTrackingEvent (ord_id ord) (Some (ord_status ord)) RETURNED_TO_MARKET (changed_by (rq_id rq))
                (changed_by_role (rq_id rq) (rq_roles rq)) None None
                (Some (''Xodim '' @ dflt (rq_id rq) ''unknown'' @ '' market egasiga topshirdi''))],
             db_custody := db_custody db1 @
             [createCustodyEvent rq (Some ''Market egasiga qaytarib topshirildi'') ord new]\<rparr>
       in Inr (log_order (audit_row ''Order'' (ord_id ord) ''status_change'' (nonempty_or_null (rq_id rq)))
                 (syncOrderToSearch rm new db2)))))))"

subsection \<open>What the legs add up to\<close>

text \<open>The net effect of the balance events on one cashbox, and of legs before they are posted.\<close>

definition box_net :: "ident \<Rightarrow> Cashbox_type \<Rightarrow> order_event list \<Rightarrow> money" where
  "box_net u t es = (\<Sum>e\<leftarrow>es. case e of
     Ev_balance d \<Rightarrow> if s_user_id (u_selector d) = Some u \<and> s_cashbox_type (u_selector d) = Some t
                     then sign_of (u_operation d) * amount_of (u_amount d) else 0
   | _ \<Rightarrow> 0)"

definition leg_sum :: "ident \<Rightarrow> Cashbox_type \<Rightarrow> leg_data list \<Rightarrow> money" where
  "leg_sum u t legs = (\<Sum>g\<leftarrow>legs. if lg_user_id g = u \<and> lg_cashbox_type g = t \<and> 0 < lg_amount g
     then sign_of (lg_operation g) * lg_amount g else 0)"

lemma box_net_simps [simp]:
  "box_net u t [] = 0" "box_net u t (xs @ ys) = box_net u t xs + box_net u t ys"
  "box_net u t (e # es) = (case e of
     Ev_balance d \<Rightarrow> if s_user_id (u_selector d) = Some u \<and> s_cashbox_type (u_selector d) = Some t
                     then sign_of (u_operation d) * amount_of (u_amount d) else 0
   | _ \<Rightarrow> 0) + box_net u t es"
  by (simp_all add: box_net_def)

lemma leg_sum_simps [simp]:
  "leg_sum u t [] = 0" "leg_sum u t (xs @ ys) = leg_sum u t xs + leg_sum u t ys"
  by (simp_all add: leg_sum_def)

lemma leg_sum_signed [simp]: "leg_sum u t (signed_leg u' t' st c x) = (if u = u' \<and> t = t' then x else 0)"
  by (auto simp: signed_leg_def leg_sum_def sign_of_def)

abbreviation numbered_events ::
  "ident \<Rightarrow> requester \<Rightarrow> string \<Rightarrow> nat \<Rightarrow> leg_data list \<Rightarrow> order_event list" where
  "numbered_events oid rq ep n legs \<equiv>
     map (\<lambda>(k, g). Ev_balance (leg_dto oid rq (ep @ '':'' @ string_of_nat k) g))
       (filter (\<lambda>(k, g). 0 < lg_amount g) (enumerate n legs))"

lemma box_net_legs [simp]: "box_net u t (leg_events oid rq ep legs) = leg_sum u t legs"
  by (induction legs) (simp_all add: leg_sum_def leg_dto_def amount_of_def)

lemma box_net_numbered [simp]:
  "box_net u t (map (\<lambda>(k, g). Ev_balance (leg_dto oid rq (ep k) g)) (filter (\<lambda>(k, g). 0 < lg_amount g) (enumerate n legs)))
     = leg_sum u t legs"
  by (induction legs arbitrary: n) (simp_all add: leg_sum_def leg_dto_def amount_of_def)

lemma box_net_status [simp]: "box_net u t (status_events ord old) = 0"
  by (simp add: status_events_def)

lemma post_numbered_effect:
  "payloads (post_numbered rm oid rq ep n legs db) = payloads db @ numbered_events oid rq ep n legs
   \<and> db_orders (post_numbered rm oid rq ep n legs db) = db_orders db
   \<and> db_settlements (post_numbered rm oid rq ep n legs db) = db_settlements db
   \<and> db_items (post_numbered rm oid rq ep n legs db) = db_items db"
  unfolding post_numbered_def by (induction legs arbitrary: db n) (auto simp: updateCashboxBalance_def)

lemmas post_numbered_simps [simp] =
  post_numbered_effect [THEN conjunct1] post_numbered_effect [THEN conjunct2, THEN conjunct1]
  post_numbered_effect [THEN conjunct2, THEN conjunct2, THEN conjunct1]
  post_numbered_effect [THEN conjunct2, THEN conjunct2, THEN conjunct2]

subsection \<open>A rollback, inverted\<close>

lemma resolveActor_courier:
  assumes "resolveActorCourierId rq ord pc = Inr c" and "hasRole rq COURIER"
  shows "c = trim (str_or_empty (rq_id rq))"
  using assms by (auto simp: resolveActorCourierId_def Let_def split: if_splits)

lemma rollback_parties_Inr:
  assumes "rollback_parties rm rq i ts db fs = Inr p"
  shows "findById i db = Inr (rb_order p)" and "may_roll_back rq (rb_target p) (rb_order p) = Inr ()"
    and "rollbackTarget ts = Inr (rb_target p)"
    and "rb_manager p = isManagerRequester rq" and "rb_courier_box p \<or> rb_manager p"
    and "rb_courier_box p \<Longrightarrow> \<not> rb_manager p"
    and "\<exists>pc. resolveActorCourierId rq (rb_order p) pc = Inr (rb_courier p)"
    and "\<not> isSettledToHq (map_option st_status
           (find (\<lambda>r. st_order_id r = i \<and> \<not> st_deleted r) (rows (db_settlements db))))"
proof -
  note unf = rollback_parties_def result_simps Let_def
  show "findById i db = Inr (rb_order p)" and "may_roll_back rq (rb_target p) (rb_order p) = Inr ()"
    and "rollbackTarget ts = Inr (rb_target p)"
    and "rb_manager p = isManagerRequester rq" and "rb_courier_box p \<or> rb_manager p"
    and "rb_courier_box p \<Longrightarrow> \<not> rb_manager p"
    and "\<not> isSettledToHq (map_option st_status
           (find (\<lambda>r. st_order_id r = i \<and> \<not> st_deleted r) (rows (db_settlements db))))"
    using assms by (auto simp: unf simp del: rbind.simps split: option.splits)
  show "\<exists>pc. resolveActorCourierId rq (rb_order p) pc = Inr (rb_courier p)"
    using assms by (intro exI [of _ "if truthy (ord_post_id (rb_order p))
        then dflt (rm_post rm (str_or_empty (ord_post_id (rb_order p)))) None else None"])
      (auto simp: unf simp del: rbind.simps split: option.splits)
qed

lemma rollback_run:
  assumes "rollback_parties rm rq i ts db fs = Inr p"
  obtains box fs1 fs2 where "fs1 = (if rb_manager p then ensureBranchCashbox (fst (rollback_actor rq p)) fs else fs)"
    "fs2 = (case resolveSettlementBranchId rm (rb_order p) of
              Some b \<Rightarrow> if doSaleReversal rq (rb_order p) then ensureBranchCashbox b fs1 else fs1 | None \<Rightarrow> fs1)"
    "rollbackOrderToWaiting rm rq i ts req (db, fs) =
     (case lock_unchanged (rb_order p) db of
           Inl e \<Rightarrow> (Inl e, db, fs1)
         | Inr _ \<Rightarrow> (case commit_rollback rm rq i req p box
       (extra_to_restore (rb_order p) (findLatestHistoryBySource (ord_market_id (rb_order p)) EXTRA_COST (ord_id (rb_order p)) fs1))
       (extra_to_restore (rb_order p) (findLatestHistoryBySource (fst (rollback_actor rq p)) EXTRA_COST (ord_id (rb_order p)) fs1))
       fs2 db of
               Inl e \<Rightarrow> (Inl e, db, fs2)
             | Inr db' \<Rightarrow>
                 (case (if rb_target p = To_cancelled_sent then rm_cancel_post rm [i] else None) of
                    Some e \<Rightarrow> (Inl e, db', fs2)
                  | None \<Rightarrow> (Inr (), log_order (audit_row ''Order'' (ord_id (rb_order p)) ''order.rollback''
                                (nonempty_or_null (rq_id rq))) db', fs2))))"
proof -
  obtain actor actorType where a: "rollback_actor rq p = (actor, actorType)" by (cases "rollback_actor rq p")
  show thesis
    by (rule that) (unfold rollbackOrderToWaiting_def Let_def prod.case assms sum.case a fst_conv, rule refl, rule refl, rule refl)
qed

lemma rollback_Inr:
  assumes "rollbackOrderToWaiting rm rq i ts req (db, fs) = (Inr (), db', fs')"
  obtains p fs1 actorBox dbc where "rollback_parties rm rq i ts db fs = Inr p"
    "fs1 = (if rb_manager p then ensureBranchCashbox (fst (rollback_actor rq p)) fs else fs)"
    "fs' = (case resolveSettlementBranchId rm (rb_order p) of
              Some b \<Rightarrow> if doSaleReversal rq (rb_order p) then ensureBranchCashbox b fs1 else fs1 | None \<Rightarrow> fs1)"
    "commit_rollback rm rq i req p actorBox
       (extra_to_restore (rb_order p) (findLatestHistoryBySource (ord_market_id (rb_order p)) EXTRA_COST (ord_id (rb_order p)) fs1))
       (extra_to_restore (rb_order p) (findLatestHistoryBySource (fst (rollback_actor rq p)) EXTRA_COST (ord_id (rb_order p)) fs1))
       fs' db = Inr dbc"
    "db' = log_order (audit_row ''Order'' (ord_id (rb_order p)) ''order.rollback'' (nonempty_or_null (rq_id rq))) dbc"
proof (cases "rollback_parties rm rq i ts db fs")
  case (Inr p)
  from Inr obtain box fs1 fs2 where fs: "fs1 = (if rb_manager p then ensureBranchCashbox (fst (rollback_actor rq p)) fs else fs)"
    "fs2 = (case resolveSettlementBranchId rm (rb_order p) of
              Some b \<Rightarrow> if doSaleReversal rq (rb_order p) then ensureBranchCashbox b fs1 else fs1 | None \<Rightarrow> fs1)"
    and run: "rollbackOrderToWaiting rm rq i ts req (db, fs) =
     (case lock_unchanged (rb_order p) db of
           Inl e \<Rightarrow> (Inl e, db, fs1)
         | Inr _ \<Rightarrow> (case commit_rollback rm rq i req p box
       (extra_to_restore (rb_order p) (findLatestHistoryBySource (ord_market_id (rb_order p)) EXTRA_COST (ord_id (rb_order p)) fs1))
       (extra_to_restore (rb_order p) (findLatestHistoryBySource (fst (rollback_actor rq p)) EXTRA_COST (ord_id (rb_order p)) fs1))
       fs2 db of
               Inl e \<Rightarrow> (Inl e, db, fs2)
             | Inr db' \<Rightarrow>
                 (case (if rb_target p = To_cancelled_sent then rm_cancel_post rm [i] else None) of
                    Some e \<Rightarrow> (Inl e, db', fs2)
                  | None \<Rightarrow> (Inr (), log_order (audit_row ''Order'' (ord_id (rb_order p)) ''order.rollback''
                                (nonempty_or_null (rq_id rq))) db', fs2))))"
    by (rule rollback_run)
  show thesis
    using assms that [OF Inr fs(1)] fs(2) unfolding run by (auto split: sum.splits option.splits)
qed (use assms in \<open>simp add: rollbackOrderToWaiting_def\<close>)

lemma restore_legs_None [simp]: "restore_legs c m actor None None = []"
  by (simp add: restore_legs_def Let_def split: option.split)

lemma no_extra_cost:
  assumes "\<forall>h\<in>set (histories fs). h_source_type h = EXTRA_COST \<longrightarrow> h_source_id h \<noteq> Some i"
  shows "extra_to_restore ord (findLatestHistoryBySource u EXTRA_COST i fs) = None"
proof -
  have "filter (\<lambda>h. \<not> h_deleted h \<and> h_source_type h = EXTRA_COST \<and> h_source_id h = Some i \<and> h_cashbox_id h \<in> B)
          (histories fs) = []" for B
    using assms by (auto simp: filter_empty_conv)
  then show ?thesis by (simp add: findLatestHistoryBySource_def extra_to_restore_def Let_def)
qed

lemma commit_rollback_sold:
  assumes c: "commit_rollback rm rq i req p box None None fs db = Inr dbc"
    and f: "findById i db = Inr (rb_order p)" and st: "ord_status (rb_order p) = SOLD"
    and ch: "partial_children i db = []"
  obtains new where "prepare_update rm (rollback_dto rq (rb_target p) (rb_order p)) rq (rb_order p) = Inr new"
    "payloads dbc = payloads db @ numbered_events i rq (resolveDedupEpoch (rm_now rm) req) 0 (reversal_legs rm p fs)
       @ Ev_search_upsert i # status_events new SOLD"
    "db_orders dbc = save_row ord_id (written rm (db_orders db) new) (db_orders db)"
    "db_settlements dbc = resetSettlementOnRollback i (db_settlements db)"
proof -
  have id: "ord_id (rb_order p) = i" using findById_Inr [OF f] by simp
  let ?db = "post_numbered rm i rq (resolveDedupEpoch (rm_now rm) req) 0 (reversal_legs rm p fs) db"
  let ?db4 = "?db\<lparr>db_settlements := resetSettlementOnRollback i (db_settlements db)\<rparr>"
  have "partial_children i ?db4 = []" using ch by (simp add: partial_children_def)
  then have m: "mergePartialChildrenBack rm (rb_order p) ?db4 = Inr ?db4"
    by (simp add: mergePartialChildrenBack_def id)
  have pn: "post_numbered rm i rq e n [] d = d" for e n d by (simp add: post_numbered_def)
  have u: "updateFull_tx rm i (rollback_dto rq (rb_target p) (rb_order p)) rq
      (Some (''Rollback to '' @ target_name (rb_target p))) db ?db4 = Inr dbc"
    using c m by (simp add: commit_rollback_def sale_corrections_def cancel_corrections_def Let_def st id
        doSaleReversal_def pn dflt_def)
  have "d_items (rollback_dto rq (rb_target p) (rb_order p)) = None" by (simp add: rollback_dto_def empty_dto_def)
  from u this obtain old new where o: "findById i db = Inr old"
    "prepare_update rm (rollback_dto rq (rb_target p) (rb_order p)) rq old = Inr new"
    "writeOrderChanges rm (rollback_dto rq (rb_target p) (rb_order p)) rq
       (Some (''Rollback to '' @ target_name (rb_target p))) old new ?db4 = Inr dbc" by (rule updateFull_tx_Inr)
  have old: "old = rb_order p" using o(1) f by simp
  note w = writeOrderChanges_Inr [OF o(3)]
  have "ord_id new = i" using prepare_update_Inr(1) [OF o(2)] old id by simp
  then show thesis
    using that [of new] o(2) w old st
    by (simp add: payloads_def [of "_\<lparr>db_settlements := _\<rparr>"] flip: payloads_def)
qed

text \<open>What a sale leaves on the order row for its rollback.\<close>

lemma sold_row:
  assumes "prepare_update rm (sold_dto rm p pl) rq (pa_order p) = Inr new"
  shows "ord_market_tariff new = Some (dflt (ord_market_tariff (pa_order p)) (sp_market_tariff pl))"
    and "ord_courier_share new = Some (sp_courier_share pl)"
    and "ord_branch_cashbox_amount new = Some (sp_branch_amount pl)"
    and "ord_market_id new = ord_market_id (pa_order p)" and "ord_total_price new = ord_total_price (pa_order p)"
    and "ord_holder_branch_id new = ord_holder_branch_id (pa_order p)" and "ord_branch_id new = ord_branch_id (pa_order p)"
  using assms by (auto simp: prepare_update_def sold_dto_def empty_dto_def assign_dto_def recalculate_holder_def
      stamp_handover_def dflt_def Let_def split: if_splits)

lemma written_more [simp]:
  "ord_market_tariff (written rm rs ord) = ord_market_tariff ord" "ord_courier_share (written rm rs ord) = ord_courier_share ord"
  "ord_branch_cashbox_amount (written rm rs ord) = ord_branch_cashbox_amount ord"
  "ord_market_id (written rm rs ord) = ord_market_id ord"
  "ord_holder_branch_id (written rm rs ord) = ord_holder_branch_id ord" "ord_branch_id (written rm rs ord) = ord_branch_id ord"
  by (simp_all add: written_def)

lemma ensured_iff: "getCashboxByUser b C_BRANCH (ensureBranchCashbox b fs) \<noteq> None \<longleftrightarrow> is_digits b"
  using ensured_branch_box [of b fs] by (auto simp: getCashboxByUser_def)

lemma plan_sale_actor:
  "sale_parties rm rq i db fs = Inr p \<Longrightarrow> hasRole rq COURIER \<Longrightarrow> pa_actor p = trim (str_or_empty (rq_id rq))"
  by (rule resolveActor_courier [OF sale_parties_Inr(7)])

text \<open>The reversal legs mirror the legs of the sale, cashbox by cashbox.\<close>

lemma reversal_mirrors_sale:
  assumes row: "rb_order p' = new" "ord_market_tariff new = Some (sp_market_tariff pl)"
      "ord_courier_share new = Some (sp_courier_share pl)" "ord_branch_cashbox_amount new = Some (sp_branch_amount pl)"
      "ord_market_id new = ord_market_id (pa_order p)" "ord_total_price new = ord_total_price (pa_order p)"
    and actor: "rb_courier p' = pa_actor p" "rb_courier_box p'" "pa_courier_box p"
    and branch: "resolveSettlementBranchId rm' new = sp_branch pl"
      "sp_branch_box pl = (case sp_branch pl of None \<Rightarrow> False | Some b \<Rightarrow> getCashboxByUser b C_BRANCH fs \<noteq> None)"
    and extra: "sp_extra pl = 0"
  shows "leg_sum u t (sale_legs_of rq p pl) + leg_sum u t (reversal_legs rm' p' fs) = 0"
  using assms by (auto simp: sale_legs_of_def reversal_legs_def Let_def dflt_def extra_legs_def split: option.split)

lemma reset_all_deleted:
  assumes "r \<in> set (rows (resetSettlementOnRollback i s))" and "st_order_id r = i"
  shows "st_deleted r"
proof -
  have "r \<in> (\<lambda>x. if st_order_id x = i then reset_fields x else x) ` set (rows s)"
    using assms(1) by (simp add: resetSettlementOnRollback_def update_where_def)
  then obtain x where "r = (if st_order_id x = i then reset_fields x else x)" by (rule imageE)
  then show ?thesis using assms(2) by (simp add: reset_fields_def split: if_splits)
qed

lemma plan_sale_status: "plan_sale rm dto p b fs = Inr pl \<Longrightarrow> sp_status pl \<in> set soldStates"
proof -
  assume "plan_sale rm dto p b fs = Inr pl"
  from plan_sale_Inr(9) [OF this] obtain requested where "0 \<le> requested" "requested \<le> sp_net_to_be_paid pl"
    "(sp_paid pl, sp_status pl) = settle_payment (sp_net_to_be_paid pl) requested (pa_market_balance p)" by blast
  from settle_payment_props(4) [OF this(3,1,2)] show ?thesis by simp
qed

lemma may_roll_back_courier:
  "may_roll_back rq t ord = Inr () \<Longrightarrow> hasRole rq COURIER \<Longrightarrow> ord_status ord = SOLD \<or> ord_status ord = CANCELLED"
  by (auto simp: may_roll_back_def Let_def result_simps simp del: rbind.simps)

text \<open>A courier's sale without extra cost: the row it leaves and the events it emits.\<close>

lemma sellOrder_row:
  assumes sell: "sellOrder rm rq i dto req (db, fs) = (Inr (), db1, fs1)"
    and extra: "extra_cost (sa_extraCost dto) = 0"
  obtains p pl row where "sale_parties rm rq i db fs = Inr p"
    "plan_sale rm dto p (resolveSettlementBranchId rm (pa_order p)) fs1 = Inr pl"
    "fs1 = (case resolveSettlementBranchId rm (pa_order p) of None \<Rightarrow> fs | Some b \<Rightarrow> ensureBranchCashbox b fs)"
    "findById i db1 = Inr row" "ord_status row = sp_status pl"
    "ord_market_tariff row = Some (dflt (ord_market_tariff (pa_order p)) (sp_market_tariff pl))"
    "ord_courier_share row = Some (sp_courier_share pl)" "ord_branch_cashbox_amount row = Some (sp_branch_amount pl)"
    "ord_market_id row = ord_market_id (pa_order p)" "ord_total_price row = ord_total_price (pa_order p)"
    "ord_holder_branch_id row = ord_holder_branch_id (pa_order p)" "ord_branch_id row = ord_branch_id (pa_order p)"
    "\<exists>e. payloads db1 = payloads db @ e \<and> (\<forall>u t. box_net u t e = leg_sum u t (sale_legs_of rq p pl))"
proof -
  from sell obtain p pl dbc where pa: "sale_parties rm rq i db fs = Inr p"
    and fs1: "fs1 = (case resolveSettlementBranchId rm (pa_order p) of None \<Rightarrow> fs | Some b \<Rightarrow> ensureBranchCashbox b fs)"
    and pl: "plan_sale rm dto p (resolveSettlementBranchId rm (pa_order p)) fs1 = Inr pl"
    and c: "commit_sale rm rq i req p pl db = Inr dbc"
    and db1: "db1 = log_order (audit_row ''Order'' (ord_id (pa_order p)) ''order.sell'' (nonempty_or_null (rq_id rq))) dbc"
    by (rule sellOrder_Inr)
  note f = sale_parties_Inr(1) [OF pa]
  from c f obtain new where u: "prepare_update rm (sold_dto rm p pl) rq (pa_order p) = Inr new"
    and rows1: "db_orders dbc = save_row ord_id (written rm (db_orders db) new) (db_orders db)"
    and ev: "payloads dbc = payloads db
       @ leg_events i rq (resolveDedupEpoch (rm_now rm) req) (sale_legs_of rq p pl)
       @ (if 0 < sp_extra pl then [Ev_ledger (extra_ledger F_SELL_EXTRA_COST '' sell extra cost'' (pa_order p) (sp_extra pl))] else [])
       @ Ev_search_upsert i # status_events new (ord_status (pa_order p))"
    by (rule commit_sale_Inr)
  let ?row = "written rm (db_orders db) new"
  have id: "ord_id ?row = i" "\<not> ord_deleted ?row" "ord_deleted_at ?row = None"
    using prepare_update_Inr(1,4) [OF u] findById_Inr [OF f] by simp_all
  have f1: "findById i db1 = Inr ?row" using findById_save [OF findById_key [OF f] id] rows1 db1 by simp
  have st: "ord_status ?row = sp_status pl" using prepare_update_Inr(2) [OF u] by (simp add: sold_dto_def dflt_def)
  have e: "payloads db1 = payloads db @ leg_events i rq (resolveDedupEpoch (rm_now rm) req) (sale_legs_of rq p pl)
       @ Ev_search_upsert i # status_events new (ord_status (pa_order p))"
    using ev db1 extra plan_sale_Inr(8) [OF pl] by simp
  show thesis
    by (rule that [OF pa pl fs1 f1 st]) (use sold_row [OF u] e in auto)
qed

text \<open>A courier's rollback of a sold order that has no extra cost and no children.\<close>

lemma rollback_row:
  assumes undo: "rollbackOrderToWaiting rm rq i ts req (db, fs) = (Inr (), db', fs')"
    and courier: "hasRole rq COURIER" and f: "findById i db = Inr row" and st: "ord_status row \<in> set soldStates"
    and hist: "\<forall>h\<in>set (histories fs). h_source_type h = EXTRA_COST \<longrightarrow> h_source_id h \<noteq> Some i"
    and ch: "partial_children i db = []"
  obtains p prev where "rb_order p = row" "rb_courier_box p" "rb_courier p = trim (str_or_empty (rq_id rq))"
    "\<forall>b. resolveSettlementBranchId rm row = Some b \<longrightarrow> (getCashboxByUser b C_BRANCH fs' \<noteq> None \<longleftrightarrow> is_digits b)"
    "findById i db' = Inr prev" "ord_status prev = WAITING" "ord_to_be_paid prev = 0"
    "ord_total_price prev = ord_total_price row"
    "db_settlements db' = resetSettlementOnRollback i (db_settlements db)"
    "\<exists>e. payloads db' = payloads db @ e \<and> (\<forall>u t. box_net u t e = leg_sum u t (reversal_legs rm p fs'))"
proof -
  from undo obtain p fs1 box dbr where pa: "rollback_parties rm rq i ts db fs = Inr p"
    and fs1: "fs1 = (if rb_manager p then ensureBranchCashbox (fst (rollback_actor rq p)) fs else fs)"
    and fs': "fs' = (case resolveSettlementBranchId rm (rb_order p) of
              Some b \<Rightarrow> if doSaleReversal rq (rb_order p) then ensureBranchCashbox b fs1 else fs1 | None \<Rightarrow> fs1)"
    and cr: "commit_rollback rm rq i req p box
       (extra_to_restore (rb_order p) (findLatestHistoryBySource (ord_market_id (rb_order p)) EXTRA_COST (ord_id (rb_order p)) fs1))
       (extra_to_restore (rb_order p) (findLatestHistoryBySource (fst (rollback_actor rq p)) EXTRA_COST (ord_id (rb_order p)) fs1))
       fs' db = Inr dbr"
    and db': "db' = log_order (audit_row ''Order'' (ord_id (rb_order p)) ''order.rollback'' (nonempty_or_null (rq_id rq))) dbr"
    by (rule rollback_Inr)
  note pb = rollback_parties_Inr [OF pa]
  have ro: "rb_order p = row" using pb(1) f by simp
  have man: "\<not> rb_manager p" "rb_courier_box p"
    using pb(4,5) courier by (auto simp: isManagerRequester_def)
  have act: "rb_courier p = trim (str_or_empty (rq_id rq))" using pb(7) resolveActor_courier [OF _ courier] by blast
  have sold: "ord_status row = SOLD" using may_roll_back_courier [OF pb(2) courier] st ro by auto
  have i: "ord_id row = i" using findById_Inr [OF f] by simp
  have "commit_rollback rm rq i req p box None None fs' db = Inr dbr"
    using cr no_extra_cost [OF hist] man(1) fs1 by (simp add: ro i)
  from this pb(1) sold [folded ro] ch obtain new where
    b: "prepare_update rm (rollback_dto rq (rb_target p) (rb_order p)) rq (rb_order p) = Inr new"
    and ev: "payloads dbr = payloads db @ numbered_events i rq (resolveDedupEpoch (rm_now rm) req) 0 (reversal_legs rm p fs')
       @ Ev_search_upsert i # status_events new SOLD"
    and rows1: "db_orders dbr = save_row ord_id (written rm (db_orders db) new) (db_orders db)"
    and se: "db_settlements dbr = resetSettlementOnRollback i (db_settlements db)"
    by (rule commit_rollback_sold)
  note bk = prepare_update_Inr [OF b]
  have target: "rb_target p = To_waiting"
  proof (rule ccontr)
    assume "rb_target p \<noteq> To_waiting"
    then have "ord_status new = CANCELLED" using bk(2) by (simp add: rollback_dto_def dflt_def)
    with bk(3) sold show False by (simp add: ro isValidStatusTransition_def)
  qed
  let ?new = "written rm (db_orders db) new"
  have w: "ord_status ?new = WAITING" "ord_to_be_paid ?new = 0" "ord_total_price ?new = ord_total_price row"
    using bk(2,8,10) target sold by (simp_all add: ro rollback_dto_def dflt_def empty_dto_def)
  have id: "ord_id ?new = i" "\<not> ord_deleted ?new" "ord_deleted_at ?new = None"
    using bk(1,4) findById_Inr [OF f] by (simp_all add: ro)
  have f': "findById i db' = Inr ?new" using findById_save [OF findById_key [OF f] id] rows1 db' by simp
  have br: "\<forall>b. resolveSettlementBranchId rm row = Some b \<longrightarrow> (getCashboxByUser b C_BRANCH fs' \<noteq> None \<longleftrightarrow> is_digits b)"
    using fs' sold by (simp add: ro doSaleReversal_def ensured_iff del: not_None_eq)
  show thesis by (rule that [OF ro man(2) act br f' w]) (use se ev db' in auto)
qed

text \<open>
  C3. A sale and its rollback cancel out: when a courier sells an order without an extra cost and
  later takes the sale back, every cashbox ends where it was, whatever happened in the finance
  service in between. The order is waiting again with its price and nothing to be paid, and no
  settlement row of it is left. This holds when HQ is the same branch, the order kept no tariff
  of an earlier sale that differs, and it has no children of a partial sale.
\<close>

theorem sale_rollback_roundtrip:
  assumes sell: "sellOrder rm rq i dto req (db, fs) = (Inr (), db1, fs1)"
    and undo: "rollbackOrderToWaiting rm' rq i ts req' (db1, fs2) = (Inr (), db2, fs3)"
    and courier: "hasRole rq COURIER" and extra: "extra_cost (sa_extraCost dto) = 0"
    and hist: "\<forall>h\<in>set (histories fs2). h_source_type h = EXTRA_COST \<longrightarrow> h_source_id h \<noteq> Some i"
    and hq: "rm_hq_branch rm' = rm_hq_branch rm"
    and f: "findById i db = Inr ord" and ch: "partial_children i db1 = []"
    and market: "rm_market rm (ord_market_id ord) = Some m"
    and snap: "ord_market_tariff ord = None
      \<or> ord_market_tariff ord = Some (tariff (ord_where_deliver ord) (mk_tariff_center m) (mk_tariff_home m))"
  shows "\<exists>e1 e2 row. payloads db1 = payloads db @ e1 \<and> payloads db2 = payloads db1 @ e2
      \<and> (\<forall>u t. box_net u t e1 + box_net u t e2 = 0)
      \<and> findById i db2 = Inr row \<and> ord_status row = WAITING \<and> ord_total_price row = ord_total_price ord
      \<and> ord_to_be_paid row = 0
      \<and> (\<forall>r\<in>set (rows (db_settlements db2)). st_order_id r = i \<longrightarrow> st_deleted r)"
proof -
  from sell extra obtain p pl row where pa: "sale_parties rm rq i db fs = Inr p"
    and pl: "plan_sale rm dto p (resolveSettlementBranchId rm (pa_order p)) fs1 = Inr pl"
    and fs1: "fs1 = (case resolveSettlementBranchId rm (pa_order p) of None \<Rightarrow> fs | Some b \<Rightarrow> ensureBranchCashbox b fs)"
    and f1: "findById i db1 = Inr row" "ord_status row = sp_status pl"
    and snapshot: "ord_market_tariff row = Some (dflt (ord_market_tariff (pa_order p)) (sp_market_tariff pl))"
      "ord_courier_share row = Some (sp_courier_share pl)" "ord_branch_cashbox_amount row = Some (sp_branch_amount pl)"
      "ord_market_id row = ord_market_id (pa_order p)" "ord_total_price row = ord_total_price (pa_order p)"
      "ord_holder_branch_id row = ord_holder_branch_id (pa_order p)" "ord_branch_id row = ord_branch_id (pa_order p)"
    and e1: "\<exists>e. payloads db1 = payloads db @ e \<and> (\<forall>u t. box_net u t e = leg_sum u t (sale_legs_of rq p pl))"
    by (rule sellOrder_row)
  have po: "pa_order p = ord" using sale_parties_Inr(1) [OF pa] f by simp
  have cb: "pa_courier_box p" using sale_parties_Inr(4,5) [OF pa] courier by (auto simp: isManagerRequester_def)
  have "ord_status row \<in> set soldStates" using plan_sale_status [OF pl] f1(2) by simp
  with undo courier f1(1) obtain p' prev where party: "rb_order p' = row" "rb_courier_box p'"
      "rb_courier p' = trim (str_or_empty (rq_id rq))"
      "\<forall>b. resolveSettlementBranchId rm' row = Some b \<longrightarrow> (getCashboxByUser b C_BRANCH fs3 \<noteq> None \<longleftrightarrow> is_digits b)"
    and f2: "findById i db2 = Inr prev" "ord_status prev = WAITING" "ord_to_be_paid prev = 0"
      "ord_total_price prev = ord_total_price row"
    and se: "db_settlements db2 = resetSettlementOnRollback i (db_settlements db1)"
    and e2: "\<exists>e. payloads db2 = payloads db1 @ e \<and> (\<forall>u t. box_net u t e = leg_sum u t (reversal_legs rm' p' fs3))"
    using hist ch by (rule rollback_row)
  note pls = plan_sale_Inr [OF pl]
  have mt: "dflt (ord_market_tariff (pa_order p)) (sp_market_tariff pl) = sp_market_tariff pl"
    using snap pls(4) market sale_parties_Inr(3) [OF pa] by (auto simp: po dflt_def)
  have rb: "resolveSettlementBranchId rm' row = resolveSettlementBranchId rm (pa_order p)"
    unfolding resolveSettlementBranchId_def snapshot(6,7) hq by (rule refl)
  have fb: "sp_branch_box pl = (case sp_branch pl of None \<Rightarrow> False | Some b \<Rightarrow> getCashboxByUser b C_BRANCH fs3 \<noteq> None)"
    using pls(1,3) fs1 party(4) rb
    by (cases "resolveSettlementBranchId rm (pa_order p)") (simp_all add: ensured_iff del: not_None_eq)
  have zero: "leg_sum x t (sale_legs_of rq p pl) + leg_sum x t (reversal_legs rm' p' fs3) = 0" for x t
    using snapshot(1-5) mt party(1,2,3) plan_sale_actor [OF pa courier] cb rb pls(1,8) fb extra
    by (intro reversal_mirrors_sale [of p' row]) simp_all
  have del: "\<forall>r\<in>set (rows (db_settlements db2)). st_order_id r = i \<longrightarrow> st_deleted r"
    unfolding se using reset_all_deleted by blast
  obtain x1 where x1: "payloads db1 = payloads db @ x1" "\<forall>u t. box_net u t x1 = leg_sum u t (sale_legs_of rq p pl)"
    using e1 by blast
  obtain x2 where x2: "payloads db2 = payloads db1 @ x2" "\<forall>u t. box_net u t x2 = leg_sum u t (reversal_legs rm' p' fs3)"
    using e2 by blast
  have "\<forall>u t. box_net u t x1 + box_net u t x2 = 0" using x1(2) x2(2) zero by simp
  then show ?thesis
    using x1(1) x2(1) f2 del snapshot(5) po by (intro exI [of _ x1] exI [of _ x2] exI [of _ prev]) simp
qed

definition demo_hq_order :: order where
  "demo_hq_order = demo_order\<lparr>ord_total_price := 4, ord_branch_id := None, ord_home_branch_id := None,
     ord_holder_branch_id := None, ord_qr_code_token := None\<rparr>"

definition demo_hq_orders :: order_db where
  "demo_hq_orders = demo_orders\<lparr>db_orders := [demo_hq_order]\<rparr>"

definition demo_hq_selling :: "(rpc_error + unit) \<times> order_db \<times> finance" where
  "demo_hq_selling = sellOrder demo_remote demo_courier_requester ''500'' (demo_sale_dto\<lparr>sa_comment := None\<rparr>) None
     (demo_hq_orders, demo_sale_finance)"

abbreviation demo_undo :: "order_db \<Rightarrow> finance \<Rightarrow> (rpc_error + unit) \<times> order_db \<times> finance" where
  "demo_undo db fs \<equiv> rollbackOrderToWaiting demo_remote demo_courier_requester ''500'' None None (db, fs)"

lemma demo_undo_run:
  "(case demo_hq_selling of (r, db, fs) \<Rightarrow> (r, fst (demo_undo db fs), length (histories fs), length (partial_children ''500'' db)))
     = (Inr (), Inr (), 0, 0)"
  by code_simp

theorem sale_rollback_roundtrip_witness:
  "\<exists>db1 db2 e1 e2 fs1 fs3. demo_hq_selling = (Inr (), db1, fs1) \<and> demo_undo db1 fs1 = (Inr (), db2, fs3)
     \<and> payloads db1 = payloads demo_hq_orders @ e1 \<and> payloads db2 = payloads db1 @ e2
     \<and> (\<forall>u t. box_net u t e1 + box_net u t e2 = 0)"
proof -
  obtain r db1 fs1 where d: "demo_hq_selling = (r, db1, fs1)" by (metis prod.exhaust)
  note run = demo_undo_run [unfolded d prod.case]
  then obtain db2 fs3 where ok: "demo_hq_selling = (Inr (), db1, fs1)" "demo_undo db1 fs1 = (Inr (), db2, fs3)"
    using d by (metis fst_result prod.inject)
  have h: "hasRole demo_courier_requester COURIER" "extra_cost (sa_extraCost (demo_sale_dto\<lparr>sa_comment := None\<rparr>)) = 0"
    "findById ''500'' demo_hq_orders = Inr demo_hq_order"
    "rm_market demo_remote (ord_market_id demo_hq_order)
       = Some \<lparr>mk_tariff_home = 3, mk_tariff_center = 2, mk_proof_conditions = None\<rparr>"
    "ord_market_tariff demo_hq_order = None" by code_simp+
  have k: "histories fs1 = []" "partial_children ''500'' db1 = []" using run by simp_all
  have none: "\<forall>h\<in>set (histories fs1). h_source_type h = EXTRA_COST \<longrightarrow> h_source_id h \<noteq> Some ''500''" using k(1) by simp
  from sale_rollback_roundtrip [OF ok(1) [unfolded demo_hq_selling_def] ok(2) h(1,2) none refl h(3) k(2) h(4) disjI1 [OF h(5)]]
  obtain e1 e2 where "payloads db1 = payloads demo_hq_orders @ e1" "payloads db2 = payloads db1 @ e2"
    "\<forall>u t. box_net u t e1 + box_net u t e2 = 0" by blast
  with ok show ?thesis by blast
qed

subsection \<open>What a rollback refuses\<close>

lemma updateFull_tx_refused:
  assumes "findById i cdb = Inr old" and "d_status d = Some s" and "s \<noteq> ord_status old"
    and "\<not> isValidStatusTransition (ord_status old) s"
  shows "\<exists>e. updateFull_tx rm i d rq note cdb db = Inl e"
proof -
  have "prepare_update rm d rq old \<noteq> Inr ord" for ord
    using prepare_update_Inr(2,3) [of rm d rq old ord] assms(2-4) by (auto simp: dflt_def)
  then obtain e where "prepare_update rm d rq old = Inl e" by (cases "prepare_update rm d rq old") auto
  then show ?thesis using assms(1) by (simp add: updateFull_tx_def)
qed

lemma commit_rollback_refused:
  assumes "findById i db = Inr (rb_order p)" and "ord_status (rb_order p) \<in> set soldStates" and "rb_target p \<noteq> To_waiting"
  shows "\<exists>e. commit_rollback rm rq i req p box mx ax fs db = Inl e"
proof -
  have "\<exists>e. updateFull_tx rm i (rollback_dto rq (rb_target p) (rb_order p)) rq nt db db' = Inl e" for nt db'
    using assms by (intro updateFull_tx_refused [OF assms(1), where s = CANCELLED])
      (auto simp: rollback_dto_def isValidStatusTransition_def)
  then show ?thesis
    unfolding commit_rollback_def Let_def rbind_Inl
    by (metis (no_types, lifting) sumE)
qed

text \<open>
  C17. Two things a rollback never does, whoever asks and with whatever the other services answer:
  undo an order whose cash has reached HQ, and turn a sold order into a cancelled one, although the
  endpoint offers the targets cancelled and cancelled_sent for it. The order tables stay as they are.
\<close>

theorem rollback_refusals:
  assumes f: "findById i db = Inr ord"
    and bad: "isSettledToHq (map_option st_status
                (find (\<lambda>r. st_order_id r = i \<and> \<not> st_deleted r) (rows (db_settlements db))))
              \<or> (ord_status ord \<in> set soldStates \<and> rollbackTarget ts \<noteq> Inr To_waiting)"
  shows "\<exists>e fs'. rollbackOrderToWaiting rm rq i ts req (db, fs) = (Inl e, db, fs')"
proof (cases "rollback_parties rm rq i ts db fs")
  case (Inr p)
  note pb = rollback_parties_Inr [OF Inr]
  have "rb_order p = ord" using pb(1) f by simp
  then have "\<exists>e. commit_rollback rm rq i req p box mx ax fs2 db = Inl e" for box mx ax fs2
    using bad pb(1,3,8) by (intro commit_rollback_refused) auto
  note refused = this
  from Inr show ?thesis
  proof (rule rollback_run)
    fix box fs1 fs2
    assume run: "rollbackOrderToWaiting rm rq i ts req (db, fs) =
     (case lock_unchanged (rb_order p) db of
           Inl e \<Rightarrow> (Inl e, db, fs1)
         | Inr _ \<Rightarrow> (case commit_rollback rm rq i req p box
       (extra_to_restore (rb_order p) (findLatestHistoryBySource (ord_market_id (rb_order p)) EXTRA_COST (ord_id (rb_order p)) fs1))
       (extra_to_restore (rb_order p) (findLatestHistoryBySource (fst (rollback_actor rq p)) EXTRA_COST (ord_id (rb_order p)) fs1))
       fs2 db of
               Inl e \<Rightarrow> (Inl e, db, fs2)
             | Inr db' \<Rightarrow>
                 (case (if rb_target p = To_cancelled_sent then rm_cancel_post rm [i] else None) of
                    Some e \<Rightarrow> (Inl e, db', fs2)
                  | None \<Rightarrow> (Inr (), log_order (audit_row ''Order'' (ord_id (rb_order p)) ''order.rollback''
                                (nonempty_or_null (rq_id rq))) db', fs2))))"
    obtain e where "commit_rollback rm rq i req p box
       (extra_to_restore (rb_order p) (findLatestHistoryBySource (ord_market_id (rb_order p)) EXTRA_COST (ord_id (rb_order p)) fs1))
       (extra_to_restore (rb_order p) (findLatestHistoryBySource (fst (rollback_actor rq p)) EXTRA_COST (ord_id (rb_order p)) fs1))
       fs2 db = Inl e" using refused by blast
    then show ?thesis unfolding run by (auto split: sum.split)
  qed
qed (simp add: rollbackOrderToWaiting_def)

theorem rollback_refusals_witness:
  "\<exists>e fs'. rollbackOrderToWaiting demo_remote demo_courier_requester ''500'' (Some ''cancelled'') None
      (demo_orders\<lparr>db_orders := [demo_order\<lparr>ord_status := SOLD\<rparr>]\<rparr>, demo_sale_finance)
    = (Inl e, demo_orders\<lparr>db_orders := [demo_order\<lparr>ord_status := SOLD\<rparr>]\<rparr>, fs')"
proof -
  have "findById ''500'' (demo_orders\<lparr>db_orders := [demo_order\<lparr>ord_status := SOLD\<rparr>]\<rparr>) = Inr (demo_order\<lparr>ord_status := SOLD\<rparr>)"
    "ord_status (demo_order\<lparr>ord_status := SOLD\<rparr>) \<in> set soldStates" "rollbackTarget (Some ''cancelled'') = Inr To_cancelled"
    by code_simp+
  then show ?thesis by (intro rollback_refusals) auto
qed

subsection \<open>The price of merged children\<close>

abbreviation order_keys :: "order_db \<Rightarrow> ident list" where
  "order_keys db \<equiv> map ord_id (db_orders db)"

lemma save_order_Inr:
  "save_order rm ord db = Inr db' \<Longrightarrow> db_orders db' = save_row ord_id (written rm (db_orders db) ord) (db_orders db)"
  by (auto simp: save_order_def split: if_splits)

lemma save_order_keys: "save_order rm ord db = Inr db' \<Longrightarrow> order_keys db' = order_keys db"
  by (simp add: save_order_Inr om.keys_save)

definition gone :: "ident \<Rightarrow> order_db \<Rightarrow> bool" where
  "gone k db \<longleftrightarrow> (\<forall>x\<in>set (db_orders db). ord_id x = k \<longrightarrow> ord_deleted x)"

lemma save_order_gone:
  assumes "save_order rm ord db = Inr db'" and "ord_deleted ord \<or> ord_id ord \<noteq> k" and "gone k db \<or> ord_id ord = k"
  shows "gone k db'"
  unfolding gone_def save_order_Inr [OF assms(1)]
proof (intro ballI impI)
  fix x
  assume "x \<in> set (save_row ord_id (written rm (db_orders db) ord) (db_orders db))" and k: "ord_id x = k"
  from om.mem_save [OF this(1)] show "ord_deleted x"
  proof (elim disjE conjE)
    assume "x = written rm (db_orders db) ord"
    then show ?thesis using assms(2) k by simp
  next
    assume "x \<in> set (db_orders db)" "ord_id x \<noteq> ord_id (written rm (db_orders db) ord)"
    then show ?thesis using assms(3) k unfolding gone_def written_fields by blast
  qed
qed

lemma merge_child_Inr:
  assumes "merge_child rm i c db = Inr db'"
  shows "order_keys db' = order_keys db" and "gone (ord_id c) db'" and "gone k db \<Longrightarrow> gone k db'"
proof -
  let ?c = "c\<lparr>ord_deleted := True, ord_deleted_at := Some (rm_now rm)\<rparr>"
  obtain db1 where s: "save_order rm ?c (db\<lparr>db_items :=
        fold (merge_item i) (filter (\<lambda>x. it_order_id x = ord_id c) (db_items db)) (db_items db)\<rparr>) = Inr db1"
    and r: "Inr (removeOrderFromSearch rm (ord_id c) db1) = (Inr db' :: rpc_error + order_db)"
    using assms unfolding merge_child_def Let_def rbind_Inr by blast
  have db': "db' = removeOrderFromSearch rm (ord_id c) db1" using r by simp
  show "order_keys db' = order_keys db" using save_order_keys [OF s] db' by (simp add: removeOrderFromSearch_def)
  show "gone (ord_id c) db'" using save_order_gone [OF s, of "ord_id c"] db' by (simp add: gone_def removeOrderFromSearch_def)
  show "gone k db \<Longrightarrow> gone k db'" using save_order_gone [OF s, of k] db' by (simp add: gone_def removeOrderFromSearch_def)
qed

lemma rfold_merge_child:
  assumes "rfold (merge_child rm i) cs db = Inr db'"
  shows "order_keys db' = order_keys db \<and> (\<forall>k. gone k db \<or> k \<in> ord_id ` set cs \<longrightarrow> gone k db')"
  using assms
proof (induction cs arbitrary: db)
  case (Cons c cs)
  then obtain db1 where d: "merge_child rm i c db = Inr db1" "rfold (merge_child rm i) cs db1 = Inr db'"
    by (auto simp: result_simps simp del: rbind.simps)
  from Cons.IH [OF d(2)] merge_child_Inr [OF d(1)] show ?case by auto
qed simp

lemma mergePartialChildrenBack_Inr:
  assumes "mergePartialChildrenBack rm ord db = Inr db'"
  shows "order_keys db' = order_keys db"
    and "c \<in> set (partial_children (ord_id ord) db) \<Longrightarrow> ord_id c \<noteq> ord_id ord \<Longrightarrow> gone (ord_id c) db'"
proof -
  have "order_keys db' = order_keys db \<and>
      (c \<in> set (partial_children (ord_id ord) db) \<longrightarrow> ord_id c \<noteq> ord_id ord \<longrightarrow> gone (ord_id c) db')"
  proof (cases "partial_children (ord_id ord) db = []")
    case False
    let ?m = "ord\<lparr>ord_total_price := ord_total_price ord + (\<Sum>x\<leftarrow>partial_children (ord_id ord) db. ord_total_price x),
       ord_product_quantity := ord_product_quantity ord + (\<Sum>x\<leftarrow>partial_children (ord_id ord) db. ord_product_quantity x)\<rparr>"
    obtain db1 db2 where d: "rfold (merge_child rm (ord_id ord)) (partial_children (ord_id ord) db) db = Inr db1"
      "save_order rm ?m db1 = Inr db2" and r: "Inr (syncOrderToSearch rm ?m db2) = (Inr db' :: rpc_error + order_db)"
      using assms unfolding mergePartialChildrenBack_def Let_def if_not_P [OF False] rbind_Inr by blast
    have "db' = syncOrderToSearch rm ?m db2" using r by simp
    then have db': "db_orders db' = db_orders db2" by (simp add: syncOrderToSearch_def)
    have keys: "order_keys db' = order_keys db"
      using rfold_merge_child [OF d(1)] save_order_keys [OF d(2)] db' by simp
    have "gone (ord_id c) db'" if "c \<in> set (partial_children (ord_id ord) db)" "ord_id c \<noteq> ord_id ord"
    proof -
      have "gone (ord_id c) db1" using rfold_merge_child [OF d(1)] that(1) by blast
      then have "gone (ord_id c) db2" using that(2) by (intro save_order_gone [OF d(2)]) simp_all
      then show ?thesis unfolding gone_def db' .
    qed
    with keys show ?thesis by blast
  qed (use assms in \<open>simp add: mergePartialChildrenBack_def\<close>)
  then show "order_keys db' = order_keys db"
    "c \<in> set (partial_children (ord_id ord) db) \<Longrightarrow> ord_id c \<noteq> ord_id ord \<Longrightarrow> gone (ord_id c) db'" by blast+
qed

lemma corrections_orders [simp]:
  "db_orders (sale_corrections rm rq i ep p actor mx ax fs db) = db_orders db"
  "db_orders (cancel_corrections rm rq ep ord actor mx ax db) = db_orders db"
  by (simp_all add: sale_corrections_def cancel_corrections_def Let_def)

lemma commit_rollback_merge:
  assumes c: "commit_rollback rm rq i req p box mx ax fs db = Inr dbc" and f: "findById i db = Inr (rb_order p)"
  obtains db4 db5 new where "db_orders db4 = db_orders db" "mergePartialChildrenBack rm (rb_order p) db4 = Inr db5"
    "prepare_update rm (rollback_dto rq (rb_target p) (rb_order p)) rq (rb_order p) = Inr new"
    "db_orders dbc = save_row ord_id (written rm (db_orders db5) new) (db_orders db5)"
proof -
  let ?ep = "resolveDedupEpoch (rm_now rm) req" and ?a = "if box then Some (rollback_actor rq p) else None"
  let ?d = "rollback_dto rq (rb_target p) (rb_order p)"
  let ?nt = "Some (''Rollback to '' @ target_name (rb_target p))"
  obtain db5 where m: "mergePartialChildrenBack rm (rb_order p) (sale_corrections rm rq i ?ep p ?a mx ax fs db) = Inr db5"
    and u: "updateFull_tx rm i ?d rq ?nt db (cancel_corrections rm rq ?ep (rb_order p) ?a mx ax db5) = Inr dbc"
    using c unfolding commit_rollback_def Let_def rbind_Inr by blast
  have "d_items ?d = None" by (simp add: rollback_dto_def empty_dto_def)
  with u obtain old new where o: "findById i db = Inr old" "prepare_update rm ?d rq old = Inr new"
    "writeOrderChanges rm ?d rq ?nt old new (cancel_corrections rm rq ?ep (rb_order p) ?a mx ax db5) = Inr dbc"
    by (rule updateFull_tx_Inr)
  have "old = rb_order p" using o(1) f by simp
  then show thesis by (intro that [OF _ m]) (use o(2) writeOrderChanges_Inr(1) [OF o(3)] in simp_all)
qed

text \<open>
  C33. Rolling back a partly sold order merges its unsold children into it, but the price of the
  order afterwards is that of the sold part alone: the final write starts from the row as it was
  before the merge. The children are deleted, so their value is on no order any more.
\<close>

theorem rollback_drops_merged_price:
  assumes undo: "rollbackOrderToWaiting rm rq i ts req (db, fs) = (Inr (), db', fs')"
    and f: "findById i db = Inr ord" and sold: "ord_status ord \<in> set soldStates" and wf: "om.wf n (db_orders db)"
  shows "\<exists>row. findById i db' = Inr row \<and> ord_status row = WAITING \<and> ord_total_price row = ord_total_price ord
     \<and> (\<forall>c\<in>set (partial_children i db). gone (ord_id c) db')"
proof -
  from undo obtain p dbc box mx ax where pa: "rollback_parties rm rq i ts db fs = Inr p"
    and cr: "commit_rollback rm rq i req p box mx ax fs' db = Inr dbc" and db': "db_orders db' = db_orders dbc"
    by (rule rollback_Inr) simp
  note pb = rollback_parties_Inr [OF pa]
  have ro: "rb_order p = ord" using pb(1) f by simp
  from cr pb(1) obtain db4 db5 new where d4: "db_orders db4 = db_orders db"
    and m: "mergePartialChildrenBack rm (rb_order p) db4 = Inr db5"
    and b: "prepare_update rm (rollback_dto rq (rb_target p) (rb_order p)) rq (rb_order p) = Inr new"
    and w: "db_orders dbc = save_row ord_id (written rm (db_orders db5) new) (db_orders db5)"
    by (rule commit_rollback_merge)
  note bk = prepare_update_Inr [OF b]
  have target: "rb_target p = To_waiting"
    using commit_rollback_refused [OF pb(1), of rm rq req box mx ax fs'] sold cr by (auto simp: ro)
  let ?row = "written rm (db_orders db5) new"
  have row: "ord_id ?row = i" "\<not> ord_deleted ?row" "ord_deleted_at ?row = None" "ord_status ?row = WAITING"
      "ord_total_price ?row = ord_total_price ord"
    using bk(1,2,4,10) findById_Inr [OF f] target by (simp_all add: ro rollback_dto_def dflt_def empty_dto_def)
  have "order_keys db5 = order_keys db" using mergePartialChildrenBack_Inr(1) [OF m] d4 by simp
  then have "i \<in> ord_id ` set (db_orders db5)" using findById_key [OF f] by (metis list.set_map)
  then have fd: "findById i db' = Inr ?row" by (rule findById_save) (use row w db' in simp_all)
  have "gone (ord_id c) db'" if c: "c \<in> set (partial_children i db)" for c
  proof -
    have "c \<in> set (db_orders db)" "ord_status c = CANCELLED \<or> ord_status c = WAITING"
      using c by (simp_all add: partial_children_def)
    moreover have "c \<noteq> ord" using calculation(2) sold by auto
    ultimately have ne: "ord_id c \<noteq> i"
      using om.mem_unique [OF wf, of c ord] findById_Inr [OF f] by metis
    have "c \<in> set (partial_children (ord_id (rb_order p)) db4)"
      using c d4 findById_Inr [OF f] by (simp add: partial_children_def ro)
    with ne have "gone (ord_id c) db5"
      using mergePartialChildrenBack_Inr(2) [OF m] findById_Inr [OF f] by (simp add: gone_def ro)
    then show ?thesis unfolding gone_def db' w using ne row(1) om.mem_save by metis
  qed
  with fd row(4,5) show ?thesis by blast
qed

definition demo_sold_part :: order where
  "demo_sold_part = demo_hq_order\<lparr>ord_status := SOLD, ord_market_tariff := Some 3, ord_courier_share := Some 1, ord_to_be_paid := 1\<rparr>"

definition demo_unsold_part :: order where
  "demo_unsold_part = demo_hq_order\<lparr>ord_id := ''501'', ord_parent_order_id := Some ''500'', ord_status := CANCELLED,
     ord_total_price := 2\<rparr>"

definition demo_family :: order_db where
  "demo_family = demo_orders\<lparr>db_orders := [demo_sold_part, demo_unsold_part]\<rparr>"

lemma demo_family_undo:
  obtains db' fs' where "rollbackOrderToWaiting demo_remote demo_courier_requester ''500'' None None
    (demo_family, demo_sale_finance) = (Inr (), db', fs')"
proof -
  have "fst (rollbackOrderToWaiting demo_remote demo_courier_requester ''500'' None None (demo_family, demo_sale_finance)) = Inr ()"
    by code_simp
  then show thesis using that by (rule fst_result)
qed

theorem rollback_drops_merged_price_witness:
  "\<exists>db' fs' row. rollbackOrderToWaiting demo_remote demo_courier_requester ''500'' None None (demo_family, demo_sale_finance)
        = (Inr (), db', fs')
     \<and> findById ''500'' db' = Inr row \<and> ord_total_price row = 4 \<and> gone ''501'' db'"
proof -
  obtain db' fs' where ok: "rollbackOrderToWaiting demo_remote demo_courier_requester ''500'' None None
      (demo_family, demo_sale_finance) = (Inr (), db', fs')" by (rule demo_family_undo)
  have h: "findById ''500'' demo_family = Inr demo_sold_part" "ord_status demo_sold_part \<in> set soldStates"
    "ord_total_price demo_sold_part = 4" "map ord_id (db_orders demo_family) = [string_of_nat 500, string_of_nat 501]" by code_simp+
  have "\<forall>x\<in>set (db_orders demo_family). ord_id x = string_of_nat 500 \<or> ord_id x = string_of_nat 501"
    using h(4) by (metis (no_types, lifting) empty_iff empty_set image_eqI list.set_map set_ConsD)
  moreover have small: "(500::nat) < 502" "(501::nat) < 502" by simp_all
  ultimately have "\<exists>j<502. ord_id x = string_of_nat j" if "x \<in> set (db_orders demo_family)" for x
    using that small by blast
  moreover have "distinct (map ord_id (db_orders demo_family))" unfolding h(4) by simp
  ultimately have wf: "om.wf 502 (db_orders demo_family)" unfolding om.wf_def by blast
  have "map ord_id (partial_children ''500'' demo_family) = [''501'']" by code_simp
  then have "''501'' \<in> ord_id ` set (partial_children ''500'' demo_family)" by (metis list.set_intros(1) list.set_map)
  then obtain c where c: "c \<in> set (partial_children ''500'' demo_family)" "''501'' = ord_id c" by (rule imageE)
  obtain row where row: "findById ''500'' db' = Inr row" "ord_total_price row = ord_total_price demo_sold_part"
    "\<forall>c\<in>set (partial_children ''500'' demo_family). gone (ord_id c) db'"
    using rollback_drops_merged_price [OF ok h(1,2) wf] by blast
  have "ord_total_price row = 4" "gone ''501'' db'" using row(2,3) h(3) c by simp_all
  then show ?thesis using ok row(1) by blast
qed

end
