(* ===== verification/Order_Partial.thy ===== *)
theory Order_Partial
  imports Order_Rollback
begin

text \<open>
  Selling part of an order: \<open>partlySellOrder\<close> of
  \<open>apps/order-service/src/lifecycle/order-lifecycle.service.ts\<close>. The order keeps what was sold, at the
  price of the request; what was not sold becomes a cancelled child order that points to it.

  The settlement, the cashbox legs and the final write are those of a sale of the order at the
  partial price, so the definitions of the sale are applied to the order with that price. The six
  random characters of the child's token are an argument.
\<close>

record partial_dto =
  pd_items :: "(ident \<times> jsnum) list"
  pd_totalPrice :: jsnum
  pd_extraCost :: jsnum
  pd_comment :: "string option"
  pd_proofFileKeys :: "string list"
  pd_verified :: bool

subsection \<open>Items\<close>

definition order_items :: "ident \<Rightarrow> order_db \<Rightarrow> order_item list" where
  "order_items i db = filter (\<lambda>x. it_order_id x = i) (db_items db)"

definition requested_quantity :: "(ident \<times> money) list \<Rightarrow> ident \<Rightarrow> money option" where
  "requested_quantity req p = map_option snd (find (\<lambda>x. fst x = p) req)"

text \<open>Every quantity is finite and not negative.\<close>

fun read_quantities :: "(ident \<times> jsnum) list \<Rightarrow> rpc_error + (ident \<times> money) list" where
  "read_quantities [] = Inr []"
| "read_quantities ((p, q) # xs) =
     (case q of
        Num r \<Rightarrow> if r < 0 then Inl (badRequest ''Item quantity must be a non-negative number'')
                 else rbind (read_quantities xs) (\<lambda>ys. Inr ((p, r) # ys))
      | _ \<Rightarrow> Inl (badRequest ''Item quantity must be a non-negative number''))"

fun check_items :: "(ident \<times> money) list \<Rightarrow> order_item list \<Rightarrow> rpc_error + unit" where
  "check_items req [] = Inr ()"
| "check_items req (x # xs) =
     (case requested_quantity req (it_product_id x) of
        None \<Rightarrow> Inl (notFound (''Product not found in request: '' @ it_product_id x))
      | Some q \<Rightarrow>
          if q > of_int (it_quantity x)
          then Inl (badRequest (''Quantity cannot exceed original amount for product '' @ it_product_id x))
          else check_items req xs)"

definition check_products :: "(ident \<times> money) list \<Rightarrow> order_item list \<Rightarrow> rpc_error + unit" where
  "check_products req items =
     (case find (\<lambda>r. \<not> list_ex (\<lambda>x. it_product_id x = fst r) items) req of
        Some r \<Rightarrow> Inl (notFound (''Product not found in order: '' @ fst r))
      | None \<Rightarrow> Inr ())"

text \<open>What stays with the order, and what goes to the child, of one item.\<close>

definition kept_quantity :: "(ident \<times> money) list \<Rightarrow> order_item \<Rightarrow> money" where
  "kept_quantity req x =
     (case requested_quantity req (it_product_id x) of
        Some q \<Rightarrow> if q < of_int (it_quantity x) then q else of_int (it_quantity x)
      | None \<Rightarrow> of_int (it_quantity x))"

definition cancelledItems :: "(ident \<times> money) list \<Rightarrow> order_item list \<Rightarrow> (ident \<times> money) list" where
  "cancelledItems req items =
     filter (\<lambda>(_, d). d > 0) (map (\<lambda>x. (it_product_id x, of_int (it_quantity x) - kept_quantity req x)) items)"

text \<open>
  Saving the reduced quantities: the column is an integer, and a fraction fails the transaction.
\<close>

definition reduce_items :: "ident \<Rightarrow> (ident \<times> money) list \<Rightarrow> order_db \<Rightarrow> rpc_error + order_db" where
  "reduce_items i req db =
     (if list_all (\<lambda>x. is_whole (kept_quantity req x)) (order_items i db)
      then Inr (db\<lparr>db_items := map (\<lambda>x. if it_order_id x = i then x\<lparr>it_quantity := \<lfloor>kept_quantity req x\<rfloor>\<rparr> else x)
                     (db_items db)\<rparr>)
      else Inl (badRequest ''Noto'g'ri formatdagi qiymat yuborildi''))"

subsection \<open>The plan of a partial sale\<close>

definition at_price :: "money \<Rightarrow> parties \<Rightarrow> parties" where
  "at_price x p = p\<lparr>pa_order := (pa_order p)\<lparr>ord_total_price := x\<rparr>\<rparr>"

definition plan_partly ::
  "remote \<Rightarrow> partial_dto \<Rightarrow> money \<Rightarrow> parties \<Rightarrow> ident option \<Rightarrow> finance \<Rightarrow> rpc_error + sale_plan" where
  "plan_partly rm dto price p branch fs =
     (let ord = pa_order p;
          branchShare = resolveBranchShare rm branch;
          marketTariff = dflt (ord_market_tariff ord)
            (tariff (ord_where_deliver ord) (mk_tariff_center (pa_market p)) (mk_tariff_home (pa_market p)));
          courierTariff = dflt (ord_courier_tariff ord)
            (tariff (ord_where_deliver ord) (ac_tariff_center (pa_financial_actor p)) (ac_tariff_home (pa_financial_actor p)));
          courierShare = resolveSaleActorShare (pa_manager p) (ac_compensation_mode (pa_financial_actor p)) courierTariff;
          extraCost = extra_cost (pd_extraCost dto)
      in
      rbind (enforceOperationProof rm (Some (pa_market p)) Act_sell extraCost price (pd_proofFileKeys dto) False
               (pd_verified dto)) (\<lambda>proofFiles.
      let finalComment = generateSaleComment (ord_comment ord) (pd_comment dto) extraCost [''Buyurtma arzonroqqa sotildi!''];
          branchNet = price - courierShare - branchShare;
          netToBePaid = max (price - marketTariff) 0;
          paid = settle_payment netToBePaid (ord_paid_amount ord) (pa_market_balance p)
      in Inr \<lparr>sp_branch = branch,
             sp_branch_box = (case branch of None \<Rightarrow> False | Some b \<Rightarrow> getCashboxByUser b C_BRANCH fs \<noteq> None),
             sp_market_tariff = marketTariff, sp_courier_tariff = courierTariff,
             sp_courier_share = courierShare, sp_branch_share = branchShare, sp_branch_net = branchNet,
             sp_branch_amount = resolveBranchCashboxSaleAmount price branchNet (pa_manager p),
             sp_extra = extraCost, sp_proof = proofFiles, sp_comment = finalComment,
             sp_sale_comment = (if price = 0 then ''0 so'mlik mahsulot qisman sotuvi''
                else if price < marketTariff then show_money price @ '' so'mlik mahsulot qisman sotuvi''
                else finalComment),
             sp_net_to_be_paid = netToBePaid, sp_paid = fst paid, sp_status = snd paid\<rparr>))"

text \<open>The checks of the items and the branch of the child order.\<close>

definition check_partly ::
  "requester \<Rightarrow> ident \<Rightarrow> partial_dto \<Rightarrow> parties \<Rightarrow> order_db \<Rightarrow> rpc_error + (ident \<times> money) list \<times> ident" where
  "check_partly rq i dto p db =
     (let ord = pa_order p; items = order_items i db in
      rbind (read_quantities (pd_items dto)) (\<lambda>req.
      rbind (require ((\<Sum>x\<leftarrow>req. snd x) \<le> of_int (\<Sum>x\<leftarrow>items. it_quantity x))
               (badRequest ''Partly sell quantity cannot exceed original quantity'')) (\<lambda>_.
      rbind (check_items req items) (\<lambda>_.
      rbind (check_products req items) (\<lambda>_.
      rbind (require (cancelledItems req items \<noteq> [])
               (badRequest ''Qisman sotishda kamida bitta mahsulot soni kamaytirilishi kerak'')) (\<lambda>_.
      let branch = trim (str_or_empty (keep (ord_holder_branch_id ord) (keep (ord_branch_id ord)
                     (keep (ord_home_branch_id ord) (rq_branch_id rq)))))
      in rbind (require (branch \<noteq> []) (badRequest ''Qisman bekor qilingan order uchun branch aniqlanmadi'')) (\<lambda>_.
           Inr (req, branch))))))))"

subsection \<open>partlySellOrder\<close>

definition partly_dto :: "remote \<Rightarrow> money \<Rightarrow> parties \<Rightarrow> sale_plan \<Rightarrow> order_dto" where
  "partly_dto rm price p pl = (sold_dto rm p pl)\<lparr>
     d_sold_at := Some (keep (ord_sold_at (pa_order p)) (Some (rm_now rm))),
     d_total_price := Some price, d_return_requested := Some False\<rparr>"

definition cancelled_child ::
  "remote \<Rightarrow> string \<Rightarrow> requester \<Rightarrow> parties \<Rightarrow> money \<Rightarrow> (ident \<times> money) list \<Rightarrow> ident \<Rightarrow> ident \<Rightarrow> order" where
  "cancelled_child rm rand rq p price unsold branch i =
     (let ord = pa_order p; courier = (if pa_manager p then None else Some (pa_actor p));
          (t, b, c) = resolveHolderFromState rm (Some branch) courier
      in \<lparr>ord_id = i, ord_market_id = ord_market_id ord, ord_customer_id = ord_customer_id ord,
          ord_product_quantity = \<lfloor>\<Sum>x\<leftarrow>unsold. snd x\<rfloor>, ord_where_deliver = ord_where_deliver ord,
          ord_total_price = max (ord_total_price ord - price) 0, ord_market_tariff = None, ord_courier_tariff = None,
          ord_courier_share = None, ord_branch_share = None, ord_branch_cashbox_amount = None, ord_to_be_paid = 0,
          ord_paid_amount = 0, ord_status = CANCELLED, ord_comment = Some ''Qisman bekor qilingan mahsulotlar'',
          ord_operator = ord_operator ord, ord_operator_id = ord_operator_id ord, ord_post_id = ord_post_id ord,
          ord_canceled_post_id = None, ord_return_requested = False, ord_proof_files = None, ord_sold_at = None,
          ord_district_id = ord_district_id ord, ord_region_id = ord_region_id ord, ord_branch_id = Some branch,
          ord_home_branch_id = keep (ord_home_branch_id ord) (ord_branch_id ord), ord_current_batch_id = None,
          ord_courier_id = courier,
          ord_assigned_at = (if courier = None \<or> courier = Some [] then None else keep (ord_assigned_at ord) (Some (rm_now rm))),
          ord_holder_type = t, ord_holder_branch_id = b, ord_holder_courier_id = c,
          ord_last_handover_at = Some (rm_now rm), ord_last_handover_by = Some (str_or_empty (rq_id rq)),
          ord_return_reason = None, ord_address = ord_address ord,
          ord_qr_code_token = Some (''CANCEL-'' @ string_of_nat (nat (rm_now rm)) @ ''-'' @ rand),
          ord_parent_order_id = Some (ord_id ord), ord_external_id = None, ord_source = ord_source ord,
          ord_deleted = False, ord_deleted_at = None, ord_created_at = rm_now rm, ord_updated_at = rm_now rm\<rparr>)"

definition insert_child ::
  "remote \<Rightarrow> requester \<Rightarrow> (ident \<times> money) list \<Rightarrow> order \<Rightarrow> order_db \<Rightarrow> order_db" where
  "insert_child rm rq unsold child db =
     syncOrderToSearch rm child (db\<lparr>
       db_orders := db_orders db @ [child], db_order_seq := Suc (db_order_seq db),
       db_items := db_items db @ map (\<lambda>(p, q). \<lparr>it_order_id = ord_id child, it_product_id = p, it_quantity = \<lfloor>q\<rfloor>\<rparr>) unsold,
       db_tracking := db_tracking db @ [createTrackingEvent (ord_id child) None CANCELLED (str_or_empty (rq_id rq))
          (toTrackingRole (rq_roles rq)) None None (Some ''Partly-sell unsold items canceled'')],
       db_custody := db_custody db @
         [\<lparr>cu_order_id = ord_id child, cu_from_holder_type = None, cu_to_holder_type = ord_holder_type child,
           cu_from_branch_id = None, cu_to_branch_id = ord_holder_branch_id child, cu_from_courier_id = None,
           cu_to_courier_id = ord_holder_courier_id child, cu_changed_by = str_or_empty (rq_id rq),
           cu_changed_by_role = toTrackingRole (rq_roles rq),
           cu_note = Some ''Partly-sell canceled items custody assigned''\<rparr>]\<rparr>)"

definition set_quantity :: "ident \<Rightarrow> money \<Rightarrow> order_db \<Rightarrow> rpc_error + order_db" where
  "set_quantity i q db =
     (if is_whole q
      then Inr (db\<lparr>db_orders := update_where (\<lambda>x. ord_id x = i) (\<lambda>x. x\<lparr>ord_product_quantity := \<lfloor>q\<rfloor>\<rparr>) (db_orders db)\<rparr>)
      else Inl (badRequest ''Noto'g'ri formatdagi qiymat yuborildi''))"

definition commit_partly ::
  "remote \<Rightarrow> string \<Rightarrow> requester \<Rightarrow> ident \<Rightarrow> string option \<Rightarrow> parties \<Rightarrow> sale_plan \<Rightarrow> money \<Rightarrow> (ident \<times> money) list
   \<Rightarrow> ident \<Rightarrow> order_db \<Rightarrow> rpc_error + order_db" where
  "commit_partly rm rand rq i requestId p pl price req branch db =
     (let unsold = cancelledItems req (order_items i db) in
      rbind (lockWaitingOrder i db) (\<lambda>_.
      rbind (reduce_items i req db) (\<lambda>db0.
      let ord = pa_order p;
          db1 = post_legs rm (ord_id ord) rq (resolveDedupEpoch (rm_now rm) requestId)
                  (sale_legs_of rq (at_price price p) pl) db0;
          db2 = (if sp_extra pl > 0
                 then emit rm ''FINANCE'' ''finance.financial_balance.record''
                        (Ev_ledger (extra_ledger F_SELL_EXTRA_COST '' sell extra cost'' ord (sp_extra pl))) db1
                 else db1)
      in
      rbind (updateFull_tx rm i (partly_dto rm price p pl) rq (Some ''Order partly sold'') db db2) (\<lambda>db3.
      rbind (set_quantity i (\<Sum>x\<leftarrow>req. snd x) db3) (\<lambda>db4.
        let db5 = db4\<lparr>db_settlements := recordSaleSettlement (rm_now rm) (sale_settlement_of (at_price price p) pl) (db_settlements db4)\<rparr>
        in Inr (insert_child rm rq unsold
                  (cancelled_child rm rand rq p price unsold branch (string_of_nat (db_order_seq db))) db5))))))"

text \<open>The price is read between the resolution of the actor and the lookups of the other parties.\<close>

definition partly_price :: "partial_dto \<Rightarrow> rpc_error + money" where
  "partly_price dto =
     rbind (require (pd_items dto \<noteq> []) (badRequest ''order_item_info is required'')) (\<lambda>_.
       case pd_totalPrice dto of
         Num price \<Rightarrow> if price < 0 then Inl (badRequest ''totalPrice must be a non-negative number'') else Inr price
       | _ \<Rightarrow> Inl (badRequest ''totalPrice must be a non-negative number''))"

definition partlySellOrder ::
  "remote \<Rightarrow> string \<Rightarrow> requester \<Rightarrow> ident \<Rightarrow> partial_dto \<Rightarrow> string option \<Rightarrow> order_db \<times> finance
   \<Rightarrow> (rpc_error + unit) \<times> order_db \<times> finance" where
  "partlySellOrder rm rand rq i dto requestId = (\<lambda>(db, fs).
     case rbind (sale_actor rm rq i db) (\<lambda>oa.
          rbind (partly_price dto) (\<lambda>price.
          rbind (parties_of rm rq fs oa) (\<lambda>p. Inr (p, price)))) of
       Inl e \<Rightarrow> (Inl e, db, fs)
     | Inr (p, price) \<Rightarrow>
         let branch = resolveSettlementBranchId rm (pa_order p);
             fs1 = (case branch of None \<Rightarrow> fs | Some b \<Rightarrow> ensureBranchCashbox b fs)
         in
         case rbind (plan_partly rm dto price p branch fs1) (\<lambda>pl.
              rbind (check_partly rq i dto p db) (\<lambda>(req, childBranch).
                commit_partly rm rand rq i requestId p pl price req childBranch db)) of
           Inl e \<Rightarrow> (Inl e, db, fs1)
         | Inr db' \<Rightarrow>
             (Inr (), log_order (audit_row ''Order'' (ord_id (pa_order p)) ''order.partly_sell'' (nonempty_or_null (rq_id rq))) db', fs1))"

subsection \<open>No goods are lost\<close>

definition qty :: "ident \<Rightarrow> ident \<Rightarrow> order_item list \<Rightarrow> int" where
  "qty i p items = (\<Sum>x\<leftarrow>items. if it_order_id x = i \<and> it_product_id x = p then it_quantity x else 0)"

lemma qty_append [simp]: "qty i p (xs @ ys) = qty i p xs + qty i p ys"
  by (simp add: qty_def)

lemma qty_none: "(\<And>x. x \<in> set items \<Longrightarrow> it_order_id x \<noteq> i) \<Longrightarrow> qty i p items = 0"
  by (induction items) (simp_all add: qty_def)

lemma kept_le: "kept_quantity req x \<le> of_int (it_quantity x)"
  by (simp add: kept_quantity_def split: option.split)

definition unsold_item :: "ident \<Rightarrow> ident \<times> money \<Rightarrow> order_item" where
  "unsold_item k = (\<lambda>(p, q). \<lparr>it_order_id = k, it_product_id = p, it_quantity = \<lfloor>q\<rfloor>\<rparr>)"

text \<open>What the reduced items and the child's items hold of a product is what the items held.\<close>

lemma items_split:
  assumes "\<And>x. x \<in> set items \<Longrightarrow> it_order_id x = i \<Longrightarrow> is_whole (kept_quantity req x)"
    and "k \<noteq> i" and "\<And>x. x \<in> set items \<Longrightarrow> it_order_id x \<noteq> k"
  shows "qty i p (map (\<lambda>x. if it_order_id x = i then x\<lparr>it_quantity := \<lfloor>kept_quantity req x\<rfloor>\<rparr> else x) items)
       + qty k p (map (unsold_item k) (cancelledItems req (filter (\<lambda>x. it_order_id x = i) items)))
       = qty i p items"
  using assms
proof (induction items)
  case (Cons x xs)
  show ?case
  proof (cases "it_order_id x = i")
    case True
    then have w: "of_int \<lfloor>kept_quantity req x\<rfloor> = kept_quantity req x"
      using Cons.prems(1) [of x] by (simp add: is_whole_def)
    then have "\<lfloor>of_int (it_quantity x) - kept_quantity req x\<rfloor> = it_quantity x - \<lfloor>kept_quantity req x\<rfloor>"
      by (metis floor_of_int of_int_diff)
    moreover have "kept_quantity req x = of_int (it_quantity x)" if "\<not> 0 < of_int (it_quantity x) - kept_quantity req x"
      using kept_le [of req x] that by simp
    moreover have "\<lfloor>of_int (it_quantity x) :: rat\<rfloor> = it_quantity x" by simp
    ultimately show ?thesis
      using Cons True by (auto simp: qty_def cancelledItems_def unsold_item_def)
  next
    case False
    then show ?thesis using Cons by (auto simp: qty_def cancelledItems_def)
  qed
qed (simp add: qty_def cancelledItems_def)

lemma emit_custody [simp]: "db_custody (emit rm tg pat e db) = db_custody db" "db_order_seq (emit rm tg pat e db) = db_order_seq db"
  by (simp_all add: emit_def)

lemma post_legs_items [simp]:
  "db_items (post_legs rm k rq ep legs db) = db_items db" "db_order_seq (post_legs rm k rq ep legs db) = db_order_seq db"
proof -
  have "db_items (post_legs rm k rq ep legs db) = db_items db \<and> db_order_seq (post_legs rm k rq ep legs db) = db_order_seq db"
    unfolding post_legs_def by (induction legs arbitrary: db) (simp_all add: updateCashboxBalance_def)
  then show "db_items (post_legs rm k rq ep legs db) = db_items db"
    "db_order_seq (post_legs rm k rq ep legs db) = db_order_seq db" by blast+
qed

lemma tables_items [simp]:
  "db_items (write_tracking rm d rq nt old ord db) = db_items db" "db_items (syncOrderToSearch rm ord db) = db_items db"
  "db_items (enqueueFinanceOnStatusChange rm ord st db) = db_items db"
  by (simp_all add: write_tracking_def syncOrderToSearch_def enqueueFinanceOnStatusChange_def Let_def)

lemma writeOrderChanges_items:
  assumes "writeOrderChanges rm d rq nt old ord db = Inr db'"
  shows "db_items db' = db_items db"
proof -
  obtain db1 where s: "save_order rm ord db = Inr db1"
    using assms by (cases "save_order rm ord db") (simp_all add: writeOrderChanges_def)
  then have "db_items db1 = db_items db" by (auto simp: save_order_def split: if_splits)
  moreover have "db_items db' = db_items db1"
    using assms unfolding writeOrderChanges_def s rbind.simps Let_def sum.inject by (rule subst) simp
  ultimately show ?thesis by simp
qed

lemma partly_Inr:
  assumes "partlySellOrder rm rand rq i dto req (db, fs) = (Inr (), db', fs')"
  obtains p price pl want branch dbc where "findById i db = Inr (pa_order p)" "ord_status (pa_order p) = WAITING"
    "partly_price dto = Inr price" "plan_partly rm dto price p (resolveSettlementBranchId rm (pa_order p)) fs' = Inr pl"
    "check_partly rq i dto p db = Inr (want, branch)" "commit_partly rm rand rq i req p pl price want branch db = Inr dbc"
    "db' = log_order (audit_row ''Order'' (ord_id (pa_order p)) ''order.partly_sell'' (nonempty_or_null (rq_id rq))) dbc"
proof -
  let ?start = "rbind (sale_actor rm rq i db) (\<lambda>oa.
          rbind (partly_price dto) (\<lambda>price. rbind (parties_of rm rq fs oa) (\<lambda>p. Inr (p, price))))"
  obtain p price where st: "?start = Inr (p, price)"
    using assms by (cases ?start) (auto simp: partlySellOrder_def)
  then obtain ord actor where a: "sale_actor rm rq i db = Inr (ord, actor)" "partly_price dto = Inr price"
      "parties_of rm rq fs (ord, actor) = Inr p"
    by (auto simp: result_simps simp del: rbind.simps)
  let ?b = "resolveSettlementBranchId rm (pa_order p)"
  let ?fs = "case ?b of None \<Rightarrow> fs | Some b \<Rightarrow> ensureBranchCashbox b fs"
  let ?run = "rbind (plan_partly rm dto price p ?b ?fs) (\<lambda>pl.
      rbind (check_partly rq i dto p db) (\<lambda>(want, branch). commit_partly rm rand rq i req p pl price want branch db))"
  have run: "partlySellOrder rm rand rq i dto req (db, fs) =
     (case ?run of Inl e \<Rightarrow> (Inl e, db, ?fs)
      | Inr db' \<Rightarrow> (Inr (), log_order (audit_row ''Order'' (ord_id (pa_order p)) ''order.partly_sell''
                    (nonempty_or_null (rq_id rq))) db', ?fs))"
    unfolding partlySellOrder_def prod.case st sum.case Let_def by (rule refl)
  obtain dbc where c: "?run = Inr dbc" using assms unfolding run by (auto split: sum.splits)
  then obtain pl want branch where "plan_partly rm dto price p ?b ?fs = Inr pl" "check_partly rq i dto p db = Inr (want, branch)"
      "commit_partly rm rand rq i req p pl price want branch db = Inr dbc"
    by (auto simp: result_simps simp del: rbind.simps)
  moreover have "fs' = ?fs" "db' = log_order (audit_row ''Order'' (ord_id (pa_order p)) ''order.partly_sell''
      (nonempty_or_null (rq_id rq))) dbc" using assms unfolding run c by auto
  moreover have "findById i db = Inr (pa_order p)" "ord_status (pa_order p) = WAITING"
    using sale_actor_Inr [OF a(1)] parties_of_Inr(1) [OF a(3)] by simp_all
  ultimately show thesis using that [of p price pl want branch dbc] a(2) by metis
qed

text \<open>The transaction of a partial sale: the items, the row it writes and the child it inserts.\<close>

lemma commit_partly_Inr:
  assumes c: "commit_partly rm rand rq i req p pl price want branch db = Inr dbc" and f: "findById i db = Inr (pa_order p)"
  obtains new rows1 where "prepare_update rm (partly_dto rm price p pl) rq (pa_order p) = Inr new"
    "rows1 = save_row ord_id (written rm (db_orders db) new) (db_orders db)"
    "db_orders dbc = update_where (\<lambda>x. ord_id x = i) (\<lambda>x. x\<lparr>ord_product_quantity := \<lfloor>\<Sum>x\<leftarrow>want. snd x\<rfloor>\<rparr>) rows1
       @ [cancelled_child rm rand rq p price (cancelledItems want (order_items i db)) branch (string_of_nat (db_order_seq db))]"
    "list_all (\<lambda>x. is_whole (kept_quantity want x)) (order_items i db)"
    "db_items dbc = map (\<lambda>x. if it_order_id x = i then x\<lparr>it_quantity := \<lfloor>kept_quantity want x\<rfloor>\<rparr> else x) (db_items db)
       @ map (unsold_item (string_of_nat (db_order_seq db))) (cancelledItems want (order_items i db))"
proof -
  let ?child = "cancelled_child rm rand rq p price (cancelledItems want (order_items i db)) branch (string_of_nat (db_order_seq db))"
  obtain db0 db3 db4 where r: "reduce_items i want db = Inr db0"
    and u: "updateFull_tx rm i (partly_dto rm price p pl) rq (Some ''Order partly sold'') db
      (let db1 = post_legs rm (ord_id (pa_order p)) rq (resolveDedupEpoch (rm_now rm) req) (sale_legs_of rq (at_price price p) pl) db0
       in if sp_extra pl > 0 then emit rm ''FINANCE'' ''finance.financial_balance.record''
                        (Ev_ledger (extra_ledger F_SELL_EXTRA_COST '' sell extra cost'' (pa_order p) (sp_extra pl))) db1
          else db1) = Inr db3"
    and q: "set_quantity i (\<Sum>x\<leftarrow>want. snd x) db3 = Inr db4"
    and d: "Inr (insert_child rm rq (cancelledItems want (order_items i db)) ?child
         (db4\<lparr>db_settlements := recordSaleSettlement (rm_now rm) (sale_settlement_of (at_price price p) pl) (db_settlements db4)\<rparr>))
       = (Inr dbc :: rpc_error + order_db)"
    using c unfolding commit_partly_def Let_def rbind_Inr by blast
  have w: "list_all (\<lambda>x. is_whole (kept_quantity want x)) (order_items i db)"
    and db0: "db0 = db\<lparr>db_items := map (\<lambda>x. if it_order_id x = i then x\<lparr>it_quantity := \<lfloor>kept_quantity want x\<rfloor>\<rparr> else x) (db_items db)\<rparr>"
    using r by (simp_all add: reduce_items_def split: if_splits)
  have "d_items (partly_dto rm price p pl) = None" by (simp add: partly_dto_def sold_dto_def empty_dto_def)
  from u this obtain old new where o: "findById i db = Inr old" "prepare_update rm (partly_dto rm price p pl) rq old = Inr new"
    "writeOrderChanges rm (partly_dto rm price p pl) rq (Some ''Order partly sold'') old new
      (let db1 = post_legs rm (ord_id (pa_order p)) rq (resolveDedupEpoch (rm_now rm) req) (sale_legs_of rq (at_price price p) pl) db0
       in if sp_extra pl > 0 then emit rm ''FINANCE'' ''finance.financial_balance.record''
                        (Ev_ledger (extra_ledger F_SELL_EXTRA_COST '' sell extra cost'' (pa_order p) (sp_extra pl))) db1
          else db1) = Inr db3" by (rule updateFull_tx_Inr)
  have old: "old = pa_order p" using o(1) f by simp
  have rows3: "db_orders db3 = save_row ord_id (written rm (db_orders db) new) (db_orders db)"
    and items3: "db_items db3 = db_items db0"
    using writeOrderChanges_Inr(1) [OF o(3)] writeOrderChanges_items [OF o(3)]
    by (simp_all add: Let_def post_legs_effect db0 split: if_splits)
  have db4: "db4 = db3\<lparr>db_orders := update_where (\<lambda>x. ord_id x = i) (\<lambda>x. x\<lparr>ord_product_quantity := \<lfloor>\<Sum>x\<leftarrow>want. snd x\<rfloor>\<rparr>) (db_orders db3)\<rparr>"
    using q by (simp add: set_quantity_def split: if_splits)
  have cid: "ord_id ?child = string_of_nat (db_order_seq db)" by (simp add: cancelled_child_def Let_def split: prod.split)
  have dbc: "dbc = insert_child rm rq (cancelledItems want (order_items i db)) ?child
         (db4\<lparr>db_settlements := recordSaleSettlement (rm_now rm) (sale_settlement_of (at_price price p) pl) (db_settlements db4)\<rparr>)"
    using d by simp
  show thesis
    by (rule that [OF o(2) [unfolded old] refl _ w])
      (simp_all add: dbc insert_child_def syncOrderToSearch_def db4 rows3 items3 db0 unsold_item_def cid)
qed

lemma settle_payment_sold: "snd (settle_payment net requested bal) \<in> set soldStates"
  by (simp add: settle_payment_def Let_def)

lemma plan_partly_status:
  assumes "plan_partly rm dto price p b fs = Inr pl"
  shows "sp_status pl \<in> set soldStates"
proof -
  obtain net where "sp_status pl = snd (settle_payment net (ord_paid_amount (pa_order p)) (pa_market_balance p))"
    using assms unfolding plan_partly_def Let_def rbind_Inr by (metis (no_types, lifting) sale_plan.select_convs(15) sum.inject(2))
  then show ?thesis using settle_payment_sold by simp
qed

lemma partly_row:
  assumes "prepare_update rm (partly_dto rm price p pl) rq (pa_order p) = Inr new"
  shows "ord_status new = sp_status pl" and "ord_total_price new = price"
  using prepare_update_Inr(2,10) [OF assms] by (simp_all add: partly_dto_def sold_dto_def dflt_def)

lemma child_fields [simp]:
  "ord_id (cancelled_child rm rand rq p price unsold branch k) = k"
  "ord_status (cancelled_child rm rand rq p price unsold branch k) = CANCELLED"
  "ord_parent_order_id (cancelled_child rm rand rq p price unsold branch k) = Some (ord_id (pa_order p))"
  "ord_total_price (cancelled_child rm rand rq p price unsold branch k) = max (ord_total_price (pa_order p) - price) 0"
  "\<not> ord_deleted (cancelled_child rm rand rq p price unsold branch k)"
  "ord_deleted_at (cancelled_child rm rand rq p price unsold branch k) = None"
  by (simp_all add: cancelled_child_def Let_def split: prod.split)

lemma findById_append:
  "findById i db = Inr ord \<Longrightarrow> db_orders db' = db_orders db @ [r] \<Longrightarrow> findById i db' = Inr ord"
  by (simp add: findById_def find_or_Inr find_append_Some)

lemma findById_fresh:
  assumes "db_orders db' = rs @ [r]" and "\<And>x. x \<in> set rs \<Longrightarrow> ord_id x \<noteq> ord_id r" and "\<not> ord_deleted r" "ord_deleted_at r = None"
  shows "findById (ord_id r) db' = Inr r"
proof -
  have "find (\<lambda>x. ord_id x = ord_id r \<and> \<not> ord_deleted x \<and> ord_deleted_at x = None) rs = None"
    using assms(2) by (simp add: find_None_all)
  then show ?thesis using assms(1,3,4) by (simp add: findById_def find_or_Inr find_append_None)
qed

lemma findById_update_where:
  assumes "findById i db = Inr ord" and "db_orders db' = update_where (\<lambda>x. ord_id x = i) (\<lambda>x. x\<lparr>ord_product_quantity := q\<rparr>) (db_orders db)"
  shows "findById i db' = Inr (ord\<lparr>ord_product_quantity := q\<rparr>)"
proof -
  let ?P = "\<lambda>x. ord_id x = i \<and> \<not> ord_deleted x \<and> ord_deleted_at x = None"
  let ?f = "\<lambda>x. if ord_id x = i then x\<lparr>ord_product_quantity := q\<rparr> else x"
  have "find ?P (map ?f (db_orders db)) = map_option ?f (find ?P (db_orders db))"
    by (rule find_map_stable) simp
  moreover have "find ?P (db_orders db) = Some ord" using assms(1) by (simp add: findById_def find_or_Inr)
  moreover have "ord_id ord = i" using findById_Inr [OF assms(1)] by simp
  ultimately show ?thesis by (simp add: findById_def find_or_Inr assms(2) update_where_def)
qed

lemma not_imageI: "(\<And>x. x \<in> A \<Longrightarrow> f x \<noteq> k) \<Longrightarrow> k \<notin> f ` A"
  by blast

lemma not_imageD: "k \<notin> f ` A \<Longrightarrow> x \<in> A \<Longrightarrow> f x \<noteq> k"
  by blast

text \<open>When a partial sale goes through.\<close>

definition partly_ready :: "remote \<Rightarrow> requester \<Rightarrow> ident \<Rightarrow> partial_dto \<Rightarrow> order_db \<Rightarrow> finance \<Rightarrow> bool" where
  "partly_ready rm rq i dto db fs =
     (lockWaitingOrder i db = Inr () \<and>
      (case rbind (sale_actor rm rq i db) (\<lambda>oa. rbind (partly_price dto) (\<lambda>price.
            rbind (parties_of rm rq fs oa) (\<lambda>p. Inr (p, price)))) of Inl _ \<Rightarrow> False
       | Inr (p, price) \<Rightarrow>
          (let b = resolveSettlementBranchId rm (pa_order p) in
           case plan_partly rm dto price p b (case b of None \<Rightarrow> fs | Some b \<Rightarrow> ensureBranchCashbox b fs) of Inl _ \<Rightarrow> False
           | Inr pl \<Rightarrow> is_whole (sp_net_to_be_paid pl) \<and> is_whole (sp_paid pl) \<and>
              (case check_partly rq i dto p db of Inl _ \<Rightarrow> False
               | Inr (req, _) \<Rightarrow> list_all (\<lambda>x. is_whole (kept_quantity req x)) (order_items i db)
                   \<and> is_whole (\<Sum>x\<leftarrow>req. snd x)))))"

lemma commit_partly_runs:
  assumes "findById i db = Inr (pa_order p)" "ord_status (pa_order p) = WAITING" "lockWaitingOrder i db = Inr ()"
    and "sp_status pl \<in> set soldStates" "is_whole (sp_net_to_be_paid pl)" "is_whole (sp_paid pl)"
    and "list_all (\<lambda>x. is_whole (kept_quantity req x)) (order_items i db)" "is_whole (\<Sum>x\<leftarrow>req. snd x)"
  shows "\<exists>dbc. commit_partly rm rand rq i rid p pl price req branch db = Inr dbc"
proof -
  have d: "d_items (partly_dto rm price p pl) = None" "d_status (partly_dto rm price p pl) = Some (sp_status pl)"
    "d_to_be_paid (partly_dto rm price p pl) = Some (sp_net_to_be_paid pl)"
    "d_paid_amount (partly_dto rm price p pl) = Some (sp_paid pl)"
    by (simp_all add: partly_dto_def sold_dto_def empty_dto_def)
  have u: "\<exists>db3. updateFull_tx rm i (partly_dto rm price p pl) rq nt db db2 = Inr db3" for nt db2
    by (rule updateFull_tx_ok [OF assms(1) d(1)])
      (use assms(2,4-6) d in \<open>auto simp: dflt_def isValidStatusTransition_def\<close>)
  have r: "\<exists>db0. reduce_items i req db = Inr db0" and q: "\<exists>db4. set_quantity i (\<Sum>x\<leftarrow>req. snd x) db3 = Inr db4" for db3
    using assms(7,8) by (simp_all add: reduce_items_def set_quantity_def)
  show ?thesis unfolding commit_partly_def assms(3) rbind.simps Let_def
    by (rule rbind_ok [OF r], rule rbind_ok [OF u], rule rbind_ok [OF q]) (rule exI, rule refl)
qed

lemma partly_ready_runs:
  assumes "partly_ready rm rq i dto db fs"
  obtains db' fs' where "partlySellOrder rm rand rq i dto rid (db, fs) = (Inr (), db', fs')"
proof -
  let ?m = "rbind (sale_actor rm rq i db) (\<lambda>oa. rbind (partly_price dto) (\<lambda>price.
            rbind (parties_of rm rq fs oa) (\<lambda>p. Inr (p, price))))"
  obtain p price where m: "?m = Inr (p, price)" using assms by (cases ?m) (auto simp: partly_ready_def)
  then obtain ord actor where a: "sale_actor rm rq i db = Inr (ord, actor)" "parties_of rm rq fs (ord, actor) = Inr p"
    by (auto simp: result_simps simp del: rbind.simps)
  let ?b = "resolveSettlementBranchId rm (pa_order p)"
  let ?fs = "case ?b of None \<Rightarrow> fs | Some b \<Rightarrow> ensureBranchCashbox b fs"
  obtain pl where pl: "plan_partly rm dto price p ?b ?fs = Inr pl"
    using assms m by (cases "plan_partly rm dto price p ?b ?fs") (simp_all add: partly_ready_def Let_def)
  obtain req br where c: "check_partly rq i dto p db = Inr (req, br)"
    using assms m pl by (cases "check_partly rq i dto p db") (auto simp: partly_ready_def Let_def)
  have g: "lockWaitingOrder i db = Inr ()" "is_whole (sp_net_to_be_paid pl)" "is_whole (sp_paid pl)"
    "list_all (\<lambda>x. is_whole (kept_quantity req x)) (order_items i db)" "is_whole (\<Sum>x\<leftarrow>req. snd x)"
    using assms m pl c by (simp_all add: partly_ready_def Let_def)
  have f: "findById i db = Inr (pa_order p)" "ord_status (pa_order p) = WAITING"
    using sale_actor_Inr(1,2) [OF a(1)] parties_of_Inr(1) [OF a(2)] by simp_all
  obtain dbc where "commit_partly rm rand rq i rid p pl price req br db = Inr dbc"
    using commit_partly_runs [OF f g(1) plan_partly_status [OF pl] g(2-5)] by blast
  then show thesis
    using that unfolding partlySellOrder_def prod.case m sum.case Let_def pl rbind.simps c by simp
qed


definition demo_home_order :: order where
  "demo_home_order = demo_hq_order\<lparr>ord_home_branch_id := Some ''1''\<rparr>"

definition demo_basket :: order_db where
  "demo_basket = demo_orders\<lparr>db_orders := [demo_home_order], db_items := [\<lparr>it_order_id = ''500'', it_product_id = ''a'', it_quantity = 2\<rparr>]\<rparr>"

definition demo_partial :: partial_dto where
  "demo_partial = \<lparr>pd_items = [(''a'', Num 1)], pd_totalPrice = Num 3, pd_extraCost = Num 0, pd_comment = None,
     pd_proofFileKeys = [], pd_verified = False\<rparr>"

lemma demo_partial_ok:
  obtains db' fs' where "partlySellOrder demo_remote ''x'' demo_courier_requester ''500'' demo_partial None
    (demo_basket, demo_sale_finance) = (Inr (), db', fs')"
proof -
  have "partly_ready demo_remote demo_courier_requester ''500'' demo_partial demo_basket demo_sale_finance" by code_simp
  then show thesis by (rule partly_ready_runs) (rule that)
qed


end
