(* ===== verification/Idempotency.thy ===== *)
theory Idempotency
  imports Elchi_Prelude
begin

text \<open>
  Message handling in \<open>libs/common/src/idempotency\<close> and \<open>libs/common/src/rmq\<close>: the
  idempotency-key table with its lease, the acknowledgement policy of a failed message, and the
  wrapper \<open>executeIdempotent\<close> around a business handler. A handler is a function on the service's
  state that returns the new state and a reply or an exception; the broker's reaction to a
  message is the value the wrapper returns with it.
\<close>

text \<open>What a handler may throw: an \<open>RpcException\<close>, or any other error.\<close>

datatype exn = RpcExn rpc_error | OtherExn string

text \<open>\<open>channel.ack\<close>, \<open>nack(requeue)\<close>, \<open>nack\<close> to the dead-letter queue.\<close>

datatype ack_action = Ack | Requeue | DeadLetter

datatype IdempotencyStatus = In_progress | Completed | Key_failed

record 'r idem_row =
  k_key :: string
  k_pattern :: string
  k_status :: IdempotencyStatus
  k_response :: "'r option"
  k_error :: "rpc_error option"
  k_created_at :: time
  k_completed_at :: "time option"

datatype 'r acquire = Acq_new | Acq_cached "'r option" | Acq_in_progress | Acq_failed "rpc_error option"

abbreviation DEFAULT_IDEMPOTENCY_LEASE_MS :: time where
  "DEFAULT_IDEMPOTENCY_LEASE_MS \<equiv> 30000"

subsection \<open>RmqService and executeAndAck\<close>

definition nackForError :: "bool \<Rightarrow> exn \<Rightarrow> ack_action" where
  "nackForError wasRedelivered e =
     (case e of RpcExn _ \<Rightarrow> DeadLetter
      | OtherExn _ \<Rightarrow> if wasRedelivered then DeadLetter else Requeue)"

definition executeAndAck :: "bool \<Rightarrow> 's \<times> (exn + 'r) \<Rightarrow> 's \<times> (exn + 'r) \<times> ack_action" where
  "executeAndAck redelivered out =
     (case out of
        (s, Inr r) \<Rightarrow> (s, Inr r, Ack)
      | (s, Inl e) \<Rightarrow> (s, Inl e, nackForError redelivered e))"

subsection \<open>IdempotencyService\<close>

definition tryAcquire ::
  "time \<Rightarrow> time \<Rightarrow> string \<Rightarrow> string \<Rightarrow> 'r idem_row list \<Rightarrow> 'r idem_row list \<times> 'r acquire" where
  "tryAcquire now leaseMs key pattern rows =
     (case find (\<lambda>r. k_key r = key) rows of
        None \<Rightarrow>
          (rows @ [\<lparr>k_key = key, k_pattern = pattern, k_status = In_progress, k_response = None,
                    k_error = None, k_created_at = now, k_completed_at = None\<rparr>], Acq_new)
      | Some existing \<Rightarrow>
          (case k_status existing of
             Completed \<Rightarrow> (rows, Acq_cached (k_response existing))
           | Key_failed \<Rightarrow> (rows, Acq_failed (k_error existing))
           | In_progress \<Rightarrow>
               let cutoff = now - leaseMs in
               if k_created_at existing < cutoff
               then (update_where
                       (\<lambda>r. k_key r = key \<and> k_status r = In_progress \<and> k_created_at r < cutoff)
                       (\<lambda>r. r\<lparr>k_created_at := now\<rparr>) rows, Acq_new)
               else (rows, Acq_in_progress)))"

definition markCompleted :: "time \<Rightarrow> string \<Rightarrow> 'r \<Rightarrow> 'r idem_row list \<Rightarrow> 'r idem_row list" where
  "markCompleted now key response =
     update_where (\<lambda>r. k_key r = key)
       (\<lambda>r. r\<lparr>k_status := Completed, k_response := Some response, k_completed_at := Some now\<rparr>)"

definition markKeyFailed :: "time \<Rightarrow> string \<Rightarrow> rpc_error \<Rightarrow> 'r idem_row list \<Rightarrow> 'r idem_row list" where
  "markKeyFailed now key err =
     update_where (\<lambda>r. k_key r = key)
       (\<lambda>r. r\<lparr>k_status := Key_failed, k_error := Some err, k_completed_at := Some now\<rparr>)"

definition prune :: "time \<Rightarrow> time \<Rightarrow> 'r idem_row list \<Rightarrow> 'r idem_row list" where
  "prune now olderThanMs = filter (\<lambda>r. \<not> k_created_at r < now - olderThanMs)"

subsection \<open>executeIdempotent\<close>

text \<open>
  A delivery of a message: when, whether the broker marks it redelivered, the request id and the
  key namespace, and the payload for the handler.
\<close>

record 'a delivery =
  d_now :: time
  d_redelivered :: bool
  d_request_id :: "string option"
  d_pattern :: string
  d_key_prefix :: "string option"
  d_payload :: 'a

definition delivery_key :: "'a delivery \<Rightarrow> string" where
  "delivery_key d =
     (case d_key_prefix d of Some p \<Rightarrow> p | None \<Rightarrow> d_pattern d) @ '':'' @ str_or_empty (d_request_id d)"

text \<open>The error payload that is stored: that of an \<open>RpcException\<close>, or the message.\<close>

definition error_payload :: "exn \<Rightarrow> rpc_error" where
  "error_payload e = (case e of RpcExn err \<Rightarrow> err | OtherExn m \<Rightarrow> Rpc 0 m)"

type_synonym ('s, 'r) idem_state = "'r idem_row list \<times> 's"

definition executeIdempotent ::
  "('a \<Rightarrow> 's \<Rightarrow> 's \<times> (exn + 'r)) \<Rightarrow> 'a delivery \<Rightarrow> ('s, 'r) idem_state
   \<Rightarrow> ('s, 'r) idem_state \<times> (exn + 'r option) \<times> ack_action" where
  "executeIdempotent handler d = (\<lambda>(rows, s).
     if \<not> truthy (d_request_id d)
     then (case executeAndAck (d_redelivered d) (handler (d_payload d) s) of
             (s', Inr r, a) \<Rightarrow> ((rows, s'), Inr (Some r), a)
           | (s', Inl e, a) \<Rightarrow> ((rows, s'), Inl e, a))
     else let key = delivery_key d in
       case tryAcquire (d_now d) DEFAULT_IDEMPOTENCY_LEASE_MS key (d_pattern d) rows of
         (rows1, Acq_cached response) \<Rightarrow> ((rows1, s), Inr response, Ack)
       | (rows1, Acq_failed err) \<Rightarrow>
           ((rows1, s), Inl (RpcExn (case err of Some x \<Rightarrow> x | None \<Rightarrow> Rpc 0 [])), Ack)
       | (rows1, Acq_in_progress) \<Rightarrow> ((rows1, s), Inl (OtherExn ''in_progress''), Requeue)
       | (rows1, Acq_new) \<Rightarrow>
           (case handler (d_payload d) s of
              (s', Inr r) \<Rightarrow> ((markCompleted (d_now d) key r rows1, s'), Inr (Some r), Ack)
            | (s', Inl e) \<Rightarrow>
                ((markKeyFailed (d_now d) key (error_payload e) rows1, s'), Inl e,
                 nackForError (d_redelivered d) e)))"

text \<open>
  A worker that dies between reserving the key and recording the outcome: the reservation stays,
  with whatever the handler had committed.
\<close>

definition crash_during :: "'a delivery \<Rightarrow> 's \<Rightarrow> ('s, 'r) idem_state \<Rightarrow> ('s, 'r) idem_state" where
  "crash_during d s' = (\<lambda>(rows, s).
     (fst (tryAcquire (d_now d) DEFAULT_IDEMPOTENCY_LEASE_MS (delivery_key d) (d_pattern d) rows), s'))"

subsection \<open>The contract\<close>

text \<open>A key is settled when its row is completed or failed.\<close>

definition settled :: "('s, 'r) idem_state \<Rightarrow> string \<Rightarrow> bool" where
  "settled st key \<longleftrightarrow>
     (case find (\<lambda>r. k_key r = key) (fst st) of
        None \<Rightarrow> False | Some r \<Rightarrow> k_status r \<noteq> In_progress)"

definition idem_step ::
  "('a \<Rightarrow> 's \<Rightarrow> 's \<times> (exn + 'r)) \<Rightarrow> ('s, 'r) idem_state \<Rightarrow> 'a delivery \<Rightarrow> ('s, 'r) idem_state" where
  "idem_step handler st d = fst (executeIdempotent handler d st)"

definition delivery_rkey :: "'a delivery \<Rightarrow> string option" where
  "delivery_rkey d = (if truthy (d_request_id d) then Some (delivery_key d) else None)"

lemma find_update_key:
  "(\<And>r. k_key (f r) = k_key r) \<Longrightarrow>
   find (\<lambda>r. k_key r = key) (update_where P f rows) =
     map_option (\<lambda>r. if P r then f r else r) (find (\<lambda>r. k_key r = key) rows)"
  unfolding update_where_def by (rule find_map_stable) auto

lemma find_after_mark:
  "find (\<lambda>r. k_key r = key) (markCompleted now k x rows) =
     map_option (\<lambda>r. if k_key r = k then r\<lparr>k_status := Completed, k_response := Some x,
       k_completed_at := Some now\<rparr> else r) (find (\<lambda>r. k_key r = key) rows)"
  "find (\<lambda>r. k_key r = key) (markKeyFailed now k e rows) =
     map_option (\<lambda>r. if k_key r = k then r\<lparr>k_status := Key_failed, k_error := Some e,
       k_completed_at := Some now\<rparr> else r) (find (\<lambda>r. k_key r = key) rows)"
  by (simp_all add: markCompleted_def markKeyFailed_def find_update_key)

lemma tryAcquire_new:
  assumes "tryAcquire now lease key p rows = (rows1, Acq_new)"
  shows "find (\<lambda>r. k_key r = key) rows1 \<noteq> None
    \<and> (find (\<lambda>r. k_key r = key) rows = None
       \<or> (\<exists>r. find (\<lambda>r. k_key r = key) rows = Some r \<and> k_status r = In_progress
             \<and> k_created_at r < now - lease))"
  using assms
  by (auto simp: tryAcquire_def Let_def find_append_None find_update_key
      split: option.splits IdempotencyStatus.splits if_splits)

lemma tryAcquire_other:
  assumes "settled (rows, s) k"
  shows "settled (fst (tryAcquire now lease key p rows), s') k"
  using assms
  by (auto simp: settled_def tryAcquire_def Let_def find_append_Some find_update_key
      split: option.splits IdempotencyStatus.splits if_splits)

lemma tryAcquire_state: "snd (tryAcquire now lease key p rows) \<noteq> Acq_new \<Longrightarrow>
    fst (tryAcquire now lease key p rows) = rows"
  by (auto simp: tryAcquire_def Let_def split: option.splits IdempotencyStatus.splits if_splits)

lemma settled_mark:
  "settled (rows, s) k \<Longrightarrow> settled (markCompleted now key x rows, s') k"
  "settled (rows, s) k \<Longrightarrow> settled (markKeyFailed now key e rows, s') k"
  by (auto simp: settled_def find_after_mark split: option.splits)

lemma settled_key_mark:
  assumes "find (\<lambda>r. k_key r = key) rows \<noteq> None"
  shows "settled (markCompleted now key x rows, s) key" "settled (markKeyFailed now key e rows, s) key"
  using assms by (auto simp: settled_def find_after_mark split: option.splits dest: find_Some_mem)

lemma settled_acquire:
  "settled (rows, s) key \<Longrightarrow> tryAcquire now lease key p rows = (rows1, a) \<Longrightarrow> rows1 = rows \<and> a \<noteq> Acq_new"
  by (auto simp: settled_def tryAcquire_def split: option.splits IdempotencyStatus.splits)

interpretation idem: at_most_once
  "idem_step handler" delivery_rkey "settled :: ('s, 'r) idem_state \<Rightarrow> string \<Rightarrow> bool" "\<lambda>_. True"
  for handler :: "'a \<Rightarrow> 's \<Rightarrow> 's \<times> (exn + 'r)"
proof unfold_locales
  fix st :: "('s, 'r) idem_state" and d :: "'a delivery" and k
  assume "delivery_rkey d = Some k" and "settled st k"
  then show "idem_step handler st d = st"
    by (cases st)
      (auto simp: idem_step_def executeIdempotent_def delivery_rkey_def Let_def
        dest: settled_acquire split: if_splits prod.splits acquire.splits)
next
  fix st :: "('s, 'r) idem_state" and d :: "'a delivery" and k
  assume k: "delivery_rkey d = Some k" and ne: "idem_step handler st d \<noteq> st"
  obtain rows s where st: "st = (rows, s)" by (cases st)
  obtain rows1 a where acq:
    "tryAcquire (d_now d) DEFAULT_IDEMPOTENCY_LEASE_MS k (d_pattern d) rows = (rows1, a)" by fastforce
  have "a = Acq_new"
    using ne k acq tryAcquire_state [of "d_now d" DEFAULT_IDEMPOTENCY_LEASE_MS k "d_pattern d" rows]
    by (cases a) (auto simp: st idem_step_def executeIdempotent_def delivery_rkey_def Let_def
        split: if_splits)
  with acq k tryAcquire_new [of "d_now d" DEFAULT_IDEMPOTENCY_LEASE_MS k "d_pattern d" rows rows1]
  show "settled (idem_step handler st d) k"
    by (auto simp: st idem_step_def executeIdempotent_def delivery_rkey_def Let_def
        intro: settled_key_mark split: if_splits prod.splits sum.splits)
next
  fix st :: "('s, 'r) idem_state" and d :: "'a delivery" and k
  assume s: "settled st k"
  obtain rows s where st: "st = (rows, s)" by (cases st)
  obtain rows1 a where acq: "tryAcquire (d_now d) DEFAULT_IDEMPOTENCY_LEASE_MS (delivery_key d)
      (d_pattern d) rows = (rows1, a)" by fastforce
  have same: "settled (rows, s') k" for s' using s st by (simp add: settled_def)
  have sa: "settled (rows1, s') k" for s'
    using tryAcquire_other [OF same] acq by (metis fst_conv)
  show "settled (idem_step handler st d) k"
    using same sa settled_mark [OF sa] acq
    by (auto simp: st idem_step_def executeIdempotent_def executeAndAck_def Let_def
        split: prod.splits sum.splits acquire.splits)
qed simp

text \<open>A recorded outcome is never overwritten.\<close>

definition outcome :: "('s, 'r) idem_state \<Rightarrow> string \<Rightarrow> 'r idem_row \<Rightarrow> bool" where
  "outcome st k r \<longleftrightarrow> find (\<lambda>x. k_key x = k) (fst st) = Some r \<and> k_status r \<noteq> In_progress"

lemma outcome_settled: "outcome st k r \<Longrightarrow> settled st k"
  by (simp add: outcome_def settled_def)

lemma outcome_acquire:
  assumes "outcome (rows, s) k r" and "tryAcquire now lease key p rows = (rows1, a)"
  shows "outcome (rows1, s') k r" and "a = Acq_new \<Longrightarrow> key \<noteq> k"
  using assms find_Some_mem [of "\<lambda>x. k_key x = k" rows r]
  by (auto simp: outcome_def tryAcquire_def Let_def find_append_Some find_update_key
      split: option.splits IdempotencyStatus.splits if_splits)

lemma outcome_mark:
  assumes "outcome (rows, s) k r" and "key \<noteq> k"
  shows "outcome (markCompleted now key x rows, s') k r" "outcome (markKeyFailed now key e rows, s') k r"
  using assms find_Some_mem [of "\<lambda>x. k_key x = k" rows r]
  by (auto simp: outcome_def find_after_mark)

lemma outcome_step: "outcome st k r \<Longrightarrow> outcome (idem_step handler st d) k r"
proof -
  assume o: "outcome st k r"
  obtain rows s where st: "st = (rows, s)" by (cases st)
  have same: "outcome (rows, s') k r" for s' using o st by (simp add: outcome_def)
  obtain rows1 a where acq: "tryAcquire (d_now d) DEFAULT_IDEMPOTENCY_LEASE_MS (delivery_key d)
      (d_pattern d) rows = (rows1, a)" by fastforce
  note oa = outcome_acquire [OF o [unfolded st] acq]
  show ?thesis
    using same oa acq
    by (auto simp: st idem_step_def executeIdempotent_def executeAndAck_def Let_def
        intro: outcome_mark [OF oa(1)] split: prod.splits sum.splits acquire.splits)
qed

lemma outcome_run: "outcome st k r \<Longrightarrow> outcome (foldl (idem_step handler) st ds) k r"
  by (induction ds arbitrary: st) (simp_all add: outcome_step)

lemma outcome_reply:
  assumes "outcome st (delivery_key d) r" and "truthy (d_request_id d)"
  shows "executeIdempotent handler d st =
     (st, (if k_status r = Completed then Inr (k_response r)
           else Inl (RpcExn (case k_error r of Some x \<Rightarrow> x | None \<Rightarrow> Rpc 0 []))), Ack)"
  using assms
  by (cases st) (auto simp: outcome_def executeIdempotent_def tryAcquire_def Let_def
      split: IdempotencyStatus.splits)

text \<open>The outcome that a handler run records.\<close>

lemma outcome_of_run:
  assumes "truthy (d_request_id d)"
    and "tryAcquire (d_now d) DEFAULT_IDEMPOTENCY_LEASE_MS (delivery_key d) (d_pattern d) rows
         = (rows1, Acq_new)"
    and "handler (d_payload d) s = (s', res)"
  shows "\<exists>r. outcome (idem_step handler (rows, s) d) (delivery_key d) r
    \<and> (case res of Inr x \<Rightarrow> k_status r = Completed \<and> k_response r = Some x
        | Inl e \<Rightarrow> k_status r = Key_failed \<and> k_error r = Some (error_payload e))"
proof -
  from tryAcquire_new [OF assms(2)] obtain r where
    r: "find (\<lambda>x. k_key x = delivery_key d) rows1 = Some r" by blast
  then have "k_key r = delivery_key d" using find_Some_mem by fastforce
  then show ?thesis
    using assms r
    by (auto simp: idem_step_def executeIdempotent_def outcome_def find_after_mark Let_def
        split: sum.split)
qed

subsection \<open>Properties\<close>


text \<open>A concrete handler: it adds its payload to a counter and rejects zero as transient.\<close>

definition demo_handler :: "int \<Rightarrow> int \<Rightarrow> int \<times> (exn + int)" where
  "demo_handler n s = (if n = 0 then (s, Inl (OtherExn ''busy'')) else (s + n, Inr (s + n)))"

definition demo_delivery :: "time \<Rightarrow> string \<Rightarrow> int \<Rightarrow> int delivery" where
  "demo_delivery t rid n = \<lparr>d_now = t, d_redelivered = False, d_request_id = Some rid,
     d_pattern = ''order.sell'', d_key_prefix = None, d_payload = n\<rparr>"

lemmas demo_defs = demo_handler_def demo_delivery_def delivery_rkey_def delivery_key_def
  idem_step_def executeIdempotent_def tryAcquire_def markCompleted_def markKeyFailed_def
  update_where_def nackForError_def error_payload_def Let_def


text \<open>
  C27. Every delivery of a request gets the reply of its first run. If the handler returned a
  value, each later delivery is acknowledged with that value; if it threw, each later delivery is
  acknowledged with the stored error and the handler is not run again, even when the first
  failure was transient and the message had been requeued for a retry.
\<close>

theorem reply_of_first_run:
  assumes "truthy (d_request_id d)"
    and "tryAcquire (d_now d) DEFAULT_IDEMPOTENCY_LEASE_MS (delivery_key d) (d_pattern d) (fst st)
         = (rows1, Acq_new)"
    and "handler (d_payload d) (snd st) = (s', res)"
    and "truthy (d_request_id d')" and "delivery_key d' = delivery_key d"
  shows "executeIdempotent handler d' (foldl (idem_step handler) (idem_step handler st d) ds) =
     (foldl (idem_step handler) (idem_step handler st d) ds,
      (case res of Inr x \<Rightarrow> Inr (Some x) | Inl e \<Rightarrow> Inl (RpcExn (error_payload e))), Ack)"
proof -
  obtain rows s where st: "st = (rows, s)" by (cases st)
  from outcome_of_run [of d rows rows1 handler s s' res] assms(1-3) st
  obtain r where o: "outcome (idem_step handler st d) (delivery_key d) r"
    and r: "case res of Inr x \<Rightarrow> k_status r = Completed \<and> k_response r = Some x
      | Inl e \<Rightarrow> k_status r = Key_failed \<and> k_error r = Some (error_payload e)"
    by auto
  from outcome_run [OF o, of handler ds]
  have "outcome (foldl (idem_step handler) (idem_step handler st d) ds) (delivery_key d') r"
    by (simp add: assms(5))
  from outcome_reply [OF this assms(4), of handler] r show ?thesis
    by (auto split: sum.splits)
qed

theorem reply_of_first_run_witness:
  "executeIdempotent demo_handler (demo_delivery 5 ''a'' 0)
     (foldl (idem_step demo_handler) (idem_step demo_handler ([], 100) (demo_delivery 0 ''a'' 0)) [])
   = (idem_step demo_handler ([], 100) (demo_delivery 0 ''a'' 0), Inl (RpcExn (Rpc 0 ''busy'')), Ack)
   \<and> snd (snd (executeIdempotent demo_handler (demo_delivery 0 ''a'' 0) ([], 100))) = Requeue"
proof -
  let ?d = "demo_delivery 0 ''a'' 0" and ?d' = "demo_delivery 5 ''a'' 0"
  let ?row = "\<lparr>k_key = ''order.sell:a'', k_pattern = ''order.sell'', k_status = In_progress,
      k_response = None :: int option, k_error = None, k_created_at = 0, k_completed_at = None\<rparr>"
  have h: "truthy (d_request_id ?d)" "truthy (d_request_id ?d')" "delivery_key ?d' = delivery_key ?d"
    by (simp_all add: demo_defs)
  have a: "tryAcquire (d_now ?d) DEFAULT_IDEMPOTENCY_LEASE_MS (delivery_key ?d) (d_pattern ?d)
      (fst ([], 100 :: int)) = ([?row], Acq_new)" by (simp add: demo_defs)
  have r: "demo_handler (d_payload ?d) (snd ([] :: int idem_row list, 100))
      = (100, Inl (OtherExn ''busy''))" by (simp add: demo_defs)
  from reply_of_first_run [of ?d "([], 100)" _ demo_handler, OF h(1) a r h(2,3), of "[]"]
  show ?thesis by (simp add: demo_defs)
qed

text \<open>
  C28. A crashed worker does not poison its request: while its lease runs, a redelivery is put
  back on the queue and changes nothing; once the lease of thirty seconds has passed, the next
  delivery reclaims the key and runs the handler.
\<close>

theorem crash_then_lease:
  assumes "truthy (d_request_id d)" and "delivery_key d' = delivery_key d"
    and "truthy (d_request_id d')"
    and "find (\<lambda>r. k_key r = delivery_key d) rows = None"
  shows "if d_now d' \<le> d_now d + 30000
    then executeIdempotent handler d' (crash_during d s' (rows, s)) =
           (crash_during d s' (rows, s), Inl (OtherExn ''in_progress''), Requeue)
    else snd (idem_step handler (crash_during d s' (rows, s)) d') = fst (handler (d_payload d') s')
         \<and> settled (idem_step handler (crash_during d s' (rows, s)) d') (delivery_key d)"
  using assms
  by (auto simp: crash_during_def executeIdempotent_def tryAcquire_def find_append_None Let_def
      idem_step_def settled_def find_update_key find_after_mark split: prod.splits sum.splits)

theorem crash_then_lease_witness:
  "snd (idem_step demo_handler
          (crash_during (demo_delivery 0 ''a'' 5) 100 ([], 100)) (demo_delivery 30001 ''a'' 5)) = 105
   \<and> snd (snd (executeIdempotent demo_handler (demo_delivery 30000 ''a'' 5)
          (crash_during (demo_delivery 0 ''a'' 5) 100 ([], 100)))) = Requeue"
proof -
  let ?d = "demo_delivery 0 ''a'' 5" and ?l = "demo_delivery 30001 ''a'' 5"
    and ?e = "demo_delivery 30000 ''a'' 5"
  have h: "truthy (d_request_id ?d)" "delivery_key ?l = delivery_key ?d" "truthy (d_request_id ?l)"
    "delivery_key ?e = delivery_key ?d" "truthy (d_request_id ?e)"
    "find (\<lambda>r. k_key r = delivery_key ?d) ([] :: int idem_row list) = None"
    by (simp_all add: demo_defs)
  have n: "d_now ?l = 30001" "d_now ?e = 30000" "d_now ?d = 0" "d_payload ?l = 5"
    by (simp_all add: demo_defs)
  from crash_then_lease [OF h(1,2,3,6), of demo_handler 100 100]
    crash_then_lease [OF h(1,4,5,6), of demo_handler 100 100] n
  show ?thesis by (simp add: demo_handler_def)
qed

end
