(* ===== verification/Cashbox_Transfers.thy ===== *)
theory Cashbox_Transfers
  imports Cashbox
begin

text \<open>
  The lump-sum transfers of \<open>apps/finance-service/src/finance-service.service.ts\<close>: courier to main
  or branch (\<open>paymentsFromCourier\<close>), branch to main (\<open>paymentFromBranchToMain\<close>) and main to market
  (\<open>paymentsToMarket\<close>), each with its duplicate check, its cashbox legs and the settlement event
  it enqueues in the same transaction; the order payments derived from a market transfer
  (\<open>applyPaymentToOrders\<close>); and the reachable states of the finance tables under all of them.

  An entity the code loads is a copy of its row, and saving it writes that copy back, so two
  copies of one row would lose an update; the model keeps this. The calls made after the commit
  (the immediate publish and the order sync) are outputs of the operation.
\<close>

record transfer_dto =
  t_party :: "string option"
  t_amount :: jsnum
  t_method :: PaymentMethod
  t_payment_date :: date_input
  t_comment :: "string option"
  t_created_by :: "ident option"
  t_dedup_epoch :: "string option"

record courier_dto = transfer_dto +
  t_market_id :: "string option"
  t_receiver_user_id :: "ident option"
  t_receiver_cashbox_type :: "Cashbox_type option"

record transfer_out =
  to_idempotent :: bool
  to_publish :: "(string \<times> advance) option"
  to_sync :: "(ident \<times> money) option"

definition replayed :: transfer_out where
  "replayed = \<lparr>to_idempotent = True, to_publish = None, to_sync = None\<rparr>"

subsection \<open>Shared steps\<close>

definition isDuplicateTransfer ::
  "ident \<Rightarrow> Source_type \<Rightarrow> ident \<Rightarrow> Operation_type \<Rightarrow> string \<Rightarrow> finance \<Rightarrow> bool" where
  "isDuplicateTransfer cid st sid op epoch fs \<longleftrightarrow>
     epoch \<noteq> [] \<and>
     find (\<lambda>h. h_cashbox_id h = cid \<and> h_source_type h = st \<and> h_source_id h = Some sid
             \<and> h_operation h = op \<and> h_dedup_epoch h = epoch) (histories fs) \<noteq> None"

definition enqueueSettlementAdvance ::
  "time \<Rightarrow> string \<Rightarrow> settlement_level \<Rightarrow> string \<Rightarrow> money \<Rightarrow> ident option \<Rightarrow> string \<Rightarrow> finance
   \<Rightarrow> finance \<times> advance" where
  "enqueueSettlementAdvance now uuid level matchValue amount requesterId token fs =
     (let payload = \<lparr>a_level = level, a_match_value = matchValue, a_amount = amount,
                     a_requester_id = nonempty_or_null requesterId\<rparr>;
          own = (if token = [] then None else Some token)
      in (fs\<lparr>f_outbox := enqueue now uuid ''ORDER'' ''order.settlement.advance'' payload own own None
              (f_outbox fs)\<rparr>, payload))"

text \<open>The immediate publish fires only for a payload that carries a request id.\<close>

definition tryPublishAdvanceNow :: "string \<Rightarrow> advance \<Rightarrow> (string \<times> advance) option" where
  "tryPublishAdvanceNow token payload = (if token = [] then None else Some (token, payload))"

text \<open>The history row of a leg; only the source leg carries the deduplication key.\<close>

definition leg ::
  "'z transfer_dto_scheme \<Rightarrow> money \<Rightarrow> Operation_type \<Rightarrow> Source_type \<Rightarrow> ident option \<Rightarrow> string
   \<Rightarrow> ident \<Rightarrow> entry" where
  "leg d amount op st sid epoch src =
     \<lparr>en_operation = op, en_source_type = st, en_source_id = sid, en_dedup_epoch = epoch,
      en_source_user_id = Some src, en_amount = amount, en_method = t_method d,
      en_comment = t_comment d, en_created_by = t_created_by d, en_proof_files = None,
      en_payment_date = t_payment_date d\<rparr>"

definition dedup_key :: "'z transfer_dto_scheme \<Rightarrow> string" where
  "dedup_key d = trim (str_or_empty (t_dedup_epoch d))"

definition payment_source_id :: "'z transfer_dto_scheme \<Rightarrow> ident \<Rightarrow> ident option" where
  "payment_source_id d party = (if dedup_key d = [] then None else Some party)"

definition find_or_open :: "(cashbox \<Rightarrow> bool) \<Rightarrow> ident \<Rightarrow> Cashbox_type \<Rightarrow> finance \<Rightarrow> finance \<times> cashbox" where
  "find_or_open P u t fs =
     (case find P (cashboxes fs) of Some c \<Rightarrow> (fs, c) | None \<Rightarrow> insert_cashbox u t 0 0 0 fs)"

text \<open>The lookups of the transfers that do not look at \<open>isDeleted\<close>.\<close>

definition any_box :: "ident \<Rightarrow> Cashbox_type \<Rightarrow> cashbox \<Rightarrow> bool" where
  "any_box u t c \<longleftrightarrow> c_user_id c = u \<and> c_type c = t"

definition finish_transfer ::
  "time \<Rightarrow> string \<Rightarrow> settlement_level \<Rightarrow> ident \<Rightarrow> money \<Rightarrow> 'z transfer_dto_scheme \<Rightarrow> ident
   \<Rightarrow> (ident \<times> money) option \<Rightarrow> finance \<Rightarrow> finance \<times> transfer_out" where
  "finish_transfer now uuid level party amount d cid sync fs =
     (let (fs', payload) =
        enqueueSettlementAdvance now uuid level party amount (t_created_by d) (dedup_key d) fs
      in (log_audit (audit_row ''Cashbox'' cid ''payment'' (nonempty_or_null (t_created_by d))) fs',
          \<lparr>to_idempotent = False, to_publish = tryPublishAdvanceNow (dedup_key d) payload,
           to_sync = sync\<rparr>))"

subsection \<open>paymentsFromCourier\<close>

text \<open>The two extra legs of a payment made straight to the market.\<close>

definition click_to_market_legs ::
  "time \<Rightarrow> courier_dto \<Rightarrow> money \<Rightarrow> cashbox \<Rightarrow> finance \<Rightarrow> rpc_error + finance" where
  "click_to_market_legs now d amount receiver fs =
     (if t_method d = CLICK_TO_MARKET \<and> truthy (t_market_id d)
      then let m = str_or_empty (t_market_id d) in
        rbind (find_or (notFound ''Market cashbox topilmadi'') (any_box m FOR_MARKET) (cashboxes fs)) (\<lambda>market.
        rbind (post_entry now receiver False (leg d amount EXPENSE MARKET_PAYMENT None [] m) fs) (\<lambda>(fs1, _, _).
        rbind (post_entry now market False (leg d amount EXPENSE MARKET_PAYMENT None [] m) fs1) (\<lambda>(fs2, _, _).
          Inr fs2)))
      else Inr fs)"

definition paymentsFromCourier ::
  "time \<Rightarrow> string \<Rightarrow> courier_dto \<Rightarrow> finance \<Rightarrow> rpc_error + finance \<times> transfer_out" where
  "paymentsFromCourier now uuid d fs =
     rbind (assertBigIntId (t_party d) ''courier_id'') (\<lambda>courier.
     rbind (assertPositiveAmount (t_amount d) ''amount'') (\<lambda>amount.
     rbind (require (t_method d = CLICK_TO_MARKET \<longrightarrow> truthy (t_market_id d))
              (badRequest ''Click_to_market usulida market_id bo'lishi shart va majburiy !!!'')) (\<lambda>_.
     rbind (find_or (notFound ''Courier cashbox not found'') (active_box courier FOR_COURIER)
              (cashboxes fs)) (\<lambda>courierCashbox.
     if isDuplicateTransfer (c_id courierCashbox) COURIER_PAYMENT courier EXPENSE (dedup_key d) fs
     then Inr (fs, replayed)
     else
       rbind (require (amount \<le> c_balance courierCashbox)
                (badRequest ''To'lov miqdori courier qoldig'idan oshib ketdi'')) (\<lambda>_.
       let u = (case t_receiver_user_id d of Some u \<Rightarrow> u | None \<Rightarrow> MAIN_CASHBOX_USER_ID);
           t = (case t_receiver_cashbox_type d of Some t \<Rightarrow> t | None \<Rightarrow> C_MAIN);
           (fs1, receiver) = find_or_open (active_box u t) u t fs
       in
       rbind (post_entry now courierCashbox False
                (leg d amount EXPENSE COURIER_PAYMENT (payment_source_id d courier) (dedup_key d) courier) fs1)
         (\<lambda>(fs2, _, _).
       rbind (post_entry now receiver False (leg d amount INCOME COURIER_PAYMENT None [] courier) fs2)
         (\<lambda>(fs3, receiver', _).
       rbind (click_to_market_legs now d amount receiver' fs3) (\<lambda>fs4.
         Inr (finish_transfer now uuid Courier_to_branch courier amount d (c_id courierCashbox)
                (if t_method d = CLICK_TO_MARKET \<and> truthy (t_market_id d)
                 then Some (str_or_empty (t_market_id d), amount) else None) fs4)))))))))"

subsection \<open>paymentFromBranchToMain\<close>

definition paymentFromBranchToMain ::
  "time \<Rightarrow> string \<Rightarrow> transfer_dto \<Rightarrow> finance \<Rightarrow> rpc_error + finance \<times> transfer_out" where
  "paymentFromBranchToMain now uuid d fs =
     rbind (assertBigIntId (t_party d) ''branch_id'') (\<lambda>branch.
     rbind (assertPositiveAmount (t_amount d) ''amount'') (\<lambda>amount.
     rbind (find_or (notFound ''Branch cashbox not found'') (any_box branch C_BRANCH)
              (cashboxes fs)) (\<lambda>branchCashbox.
     if isDuplicateTransfer (c_id branchCashbox) BRANCH_TO_MAIN branch EXPENSE (dedup_key d) fs
     then Inr (fs, replayed)
     else
       let (fs1, main) = find_or_open (any_box MAIN_CASHBOX_USER_ID C_MAIN) MAIN_CASHBOX_USER_ID C_MAIN fs
       in
       rbind (post_entry now branchCashbox False
                (leg d amount EXPENSE BRANCH_TO_MAIN (payment_source_id d branch) (dedup_key d) branch) fs1)
         (\<lambda>(fs2, _, _).
       rbind (post_entry now main False (leg d amount INCOME BRANCH_TO_MAIN None [] branch) fs2)
         (\<lambda>(fs3, _, _).
         Inr (finish_transfer now uuid Branch_to_hq branch amount d (c_id branchCashbox) None fs3))))))"

subsection \<open>paymentsToMarket\<close>

definition paymentsToMarket ::
  "time \<Rightarrow> string \<Rightarrow> transfer_dto \<Rightarrow> finance \<Rightarrow> rpc_error + finance \<times> transfer_out" where
  "paymentsToMarket now uuid d fs =
     rbind (assertBigIntId (t_party d) ''market_id'') (\<lambda>m.
     rbind (assertPositiveAmount (t_amount d) ''amount'') (\<lambda>amount.
     rbind (find_or (notFound ''Main cashbox not found'') (any_box MAIN_CASHBOX_USER_ID C_MAIN)
              (cashboxes fs)) (\<lambda>main.
     rbind (find_or (notFound ''Market cashbox not found'') (any_box m FOR_MARKET)
              (cashboxes fs)) (\<lambda>market.
     if isDuplicateTransfer (c_id main) MARKET_PAYMENT m EXPENSE (dedup_key d) fs
     then Inr (fs, replayed)
     else
       rbind (post_entry now main False
                (leg d amount EXPENSE MARKET_PAYMENT (payment_source_id d m) (dedup_key d) m) fs)
         (\<lambda>(fs1, _, _).
       rbind (post_entry now market False (leg d amount EXPENSE MARKET_PAYMENT None [] m) fs1)
         (\<lambda>(fs2, _, _).
         Inr (finish_transfer now uuid Hq_to_market m amount d (c_id market) (Some (m, amount)) fs2)))))))"

subsection \<open>applyPaymentToOrders\<close>

text \<open>
  The orders of the market as \<open>order.find_all\<close> lists them: the partly paid ones, then the sold
  ones. The result is the sequence of \<open>order.update_normalized\<close> requests and what is left.
\<close>

record payable =
  p_id :: ident
  p_status :: Order_status
  p_to_be_paid :: money
  p_paid_amount :: money

type_synonym pay_update = "ident \<times> money \<times> Order_status"

definition pay_partly :: "payable list \<Rightarrow> money \<Rightarrow> pay_update list \<times> money" where
  "pay_partly orders payment =
     (case find (\<lambda>x. p_status x = PARTLY_PAID) orders of
        None \<Rightarrow> ([], payment)
      | Some p \<Rightarrow>
          let remaining = p_to_be_paid p - p_paid_amount p in
          if remaining \<le> payment
          then ([(p_id p, p_to_be_paid p, PAID)], payment - remaining)
          else ([(p_id p, p_paid_amount p + payment, PARTLY_PAID)], 0))"

fun pay_sold :: "payable list \<Rightarrow> money \<Rightarrow> pay_update list \<times> money" where
  "pay_sold [] payment = ([], payment)"
| "pay_sold (p # ps) payment =
     (if payment \<le> 0 then ([], payment)
      else if p_to_be_paid p \<le> payment
      then let (us, rest) = pay_sold ps (payment - p_to_be_paid p)
           in ((p_id p, p_to_be_paid p, PAID) # us, rest)
      else let (us, rest) = pay_sold ps 0
           in ((p_id p, p_paid_amount p + payment, PARTLY_PAID) # us, rest))"

definition applyPaymentToOrders :: "payable list \<Rightarrow> money \<Rightarrow> pay_update list \<times> money" where
  "applyPaymentToOrders orders amount =
     (if amount \<le> 0 then ([], amount)
      else let (us, rest) = pay_partly orders amount;
               (vs, rest') = pay_sold (filter (\<lambda>x. p_status x = SOLD) orders) rest
           in (us @ vs, rest'))"

subsection \<open>Net position\<close>

text \<open>
  What the organisation holds less what it owes the markets: a \<open>FOR_MARKET\<close> cashbox is a payable.
\<close>

definition weight :: "cashbox \<Rightarrow> money" where
  "weight c = (if c_type c = FOR_MARKET then -1 else 1)"

definition net_position :: "finance \<Rightarrow> money" where
  "net_position fs = (\<Sum>c\<leftarrow>cashboxes fs. weight c * c_balance c)"

lemma post_entry_net:
  assumes "finance_inv fs" and "c \<in> set (cashboxes fs)"
    and "post_entry now c ov en fs = Inr (fs', c', h)"
  shows "net_position fs' = net_position fs + weight c * (sign_of (en_operation en) * en_amount en)"
proof -
  note own = post_entry_extend(2) [OF assms] and bal = post_entry_inv(3) [OF assms]
  have "c_id c = c_id c'" using own by (simp add: same_owner_def)
  then have "net_position fs' = net_position fs - weight c * c_balance c + weight c' * c_balance c'"
    unfolding net_position_def post_entry_Inr(2) [OF assms(3)]
    by (rule cb.sum_save [OF finance_invD(1) [OF assms(1)] assms(2)])
  then show ?thesis using own bal by (simp add: same_owner_def weight_def distrib_left)
qed

text \<open>One leg of a transfer, as a client of the transfers uses it.\<close>

lemma leg_simps [simp]:
  "en_operation (leg d a op st sid ep src) = op" "en_amount (leg d a op st sid ep src) = a"
  "en_source_type (leg d a op st sid ep src) = st" "en_source_id (leg d a op st sid ep src) = sid"
  "en_dedup_epoch (leg d a op st sid ep src) = ep"
  by (simp_all add: leg_def)

text \<open>The main cashbox never owes: neither its cash nor its card balance is negative.\<close>

definition main_solvent :: "finance \<Rightarrow> bool" where
  "main_solvent fs \<longleftrightarrow> (\<forall>c\<in>set (cashboxes fs). c_type c = C_MAIN \<longrightarrow> 0 \<le> c_cash c \<and> 0 \<le> c_card c)"

text \<open>What every operation of the service does to the tables: it keeps the invariant and the
  solvency of the main cashbox, moves no cashbox to another owner and only appends history.\<close>

definition progress :: "finance \<Rightarrow> finance \<Rightarrow> bool" where
  "progress fs fs' \<longleftrightarrow> finance_inv fs' \<and> boxes_extend fs fs' \<and> (\<exists>hs. histories fs' = histories fs @ hs)
     \<and> (main_solvent fs \<longrightarrow> main_solvent fs')"

lemma progress_refl: "finance_inv fs \<Longrightarrow> progress fs fs"
  by (simp add: progress_def boxes_extend_refl)

lemma progress_trans: "progress a b \<Longrightarrow> progress b c \<Longrightarrow> progress a c"
  unfolding progress_def by (auto intro: boxes_extend_trans)

lemma progress_inv: "progress fs fs' \<Longrightarrow> finance_inv fs'"
  by (simp add: progress_def)

lemma progress_log: "progress fs fs' \<Longrightarrow> progress fs (log_audit a fs')"
  by (auto simp: progress_def boxes_extend_def main_solvent_def)

lemma post_entry_solvent:
  assumes "c \<in> set (cashboxes fs)" and "post_entry now c ov en fs = Inr (fs', c', h)"
    and "ov \<longrightarrow> c_type c \<noteq> C_MAIN" and "main_solvent fs"
  shows "main_solvent fs'"
  unfolding main_solvent_def post_entry_Inr(2) [OF assms(2)]
proof (intro ballI impI)
  note upd = updateBalancesByMethod_Inr [OF post_entry_Inr(1) [OF assms(2)]]
  fix x assume x: "x \<in> set (save_row c_id c' (cashboxes fs))" "c_type x = C_MAIN"
  from cb.mem_save [OF x(1)] show "0 \<le> c_cash x \<and> 0 \<le> c_card x"
    using x(2) assms(1,3,4) upd(3,9) by (auto simp: main_solvent_def)
qed

lemma post_entry_progress:
  assumes "finance_inv fs" and "c \<in> set (cashboxes fs)"
    and "post_entry now c ov en fs = Inr (fs', c', h)" and "ov \<longrightarrow> c_type c \<noteq> C_MAIN"
  shows "progress fs fs'"
  using post_entry_inv(1) [OF assms(1-3)] post_entry_extend(1) [OF assms(1-3)] post_entry_Inr(4) [OF assms(3)]
    post_entry_solvent [OF assms(2-4)]
  by (simp add: progress_def)

lemma updateBalance_progress:
  assumes "finance_inv fs" and "updateBalance now dto fs = Inr (fs', r)"
  shows "progress fs fs'"
  using assms(2)
proof (cases rule: updateBalance_cases)
  case replay
  then show ?thesis using assms(1) by (simp add: progress_refl)
next
  case (posted a c fs1)
  then show ?thesis
    using post_entry_progress [OF assms(1) getCashbox_mem(1) [OF posted(3)] posted(5)]
    by (auto intro: progress_log)
qed

lemma insert_cashbox_progress:
  assumes "finance_inv fs" and "find (active_box u t) (cashboxes fs) = None"
  shows "progress fs (fst (insert_cashbox u t 0 0 0 fs))"
  using insert_cashbox_inv [OF assms] boxes_extend_insert [of fs u t 0 0 0]
  by (simp add: progress_def insert_cashbox_def Let_def main_solvent_def)

lemma createCashbox_progress:
  assumes "finance_inv fs" and "createCashbox dto fs = Inr (fs', c, code)"
    and "cr_balance dto = None" "cr_balance_cash dto = None" "cr_balance_card dto = None"
  shows "progress fs fs'"
proof -
  obtain u where u: "assertBigIntId (cr_user_id dto) ''user_id'' = Inr u"
    using assms(2) by (auto simp: createCashbox_def result_simps)
  show ?thesis
  proof (cases "find (active_box u (cr_cashbox_type dto)) (cashboxes fs)")
    case None
    then show ?thesis
      using u assms(2-5) insert_cashbox_progress [OF assms(1) None]
      by (auto simp: createCashbox_def intro: progress_log split: prod.splits)
  next
    case (Some c')
    then show ?thesis using u assms(1,2) progress_refl by (simp add: createCashbox_def)
  qed
qed

lemma ensureMainCashbox_progress:
  assumes "finance_inv fs"
  shows "progress fs (fst (ensureMainCashbox fs))"
  using insert_cashbox_progress [OF assms] progress_refl [OF assms]
  by (auto simp: ensureMainCashbox_def split: option.split)

lemma find_or_open_props:
  assumes inv: "finance_inv fs" and P: "\<And>c. active_box u t c \<Longrightarrow> P c" "\<And>c. P c \<Longrightarrow> c_user_id c = u \<and> c_type c = t"
    and eq: "find_or_open P u t fs = (fs1, c)"
  shows "progress fs fs1" and "c \<in> set (cashboxes fs1)" and "c_type c = t" and "c_user_id c = u"
    and "net_position fs1 = net_position fs" and "histories fs1 = histories fs"
    and "set (cashboxes fs) \<subseteq> set (cashboxes fs1)" and "f_outbox fs1 = f_outbox fs"
proof -
  have "progress fs fs1 \<and> c \<in> set (cashboxes fs1) \<and> c_type c = t \<and> c_user_id c = u
    \<and> net_position fs1 = net_position fs \<and> histories fs1 = histories fs
    \<and> set (cashboxes fs) \<subseteq> set (cashboxes fs1) \<and> f_outbox fs1 = f_outbox fs"
  proof (cases "find P (cashboxes fs)")
    case None
    then have "find (active_box u t) (cashboxes fs) = None" using P(1) by (auto simp: find_None_all)
    from insert_cashbox_progress [OF inv this] show ?thesis
      using eq None by (auto simp: find_or_open_def insert_cashbox_def Let_def net_position_def)
  next
    case (Some d)
    then show ?thesis using eq P(2) find_Some_mem [OF Some] progress_refl [OF inv]
      by (simp add: find_or_open_def)
  qed
  then show "progress fs fs1" and "c \<in> set (cashboxes fs1)" and "c_type c = t" and "c_user_id c = u"
    and "net_position fs1 = net_position fs" and "histories fs1 = histories fs"
    and "set (cashboxes fs) \<subseteq> set (cashboxes fs1)" and "f_outbox fs1 = f_outbox fs" by blast+
qed

lemma finish_transfer_props:
  assumes "finance_inv fs" and "finish_transfer now uuid lv party a d cid sync fs = (fs', out)"
  shows "progress fs fs'" and "net_position fs' = net_position fs" and "cashboxes fs' = cashboxes fs"
    and "histories fs' = histories fs" and "\<not> to_idempotent out"
    and "f_outbox fs' = enqueue now uuid ''ORDER'' ''order.settlement.advance''
       \<lparr>a_level = lv, a_match_value = party, a_amount = a, a_requester_id = nonempty_or_null (t_created_by d)\<rparr>
       (nonempty_or_null (Some (dedup_key d))) (nonempty_or_null (Some (dedup_key d))) None (f_outbox fs)"
proof -
  have "finance_inv (fs\<lparr>f_outbox := enqueue now uuid tg pat pl own rid sched (f_outbox fs)\<rparr>)" for tg pat pl own rid sched
    by (intro finance_inv_outbox assms(1) outbox_inv_enqueue finance_invD(8))
  then show "progress fs fs'" and "net_position fs' = net_position fs" and "cashboxes fs' = cashboxes fs"
    and "histories fs' = histories fs" and "\<not> to_idempotent out"
    and "f_outbox fs' = enqueue now uuid ''ORDER'' ''order.settlement.advance''
       \<lparr>a_level = lv, a_match_value = party, a_amount = a, a_requester_id = nonempty_or_null (t_created_by d)\<rparr>
       (nonempty_or_null (Some (dedup_key d))) (nonempty_or_null (Some (dedup_key d))) None (f_outbox fs)"
    using assms(2)
    by (auto simp: finish_transfer_def enqueueSettlementAdvance_def progress_def boxes_extend_def
        same_owner_def net_position_def main_solvent_def Let_def intro!: exI [of _ "\<lambda>c. c"])
qed

lemma diff_type_id:
  "finance_inv fs \<Longrightarrow> x \<in> set (cashboxes fs) \<Longrightarrow> y \<in> set (cashboxes fs) \<Longrightarrow> c_type x \<noteq> c_type y \<Longrightarrow>
   c_id x \<noteq> c_id y"
  using cb.mem_unique [OF finance_invD(1)] by blast

lemma box_lookup:
  "active_box u t c \<Longrightarrow> active_box u t c" "active_box u t c \<Longrightarrow> c_user_id c = u \<and> c_type c = t"
  "active_box u t c \<Longrightarrow> any_box u t c" "any_box u t c \<Longrightarrow> c_user_id c = u \<and> c_type c = t"
  by (simp_all add: active_box_def any_box_def)

text \<open>Two legs on cashboxes of different types never touch the same row.\<close>

lemma two_legs:
  assumes inv: "finance_inv fs" and c: "c \<in> set (cashboxes fs)" and r: "r \<in> set (cashboxes fs)"
    and ne: "c_type c \<noteq> c_type r"
    and p1: "post_entry now c False en fs = Inr (fs1, c', h1)"
    and p2: "post_entry now r False en' fs1 = Inr (fs2, r', h2)"
  shows "progress fs fs2" and "c' \<in> set (cashboxes fs2)" and "r' \<in> set (cashboxes fs2)"
    and "same_owner c' c" and "same_owner r' r"
    and "c_balance c' = c_balance c + sign_of (en_operation en) * en_amount en"
    and "c_balance r' = c_balance r + sign_of (en_operation en') * en_amount en'"
    and "net_position fs2 = net_position fs
        + weight c * (sign_of (en_operation en) * en_amount en)
        + weight r * (sign_of (en_operation en') * en_amount en')"
    and "histories fs2 = histories fs @ [h1, h2]"
proof -
  have id: "c_id r \<noteq> c_id c" using diff_type_id [OF inv r c] ne by simp
  note i1 = post_entry_inv [OF inv c p1]
  have r1: "r \<in> set (cashboxes fs1)" by (rule i1(4) [OF r id])
  note i2 = post_entry_inv [OF i1(1) r1 p2]
  show own: "same_owner c' c" "same_owner r' r"
    using post_entry_extend(2) [OF inv c p1] post_entry_extend(2) [OF i1(1) r1 p2] by simp_all
  show "c' \<in> set (cashboxes fs2)" using i2(4) [OF i1(2)] id own by (simp add: same_owner_def)
  show "r' \<in> set (cashboxes fs2)" by (rule i2(2))
  show "progress fs fs2"
    by (rule progress_trans [OF post_entry_progress [OF inv c p1] post_entry_progress [OF i1(1) r1 p2]]) simp_all
  show "c_balance c' = c_balance c + sign_of (en_operation en) * en_amount en"
    "c_balance r' = c_balance r + sign_of (en_operation en') * en_amount en'" by (rule i1(3) i2(3))+
  show "net_position fs2 = net_position fs
        + weight c * (sign_of (en_operation en) * en_amount en)
        + weight r * (sign_of (en_operation en') * en_amount en')"
    using post_entry_net [OF inv c p1] post_entry_net [OF i1(1) r1 p2] by simp
  show "histories fs2 = histories fs @ [h1, h2]"
    using post_entry_Inr(4) [OF p1] post_entry_Inr(4) [OF p2] by simp
qed

definition receiver_type :: "courier_dto \<Rightarrow> Cashbox_type" where
  "receiver_type d = (case t_receiver_cashbox_type d of Some t \<Rightarrow> t | None \<Rightarrow> C_MAIN)"

definition receiver_user :: "courier_dto \<Rightarrow> ident" where
  "receiver_user d = (case t_receiver_user_id d of Some u \<Rightarrow> u | None \<Rightarrow> MAIN_CASHBOX_USER_ID)"

lemma paymentsFromCourier_cases:
  assumes "paymentsFromCourier now uuid d fs = Inr (fs', out)"
  obtains (replay) courier a c where "t_party d = Some courier" "t_amount d = Num a"
      "find (active_box courier FOR_COURIER) (cashboxes fs) = Some c"
      "isDuplicateTransfer (c_id c) COURIER_PAYMENT courier EXPENSE (dedup_key d) fs"
      "fs' = fs" "to_idempotent out"
  | (moved) courier a c fs1 r fs2 c' h1 fs3 r' h2 fs4 sync where "t_party d = Some courier" "t_amount d = Num a" "0 < a"
      "find (active_box courier FOR_COURIER) (cashboxes fs) = Some c"
      "\<not> isDuplicateTransfer (c_id c) COURIER_PAYMENT courier EXPENSE (dedup_key d) fs"
      "a \<le> c_balance c"
      "find_or_open (active_box (receiver_user d) (receiver_type d)) (receiver_user d) (receiver_type d) fs = (fs1, r)"
      "post_entry now c False
         (leg d a EXPENSE COURIER_PAYMENT (payment_source_id d courier) (dedup_key d) courier) fs1 = Inr (fs2, c', h1)"
      "post_entry now r False (leg d a INCOME COURIER_PAYMENT None [] courier) fs2 = Inr (fs3, r', h2)"
      "click_to_market_legs now d a r' fs3 = Inr fs4"
      "finish_transfer now uuid Courier_to_branch courier a d (c_id c) sync fs4 = (fs', out)"
proof -
  from assms obtain courier a c where b: "t_party d = Some courier" "t_amount d = Num a" "0 < a"
      "find (active_box courier FOR_COURIER) (cashboxes fs) = Some c"
    by (auto simp: paymentsFromCourier_def result_simps simp del: rbind.simps)
  show thesis
  proof (cases "isDuplicateTransfer (c_id c) COURIER_PAYMENT courier EXPENSE (dedup_key d) fs")
    case True
    then show thesis using assms b
      by (intro replay) (auto simp: paymentsFromCourier_def result_simps replayed_def simp del: rbind.simps)
  next
    case False
    obtain fs1 r where f: "find_or_open (active_box (receiver_user d) (receiver_type d)) (receiver_user d) (receiver_type d) fs = (fs1, r)"
      by (cases "find_or_open (active_box (receiver_user d) (receiver_type d)) (receiver_user d) (receiver_type d) fs")
    show thesis using assms b False f
      by (auto simp: paymentsFromCourier_def result_simps Let_def receiver_user_def [symmetric]
          receiver_type_def [symmetric] simp del: rbind.simps intro: moved)
  qed
qed

lemma click_to_market_legs_props:
  assumes inv: "finance_inv fs" and r: "r \<in> set (cashboxes fs)" and t: "c_type r \<noteq> FOR_MARKET"
    and ok: "click_to_market_legs now d a r fs = Inr fs'"
  shows "progress fs fs'" and "net_position fs' = net_position fs" and "f_outbox fs' = f_outbox fs"
    and "x \<in> set (cashboxes fs) \<Longrightarrow> c_type x = FOR_COURIER \<Longrightarrow> c_type r \<noteq> FOR_COURIER \<Longrightarrow> x \<in> set (cashboxes fs')"
proof -
  have "progress fs fs' \<and> net_position fs' = net_position fs \<and> f_outbox fs' = f_outbox fs
    \<and> (x \<in> set (cashboxes fs) \<longrightarrow> c_type x = FOR_COURIER \<longrightarrow> c_type r \<noteq> FOR_COURIER \<longrightarrow> x \<in> set (cashboxes fs'))"
  proof (cases "t_method d = CLICK_TO_MARKET \<and> truthy (t_market_id d)")
    case False
    then show ?thesis using ok inv by (auto simp: click_to_market_legs_def progress_refl)
  next
    case True
    then obtain market fs1 r' h1 m' h2 where
      m: "find (any_box (str_or_empty (t_market_id d)) FOR_MARKET) (cashboxes fs) = Some market"
      and p1: "post_entry now r False (leg d a EXPENSE MARKET_PAYMENT None [] (str_or_empty (t_market_id d))) fs = Inr (fs1, r', h1)"
      and p2: "post_entry now market False (leg d a EXPENSE MARKET_PAYMENT None [] (str_or_empty (t_market_id d))) fs1 = Inr (fs', m', h2)"
      using ok by (auto simp: click_to_market_legs_def Let_def result_simps simp del: rbind.simps)
    have mem: "market \<in> set (cashboxes fs)" "c_type market = FOR_MARKET"
      using find_Some_mem [OF m] by (simp_all add: any_box_def)
    then have ne: "c_type r \<noteq> c_type market" using t by simp
    note legs = two_legs [OF inv r mem(1) ne p1 p2]
    have "x \<in> set (cashboxes fs')" if "x \<in> set (cashboxes fs)" "c_type x = FOR_COURIER" "c_type r \<noteq> FOR_COURIER"
    proof -
      have id: "c_id x \<noteq> c_id r" "c_id x \<noteq> c_id market" "c_id market \<noteq> c_id r"
        by (rule diff_type_id [OF inv]; use that mem r ne in simp)+
      note i1 = post_entry_inv [OF inv r p1]
      show ?thesis
        by (rule post_entry_inv(4) [OF i1(1) i1(4) [OF mem(1) id(3)] p2 i1(4) [OF that(1) id(1)] id(2)])
    qed
    moreover have "f_outbox fs' = f_outbox fs"
      using post_entry_Inr(6) [OF p1] post_entry_Inr(6) [OF p2] by simp
    moreover have "net_position fs' = net_position fs"
      using legs(8) t mem(2) by (simp add: weight_def)
    ultimately show ?thesis using legs(1) by blast
  qed
  then show "progress fs fs'" and "net_position fs' = net_position fs" and "f_outbox fs' = f_outbox fs"
    and "x \<in> set (cashboxes fs) \<Longrightarrow> c_type x = FOR_COURIER \<Longrightarrow> c_type r \<noteq> FOR_COURIER \<Longrightarrow> x \<in> set (cashboxes fs')"
    by blast+
qed

definition advance_event ::
  "time \<Rightarrow> string \<Rightarrow> settlement_level \<Rightarrow> ident \<Rightarrow> money \<Rightarrow> 'z transfer_dto_scheme \<Rightarrow> advance outbox \<Rightarrow> advance outbox" where
  "advance_event now uuid lv party a d =
     enqueue now uuid ''ORDER'' ''order.settlement.advance''
       \<lparr>a_level = lv, a_match_value = party, a_amount = a, a_requester_id = nonempty_or_null (t_created_by d)\<rparr>
       (nonempty_or_null (Some (dedup_key d))) (nonempty_or_null (Some (dedup_key d))) None"

lemma paymentsFromCourier_moved:
  assumes inv: "finance_inv fs" and rt: "receiver_type d \<in> {C_MAIN, C_BRANCH}"
    and ok: "paymentsFromCourier now uuid d fs = Inr (fs', out)" and new: "\<not> to_idempotent out"
  obtains courier a c c' h hs where "t_party d = Some courier" "t_amount d = Num a" "0 < a"
    "find (active_box courier FOR_COURIER) (cashboxes fs) = Some c"
    "c' \<in> set (cashboxes fs')" "same_owner c' c" "c_balance c' = c_balance c - a" "0 \<le> c_balance c'"
    "progress fs fs'" "net_position fs' = net_position fs"
    "f_outbox fs' = advance_event now uuid Courier_to_branch courier a d (f_outbox fs)"
    "histories fs' = histories fs @ h # hs" "h_cashbox_id h = c_id c" "h_source_type h = COURIER_PAYMENT"
    "h_source_id h = payment_source_id d courier" "h_operation h = EXPENSE" "h_dedup_epoch h = dedup_key d"
  using ok
proof (cases rule: paymentsFromCourier_cases)
  case (moved courier a c fs1 r fs2 c' h1 fs3 r' h2 fs4 sync)
  have "c \<in> set (cashboxes fs)" and ct: "c_type c = FOR_COURIER"
    using find_Some_mem [OF moved(4)] by (simp_all add: active_box_def)
  have o: "progress fs fs1" "r \<in> set (cashboxes fs1)" "c_type r = receiver_type d"
    "net_position fs1 = net_position fs" "histories fs1 = histories fs"
    "c \<in> set (cashboxes fs1)" "f_outbox fs1 = f_outbox fs"
    using find_or_open_props [OF inv box_lookup(1,2) moved(7)] \<open>c \<in> set (cashboxes fs)\<close>
    by (simp_all add: subset_iff)
  have ne: "c_type c \<noteq> c_type r" using ct o(3) rt by auto
  note legs = two_legs [OF progress_inv [OF o(1)] o(6,2) ne moved(8,9)]
  have r't: "c_type r' \<noteq> FOR_MARKET" "c_type r' \<noteq> FOR_COURIER" "c_type c' = FOR_COURIER"
    using legs(4,5) o(3) rt ct by (auto simp: same_owner_def)
  note click = click_to_market_legs_props [OF progress_inv [OF legs(1)] legs(3) r't(1) moved(10)]
  note fin = finish_transfer_props [OF progress_inv [OF click(1)] moved(11)]
  obtain hs where hs: "histories fs4 = histories fs3 @ hs" using click(1) by (auto simp: progress_def)
  obtain pd where h1: "h1 = history_of now (string_of_nat (history_seq fs1)) pd c'
      (leg d a EXPENSE COURIER_PAYMENT (payment_source_id d courier) (dedup_key d) courier)"
    using post_entry_Inr(8) [OF moved(8)] by blast
  show thesis
  proof (rule that [of courier a c c' h1 "h2 # hs"])
    show "c' \<in> set (cashboxes fs')" using click(4) [OF legs(2) r't(3,2)] fin(3) by simp
    show "same_owner c' c" by (rule legs(4))
    show "c_balance c' = c_balance c - a" "0 \<le> c_balance c'"
      using legs(6) moved(6) by (simp_all add: sign_of_def)
    show "progress fs fs'" by (rule progress_trans [OF o(1) progress_trans [OF legs(1) progress_trans [OF click(1) fin(1)]]])
    show "net_position fs' = net_position fs"
      using fin(2) click(2) legs(8) o(3,4) ct rt by (auto simp: weight_def sign_of_def)
    show "f_outbox fs' = advance_event now uuid Courier_to_branch courier a d (f_outbox fs)"
      using fin(6) click(3) post_entry_Inr(6) [OF moved(8)] post_entry_Inr(6) [OF moved(9)] o(7)
      by (simp add: advance_event_def)
    show "histories fs' = histories fs @ h1 # h2 # hs" using fin(4) hs legs(9) o(5) by simp
    show "h_cashbox_id h1 = c_id c" using h1 legs(4) by (simp add: same_owner_def)
  qed (use moved h1 in simp_all)
qed (use new in simp)

lemma paymentFromBranchToMain_cases:
  assumes "paymentFromBranchToMain now uuid d fs = Inr (fs', out)"
  obtains (replay) branch a c where "t_party d = Some branch" "t_amount d = Num a"
      "find (any_box branch C_BRANCH) (cashboxes fs) = Some c"
      "isDuplicateTransfer (c_id c) BRANCH_TO_MAIN branch EXPENSE (dedup_key d) fs"
      "fs' = fs" "to_idempotent out"
  | (moved) branch a c fs1 r fs2 c' h1 fs3 r' h2 where "t_party d = Some branch" "t_amount d = Num a" "0 < a"
      "find (any_box branch C_BRANCH) (cashboxes fs) = Some c"
      "find_or_open (any_box MAIN_CASHBOX_USER_ID C_MAIN) MAIN_CASHBOX_USER_ID C_MAIN fs = (fs1, r)"
      "post_entry now c False
         (leg d a EXPENSE BRANCH_TO_MAIN (payment_source_id d branch) (dedup_key d) branch) fs1 = Inr (fs2, c', h1)"
      "post_entry now r False (leg d a INCOME BRANCH_TO_MAIN None [] branch) fs2 = Inr (fs3, r', h2)"
      "finish_transfer now uuid Branch_to_hq branch a d (c_id c) None fs3 = (fs', out)"
proof -
  from assms obtain branch a c where b: "t_party d = Some branch" "t_amount d = Num a" "0 < a"
      "find (any_box branch C_BRANCH) (cashboxes fs) = Some c"
    by (auto simp: paymentFromBranchToMain_def result_simps simp del: rbind.simps)
  obtain fs1 r where f: "find_or_open (any_box MAIN_CASHBOX_USER_ID C_MAIN) MAIN_CASHBOX_USER_ID C_MAIN fs = (fs1, r)"
    by (cases "find_or_open (any_box MAIN_CASHBOX_USER_ID C_MAIN) MAIN_CASHBOX_USER_ID C_MAIN fs")
  show thesis
  proof (cases "isDuplicateTransfer (c_id c) BRANCH_TO_MAIN branch EXPENSE (dedup_key d) fs")
    case True
    then show thesis using assms b
      by (intro replay) (auto simp: paymentFromBranchToMain_def result_simps replayed_def simp del: rbind.simps)
  next
    case False
    then show thesis using assms b f
      by (auto simp: paymentFromBranchToMain_def result_simps Let_def simp del: rbind.simps intro: moved)
  qed
qed

lemma paymentFromBranchToMain_moved:
  assumes inv: "finance_inv fs"
    and ok: "paymentFromBranchToMain now uuid d fs = Inr (fs', out)" and new: "\<not> to_idempotent out"
  obtains branch a c c' h hs where "t_party d = Some branch" "t_amount d = Num a" "0 < a"
    "find (any_box branch C_BRANCH) (cashboxes fs) = Some c"
    "c' \<in> set (cashboxes fs')" "same_owner c' c" "c_balance c' = c_balance c - a"
    "progress fs fs'" "net_position fs' = net_position fs"
    "f_outbox fs' = advance_event now uuid Branch_to_hq branch a d (f_outbox fs)"
    "histories fs' = histories fs @ h # hs" "h_cashbox_id h = c_id c" "h_source_type h = BRANCH_TO_MAIN"
    "h_source_id h = payment_source_id d branch" "h_operation h = EXPENSE" "h_dedup_epoch h = dedup_key d"
  using ok
proof (cases rule: paymentFromBranchToMain_cases)
  case (moved branch a c fs1 r fs2 c' h1 fs3 r' h2)
  have "c \<in> set (cashboxes fs)" and ct: "c_type c = C_BRANCH"
    using find_Some_mem [OF moved(4)] by (simp_all add: any_box_def)
  have o: "progress fs fs1" "r \<in> set (cashboxes fs1)" "c_type r = C_MAIN"
    "net_position fs1 = net_position fs" "histories fs1 = histories fs"
    "c \<in> set (cashboxes fs1)" "f_outbox fs1 = f_outbox fs"
    using find_or_open_props [OF inv box_lookup(3,4) moved(5)] \<open>c \<in> set (cashboxes fs)\<close>
    by (simp_all add: subset_iff)
  have ne: "c_type c \<noteq> c_type r" using ct o(3) by simp
  note legs = two_legs [OF progress_inv [OF o(1)] o(6,2) ne moved(6,7)]
  note fin = finish_transfer_props [OF progress_inv [OF legs(1)] moved(8)]
  obtain pd where h1: "h1 = history_of now (string_of_nat (history_seq fs1)) pd c'
      (leg d a EXPENSE BRANCH_TO_MAIN (payment_source_id d branch) (dedup_key d) branch)"
    using post_entry_Inr(8) [OF moved(6)] by blast
  show thesis
  proof (rule that [of branch a c c' h1 "[h2]"])
    show "c' \<in> set (cashboxes fs')" using legs(2) fin(3) by simp
    show "same_owner c' c" by (rule legs(4))
    show "c_balance c' = c_balance c - a" using legs(6) by (simp add: sign_of_def)
    show "progress fs fs'" by (rule progress_trans [OF o(1) progress_trans [OF legs(1) fin(1)]])
    show "net_position fs' = net_position fs"
      using fin(2) legs(8) o(3,4) ct by (auto simp: weight_def sign_of_def)
    show "f_outbox fs' = advance_event now uuid Branch_to_hq branch a d (f_outbox fs)"
      using fin(6) post_entry_Inr(6) [OF moved(6)] post_entry_Inr(6) [OF moved(7)] o(7)
      by (simp add: advance_event_def)
    show "histories fs' = histories fs @ h1 # [h2]" using fin(4) legs(9) o(5) by simp
    show "h_cashbox_id h1 = c_id c" using h1 legs(4) by (simp add: same_owner_def)
  qed (use moved h1 in simp_all)
qed (use new in simp)

lemma paymentsToMarket_cases:
  assumes "paymentsToMarket now uuid d fs = Inr (fs', out)"
  obtains (replay) m a c k where "t_party d = Some m" "t_amount d = Num a"
      "find (any_box MAIN_CASHBOX_USER_ID C_MAIN) (cashboxes fs) = Some c"
      "find (any_box m FOR_MARKET) (cashboxes fs) = Some k"
      "isDuplicateTransfer (c_id c) MARKET_PAYMENT m EXPENSE (dedup_key d) fs"
      "fs' = fs" "to_idempotent out"
  | (moved) m a c k fs1 c' h1 fs2 k' h2 where "t_party d = Some m" "t_amount d = Num a" "0 < a"
      "find (any_box MAIN_CASHBOX_USER_ID C_MAIN) (cashboxes fs) = Some c"
      "find (any_box m FOR_MARKET) (cashboxes fs) = Some k"
      "post_entry now c False
         (leg d a EXPENSE MARKET_PAYMENT (payment_source_id d m) (dedup_key d) m) fs = Inr (fs1, c', h1)"
      "post_entry now k False (leg d a EXPENSE MARKET_PAYMENT None [] m) fs1 = Inr (fs2, k', h2)"
      "finish_transfer now uuid Hq_to_market m a d (c_id k) (Some (m, a)) fs2 = (fs', out)"
proof -
  from assms obtain m a c k where b: "t_party d = Some m" "t_amount d = Num a" "0 < a"
      "find (any_box MAIN_CASHBOX_USER_ID C_MAIN) (cashboxes fs) = Some c"
      "find (any_box m FOR_MARKET) (cashboxes fs) = Some k"
    by (auto simp: paymentsToMarket_def result_simps simp del: rbind.simps)
  show thesis
  proof (cases "isDuplicateTransfer (c_id c) MARKET_PAYMENT m EXPENSE (dedup_key d) fs")
    case True
    then show thesis using assms b
      by (intro replay) (auto simp: paymentsToMarket_def result_simps replayed_def simp del: rbind.simps)
  next
    case False
    then show thesis using assms b
      by (auto simp: paymentsToMarket_def result_simps simp del: rbind.simps intro: moved)
  qed
qed

lemma paymentsToMarket_moved:
  assumes inv: "finance_inv fs"
    and ok: "paymentsToMarket now uuid d fs = Inr (fs', out)" and new: "\<not> to_idempotent out"
  obtains m a c k c' k' h hs where "t_party d = Some m" "t_amount d = Num a" "0 < a"
    "find (any_box MAIN_CASHBOX_USER_ID C_MAIN) (cashboxes fs) = Some c"
    "find (any_box m FOR_MARKET) (cashboxes fs) = Some k"
    "c' \<in> set (cashboxes fs')" "same_owner c' c" "c_balance c' = c_balance c - a"
    "k' \<in> set (cashboxes fs')" "same_owner k' k" "c_balance k' = c_balance k - a"
    "progress fs fs'" "net_position fs' = net_position fs"
    "f_outbox fs' = advance_event now uuid Hq_to_market m a d (f_outbox fs)"
    "histories fs' = histories fs @ h # hs" "h_cashbox_id h = c_id c" "h_source_type h = MARKET_PAYMENT"
    "h_source_id h = payment_source_id d m" "h_operation h = EXPENSE" "h_dedup_epoch h = dedup_key d"
  using ok
proof (cases rule: paymentsToMarket_cases)
  case (moved m a c k fs1 c' h1 fs2 k' h2)
  have c: "c \<in> set (cashboxes fs)" "c_type c = C_MAIN" and k: "k \<in> set (cashboxes fs)" "c_type k = FOR_MARKET"
    using find_Some_mem [OF moved(4)] find_Some_mem [OF moved(5)] by (simp_all add: any_box_def)
  have ne: "c_type c \<noteq> c_type k" using c k by simp
  note legs = two_legs [OF inv c(1) k(1) ne moved(6,7)]
  note fin = finish_transfer_props [OF progress_inv [OF legs(1)] moved(8)]
  obtain pd where h1: "h1 = history_of now (string_of_nat (history_seq fs)) pd c'
      (leg d a EXPENSE MARKET_PAYMENT (payment_source_id d m) (dedup_key d) m)"
    using post_entry_Inr(8) [OF moved(6)] by blast
  show thesis
  proof (rule that [of m a c k c' k' h1 "[h2]"])
    show "c' \<in> set (cashboxes fs')" "k' \<in> set (cashboxes fs')" using legs(2,3) fin(3) by simp_all
    show "same_owner c' c" "same_owner k' k" by (rule legs(4,5))+
    show "c_balance c' = c_balance c - a" "c_balance k' = c_balance k - a"
      using legs(6,7) by (simp_all add: sign_of_def)
    show "progress fs fs'" by (rule progress_trans [OF legs(1) fin(1)])
    show "net_position fs' = net_position fs"
      using fin(2) legs(8) c k by (auto simp: weight_def sign_of_def)
    show "f_outbox fs' = advance_event now uuid Hq_to_market m a d (f_outbox fs)"
      using fin(6) post_entry_Inr(6) [OF moved(6)] post_entry_Inr(6) [OF moved(7)]
      by (simp add: advance_event_def)
    show "histories fs' = histories fs @ h1 # [h2]" using fin(4) legs(9) by simp
    show "h_cashbox_id h1 = c_id c" using h1 legs(4) by (simp add: same_owner_def)
  qed (use moved h1 in simp_all)
qed (use new in simp)

subsection \<open>The service as a whole\<close>

text \<open>
  The requests that move money or open cashboxes. A cashbox is opened at zero. The gateway sends
  a courier payment either to the main cashbox or, for a branch manager, to the manager's branch.
\<close>

datatype finance_op =
    Op_open "string option" Cashbox_type
  | Op_main
  | Op_update time update_dto
  | Op_spend time manual_dto
  | Op_fill time manual_dto
  | Op_courier time string transfer_dto "string option" "ident option"
  | Op_branch time string transfer_dto
  | Op_market time string transfer_dto

definition courier_request :: "transfer_dto \<Rightarrow> string option \<Rightarrow> ident option \<Rightarrow> courier_dto" where
  "courier_request d market branch = transfer_dto.extend d
     \<lparr>t_market_id = market, t_receiver_user_id = branch,
      t_receiver_cashbox_type = map_option (\<lambda>_. C_BRANCH) branch\<rparr>"

definition open_request :: "string option \<Rightarrow> Cashbox_type \<Rightarrow> create_cashbox_dto" where
  "open_request u t = \<lparr>cr_user_id = u, cr_cashbox_type = t, cr_balance = None,
     cr_balance_cash = None, cr_balance_card = None\<rparr>"

definition committed :: "'s \<Rightarrow> rpc_error + 's \<times> 'r \<Rightarrow> 's" where
  "committed fs r = (case r of Inl _ \<Rightarrow> fs | Inr (fs', _) \<Rightarrow> fs')"

fun exec :: "finance \<Rightarrow> finance_op \<Rightarrow> finance" where
  "exec fs (Op_open u t) = committed fs (createCashbox (open_request u t) fs)"
| "exec fs Op_main = fst (ensureMainCashbox fs)"
| "exec fs (Op_update now dto) = committed fs (updateBalance now dto fs)"
| "exec fs (Op_spend now d) = committed fs (spendMoney now d fs)"
| "exec fs (Op_fill now d) = committed fs (fillTheCashbox now d fs)"
| "exec fs (Op_courier now uuid d m b) = committed fs (paymentsFromCourier now uuid (courier_request d m b) fs)"
| "exec fs (Op_branch now uuid d) = committed fs (paymentFromBranchToMain now uuid d fs)"
| "exec fs (Op_market now uuid d) = committed fs (paymentsToMarket now uuid d fs)"

lemma receiver_type_request: "receiver_type (courier_request d m b) \<in> {C_MAIN, C_BRANCH}"
  by (cases b) (simp_all add: receiver_type_def courier_request_def transfer_dto.defs)

lemma paymentsFromCourier_progress:
  assumes "finance_inv fs" "receiver_type d \<in> {C_MAIN, C_BRANCH}" "paymentsFromCourier now uuid d fs = Inr (fs', out)"
  shows "progress fs fs'"
proof (cases "to_idempotent out")
  case True
  from assms(3) show ?thesis
  proof (cases rule: paymentsFromCourier_cases)
    case (moved courier a c fs1 r fs2 c' h1 fs3 r' h2 fs4 sync)
    then show ?thesis using True by (auto simp: finish_transfer_def enqueueSettlementAdvance_def Let_def)
  qed (simp add: progress_refl assms(1))
next
  case False
  show ?thesis by (rule paymentsFromCourier_moved [OF assms False])
qed

lemma paymentFromBranchToMain_progress:
  assumes "finance_inv fs" "paymentFromBranchToMain now uuid d fs = Inr (fs', out)"
  shows "progress fs fs'"
proof (cases "to_idempotent out")
  case True
  from assms(2) show ?thesis
  proof (cases rule: paymentFromBranchToMain_cases)
    case (moved branch a c fs1 r fs2 c' h1 fs3 r' h2)
    then show ?thesis using True by (auto simp: finish_transfer_def enqueueSettlementAdvance_def Let_def)
  qed (simp add: progress_refl assms(1))
next
  case False
  show ?thesis by (rule paymentFromBranchToMain_moved [OF assms False])
qed

lemma paymentsToMarket_progress:
  assumes "finance_inv fs" "paymentsToMarket now uuid d fs = Inr (fs', out)"
  shows "progress fs fs'"
proof (cases "to_idempotent out")
  case True
  from assms(2) show ?thesis
  proof (cases rule: paymentsToMarket_cases)
    case (moved m a c k fs1 c' h1 fs2 k' h2)
    then show ?thesis using True by (auto simp: finish_transfer_def enqueueSettlementAdvance_def Let_def)
  qed (simp add: progress_refl assms(1))
next
  case False
  show ?thesis by (rule paymentsToMarket_moved [OF assms False])
qed

lemma spend_fill_progress:
  assumes "finance_inv fs"
  shows "spendMoney now d fs = Inr (fs', r) \<Longrightarrow> progress fs fs'"
    and "fillTheCashbox now d fs = Inr (fs', r) \<Longrightarrow> progress fs fs'"
  using updateBalance_progress [OF assms]
  by (auto simp: spendMoney_def fillTheCashbox_def result_simps intro: progress_log)

lemma committed_progress:
  "finance_inv fs \<Longrightarrow> (\<And>fs' r. res = Inr (fs', r) \<Longrightarrow> progress fs fs') \<Longrightarrow> progress fs (committed fs res)"
  by (auto simp: committed_def progress_refl split: sum.split)

lemma exec_progress: "finance_inv fs \<Longrightarrow> progress fs (exec fs op)"
proof (cases op)
  case (Op_open u t)
  assume "finance_inv fs"
  then show ?thesis unfolding Op_open exec.simps
    by (intro committed_progress) (auto intro: createCashbox_progress simp: open_request_def)
next
  case (Op_courier now uuid d m b)
  assume "finance_inv fs"
  then show ?thesis unfolding Op_courier exec.simps
    by (intro committed_progress) (auto elim: paymentsFromCourier_progress [OF _ receiver_type_request])
qed (auto intro!: committed_progress intro: ensureMainCashbox_progress updateBalance_progress
      spend_fill_progress paymentFromBranchToMain_progress paymentsToMarket_progress)

text \<open>The tables without the audit trail, on which a replay is a no-op for every request.\<close>

definition money_state :: "finance \<Rightarrow> finance" where
  "money_state fs = fs\<lparr>f_audit := []\<rparr>"

definition op_step :: "finance \<Rightarrow> finance_op \<Rightarrow> finance" where
  "op_step fs op = money_state (exec fs op)"

definition op_ok :: "finance \<Rightarrow> bool" where
  "op_ok fs \<longleftrightarrow> finance_inv fs \<and> money_state fs = fs"

datatype op_key = K_event event_key | K_transfer Source_type ident string

definition transfer_key :: "Source_type \<Rightarrow> 'z transfer_dto_scheme \<Rightarrow> op_key option" where
  "transfer_key st d = (case t_party d of None \<Rightarrow> None
     | Some p \<Rightarrow> if dedup_key d = [] then None else Some (K_transfer st p (dedup_key d)))"

fun request_key :: "finance_op \<Rightarrow> op_key option" where
  "request_key (Op_update now dto) = map_option K_event (event_key (now, dto))"
| "request_key (Op_spend now d) = map_option K_event (event_key (now, manual_update EXPENSE MANUAL_EXPENSE d))"
| "request_key (Op_fill now d) = map_option K_event (event_key (now, manual_update INCOME MANUAL_INCOME d))"
| "request_key (Op_courier now uuid d m b) = transfer_key COURIER_PAYMENT d"
| "request_key (Op_branch now uuid d) = transfer_key BRANCH_TO_MAIN d"
| "request_key (Op_market now uuid d) = transfer_key MARKET_PAYMENT d"
| "request_key _ = None"

text \<open>The source cashbox of a transfer: the courier's, the branch's, or the main one.\<close>

definition source_box :: "Source_type \<Rightarrow> ident \<Rightarrow> cashbox \<Rightarrow> bool" where
  "source_box st p = (if st = COURIER_PAYMENT then active_box p FOR_COURIER
     else if st = BRANCH_TO_MAIN then any_box p C_BRANCH else any_box MAIN_CASHBOX_USER_ID C_MAIN)"

definition transfer_applied :: "finance \<Rightarrow> Source_type \<Rightarrow> ident \<Rightarrow> string \<Rightarrow> bool" where
  "transfer_applied fs st p key \<longleftrightarrow>
     (case find (source_box st p) (cashboxes fs) of None \<Rightarrow> False
      | Some c \<Rightarrow> isDuplicateTransfer (c_id c) st p EXPENSE key fs)"

fun op_applied :: "finance \<Rightarrow> op_key \<Rightarrow> bool" where
  "op_applied fs (K_event k) = event_applied fs k"
| "op_applied fs (K_transfer st p key) = transfer_applied fs st p key"

lemma transfer_applied_mono:
  assumes "boxes_extend fs fs'" and "histories fs' = histories fs @ hs" and "transfer_applied fs st p key"
  shows "transfer_applied fs' st p key"
proof -
  have P: "same_owner c d \<Longrightarrow> source_box st p c = source_box st p d" for c d
    by (auto simp: source_box_def same_owner_def active_box_def any_box_def)
  obtain c where c: "find (source_box st p) (cashboxes fs) = Some c"
    and dup: "isDuplicateTransfer (c_id c) st p EXPENSE key fs"
    using assms(3) by (auto simp: transfer_applied_def split: option.splits)
  obtain c' where c': "find (source_box st p) (cashboxes fs') = Some c'" "c_id c' = c_id c"
    using boxes_extend_find [OF assms(1) P c] by (auto simp: same_owner_def)
  then show ?thesis
    using dup assms(2) by (auto simp: transfer_applied_def isDuplicateTransfer_def find_None_all)
qed

lemma progress_applied: "progress fs fs' \<Longrightarrow> op_applied fs k \<Longrightarrow> op_applied fs' k"
  unfolding progress_def by (cases k) (auto intro: event_applied_mono transfer_applied_mono)

lemma money_state_applied [simp]: "op_applied (money_state fs) k = op_applied fs k"
proof -
  have "getCashboxBySelectorWithManager sel (money_state fs) = getCashboxBySelectorWithManager sel fs" for sel
    by (simp add: getCashboxBySelectorWithManager_def money_state_def)
  then show ?thesis
    by (cases k) (auto simp: money_state_def event_applied_def transfer_applied_def isDuplicateTransfer_def
        split: prod.split sum.split option.split)
qed

lemma money_state_inv [simp]: "finance_inv (money_state fs) = finance_inv fs"
  by (simp add: money_state_def finance_inv_def history_sum_def)

lemma money_state_idem [simp]: "money_state (money_state fs) = money_state fs"
  "money_state (log_audit a fs) = money_state fs"
  by (simp_all add: money_state_def log_audit_def)

lemma committed_update: "committed fs (updateBalance now dto fs) = update_step fs (now, dto)"
  by (simp add: committed_def update_step_def)

lemma manual_step:
  "money_state (committed fs (spendMoney now d fs))
     = money_state (update_step fs (now, manual_update EXPENSE MANUAL_EXPENSE d))"
  "money_state (committed fs (fillTheCashbox now d fs))
     = money_state (update_step fs (now, manual_update INCOME MANUAL_INCOME d))"
  by (auto simp: committed_def update_step_def spendMoney_def fillTheCashbox_def result_simps
      split: sum.splits)

lemma transfer_key_Some:
  "transfer_key st d = Some k \<longleftrightarrow> (\<exists>p. t_party d = Some p \<and> dedup_key d \<noteq> [] \<and> k = K_transfer st p (dedup_key d))"
  by (auto simp: transfer_key_def split: option.splits)

lemma courier_request_simps [simp]:
  "t_party (courier_request d m b) = t_party d" "dedup_key (courier_request d m b) = dedup_key d"
  "t_amount (courier_request d m b) = t_amount d"
  by (simp_all add: courier_request_def transfer_dto.defs dedup_key_def)

lemma committed_same: "(\<And>fs' r. res = Inr (fs', r) \<Longrightarrow> fs' = fs) \<Longrightarrow> committed fs res = fs"
  by (auto simp: committed_def split: sum.splits)

lemma transfer_replay:
  assumes "transfer_applied fs st p key" and "dedup_key d = key" and "t_party d = Some p"
  shows "st = BRANCH_TO_MAIN \<Longrightarrow> committed fs (paymentFromBranchToMain now uuid d fs) = fs"
    and "st = MARKET_PAYMENT \<Longrightarrow> committed fs (paymentsToMarket now uuid d fs) = fs"
  using assms
  by (auto intro!: committed_same simp: transfer_applied_def paymentFromBranchToMain_def
      paymentsToMarket_def result_simps source_box_def simp del: rbind.simps split: option.splits)

lemma courier_replay:
  assumes "transfer_applied fs COURIER_PAYMENT p key" and "dedup_key d = key" and "t_party d = Some p"
  shows "committed fs (paymentsFromCourier now uuid d fs) = fs"
  using assms
  by (auto intro!: committed_same simp: transfer_applied_def paymentsFromCourier_def
      result_simps source_box_def simp del: rbind.simps split: option.splits)

lemma transfer_recorded:
  assumes "find (source_box st p) (cashboxes fs) = Some c" and "progress fs fs'"
    and "histories fs' = histories fs @ h # hs" "h_cashbox_id h = c_id c" "h_source_type h = st"
    "h_source_id h = payment_source_id d p" "h_operation h = EXPENSE" "h_dedup_epoch h = dedup_key d"
    and "dedup_key d \<noteq> []"
  shows "transfer_applied fs' st p (dedup_key d)"
proof -
  have P: "same_owner c d \<Longrightarrow> source_box st p c = source_box st p d" for c d
    by (auto simp: source_box_def same_owner_def active_box_def any_box_def)
  obtain c' where "find (source_box st p) (cashboxes fs') = Some c'" "c_id c' = c_id c"
    using boxes_extend_find [OF _ P assms(1), of fs'] assms(2) by (auto simp: progress_def same_owner_def)
  then show ?thesis
    using assms(3-9) by (auto simp: transfer_applied_def isDuplicateTransfer_def find_None_all payment_source_id_def)
qed

lemma committed_changed:
  assumes "committed fs res \<noteq> fs"
  obtains fs' r where "res = Inr (fs', r)" "committed fs res = fs'" "fs' \<noteq> fs"
  using assms by (auto simp: committed_def split: sum.splits)

lemma op_replay:
  assumes "op_ok fs" and "request_key op = Some k" and "op_applied fs k"
  shows "op_step fs op = fs"
proof -
  have e: "event_key (now, dto) = Some k' \<Longrightarrow> k = K_event k' \<Longrightarrow> update_step fs (now, dto) = fs" for now dto k'
    using update_step_replay assms(3) by simp
  show ?thesis
  proof (cases op)
    case (Op_courier now uuid d m b)
    then show ?thesis using assms
      by (auto simp: op_step_def op_ok_def transfer_key_Some courier_replay)
  next
    case (Op_branch now uuid d)
    then show ?thesis using assms
      by (auto simp: op_step_def op_ok_def transfer_key_Some transfer_replay(1))
  next
    case (Op_market now uuid d)
    then show ?thesis using assms
      by (auto simp: op_step_def op_ok_def transfer_key_Some transfer_replay(2))
  qed (use assms e in \<open>auto simp: op_step_def op_ok_def committed_update manual_step\<close>)
qed

lemma finish_transfer_new: "finish_transfer now uuid lv party a d cid sync fs = (fs', out) \<Longrightarrow> \<not> to_idempotent out"
  by (auto simp: finish_transfer_def enqueueSettlementAdvance_def Let_def)

lemma branch_recorded:
  assumes inv: "finance_inv fs" and k: "transfer_key BRANCH_TO_MAIN d = Some k"
    and ch: "committed fs (paymentFromBranchToMain now uuid d fs) \<noteq> fs"
  shows "op_applied (committed fs (paymentFromBranchToMain now uuid d fs)) k"
  using ch
proof (rule committed_changed)
  fix fs' r
  assume ok: "paymentFromBranchToMain now uuid d fs = Inr (fs', r)"
    and c: "committed fs (paymentFromBranchToMain now uuid d fs) = fs'" "fs' \<noteq> fs"
  have new: "\<not> to_idempotent r"
    using ok c(2) by (cases rule: paymentFromBranchToMain_cases) (simp_all add: finish_transfer_new)
  from inv ok new show ?thesis
    unfolding c(1) by (rule paymentFromBranchToMain_moved)
      (use k in \<open>auto simp: transfer_key_Some source_box_def intro: transfer_recorded\<close>)
qed

lemma market_recorded:
  assumes inv: "finance_inv fs" and k: "transfer_key MARKET_PAYMENT d = Some k"
    and ch: "committed fs (paymentsToMarket now uuid d fs) \<noteq> fs"
  shows "op_applied (committed fs (paymentsToMarket now uuid d fs)) k"
  using ch
proof (rule committed_changed)
  fix fs' r
  assume ok: "paymentsToMarket now uuid d fs = Inr (fs', r)"
    and c: "committed fs (paymentsToMarket now uuid d fs) = fs'" "fs' \<noteq> fs"
  have new: "\<not> to_idempotent r"
    using ok c(2) by (cases rule: paymentsToMarket_cases) (simp_all add: finish_transfer_new)
  from inv ok new show ?thesis
    unfolding c(1) by (rule paymentsToMarket_moved)
      (use k in \<open>auto simp: transfer_key_Some source_box_def intro: transfer_recorded\<close>)
qed

lemma courier_recorded:
  assumes inv: "finance_inv fs" and k: "transfer_key COURIER_PAYMENT d = Some k"
    and rt: "receiver_type d \<in> {C_MAIN, C_BRANCH}"
    and ch: "committed fs (paymentsFromCourier now uuid d fs) \<noteq> fs"
  shows "op_applied (committed fs (paymentsFromCourier now uuid d fs)) k"
  using ch
proof (rule committed_changed)
  fix fs' r
  assume ok: "paymentsFromCourier now uuid d fs = Inr (fs', r)"
    and c: "committed fs (paymentsFromCourier now uuid d fs) = fs'" "fs' \<noteq> fs"
  have new: "\<not> to_idempotent r"
    using ok c(2) by (cases rule: paymentsFromCourier_cases) (simp_all add: finish_transfer_new)
  from inv rt ok new show ?thesis
    unfolding c(1) by (rule paymentsFromCourier_moved)
      (use k in \<open>auto simp: transfer_key_Some source_box_def intro: transfer_recorded\<close>)
qed

lemma op_recorded:
  assumes ok: "op_ok fs" and k: "request_key op = Some k" and ch: "op_step fs op \<noteq> fs"
  shows "op_applied (op_step fs op) k"
proof -
  have inv: "finance_inv fs" using ok by (simp add: op_ok_def)
  have ch': "exec fs op \<noteq> fs" using ch ok by (auto simp: op_step_def op_ok_def)
  have e: "op_applied (update_step fs (now, dto)) (K_event k')"
    if "event_key (now, dto) = Some k'" "money_state (update_step fs (now, dto)) \<noteq> fs" for now dto k'
  proof -
    have "update_step fs (now, dto) \<noteq> fs" using that(2) ok unfolding op_ok_def by metis
    then show ?thesis using update_step_recorded [OF inv that(1)] by simp
  qed
  have m: "op_applied s k \<longleftrightarrow> op_applied t k" if "money_state s = money_state t" for s t
    using money_state_applied that by metis
  show ?thesis
  proof (cases op)
    case (Op_spend now d)
    then show ?thesis
      using k ch e m [OF manual_step(1)] by (auto simp: op_step_def manual_step)
  next
    case (Op_fill now d)
    then show ?thesis
      using k ch e m [OF manual_step(2)] by (auto simp: op_step_def manual_step)
  next
    case (Op_courier now uuid d mk b)
    have "transfer_key COURIER_PAYMENT (courier_request d mk b) = Some k"
      using k Op_courier by (simp add: transfer_key_Some)
    then show ?thesis
      using courier_recorded [OF inv _ receiver_type_request] ch' Op_courier by (simp add: op_step_def)
  qed (use k ch ch' e branch_recorded [OF inv] market_recorded [OF inv]
       in \<open>auto simp: op_step_def committed_update\<close>)
qed

lemma op_ok_step: "op_ok fs \<Longrightarrow> op_ok (op_step fs op)"
  using progress_inv [OF exec_progress] by (simp add: op_ok_def op_step_def)

interpretation ops: at_most_once op_step request_key op_applied op_ok
proof
  fix s k q
  show "op_ok s \<Longrightarrow> op_applied s k \<Longrightarrow> op_applied (op_step s q) k"
    using progress_applied [OF exec_progress] by (simp add: op_ok_def op_step_def)
qed (auto intro: op_replay op_recorded op_ok_step)

subsection \<open>What the transfers guarantee\<close>

definition demo_transfer :: transfer_dto where
  "demo_transfer = \<lparr>t_party = Some ''7'', t_amount = Num 60000, t_method = CASH, t_payment_date = NoDate,
     t_comment = None, t_created_by = Some ''2'', t_dedup_epoch = Some ''tok-1''\<rparr>"

definition demo_branch :: "ident option" where
  "demo_branch = Some ''12''"

lemma finance_inv_sold: "finance_inv demo_sold"
  unfolding demo_sold_def by (rule update_step_kept(1) [OF finance_inv_demo])




definition demo_market_ops :: "finance_op list" where
  "demo_market_ops = [Op_open (Some ''31'') FOR_MARKET,
     Op_fill 1 \<lparr>m_user_id = ''2'', m_amount = Num 500, m_type = None, m_comment = None,
       m_cashbox_type = None, m_created_by = None, m_dedup_epoch = Some ''f1''\<rparr>]"

definition demo_market_state :: finance where
  "demo_market_state = foldl exec demo_finance demo_market_ops"

definition demo_market_payment :: transfer_dto where
  "demo_market_payment = demo_transfer\<lparr>t_party := Some ''31'', t_amount := Num 400\<rparr>"

lemma foldl_exec_progress: "finance_inv fs \<Longrightarrow> progress fs (foldl exec fs qs)"
proof (induction qs arbitrary: fs)
  case (Cons op qs)
  then show ?case
    using exec_progress progress_inv progress_trans by (metis foldl_Cons)
qed (simp add: progress_refl)


text \<open>
  C4. Every money request with a token is applied at most once across the whole service: after
  it has taken effect, a redelivery or double submit (the same kind of transfer for the same party
  with the same token, or the same business event at the same selector), after any sequence of
  other requests, changes nothing in the cashbox, history and outbox tables.
\<close>

theorem money_requests_exactly_once:
  assumes "op_ok fs" and "request_key q = Some k" and "request_key q' = Some k" and "op_step fs q \<noteq> fs"
  shows "op_step (foldl op_step (op_step fs q) qs) q' = foldl op_step (op_step fs q) qs"
  using ops.redelivery [OF assms] by (simp add: ops.run_def)

theorem money_requests_exactly_once_witness:
  "op_step (foldl op_step (op_step (money_state demo_sold) (Op_courier 5 ''u'' demo_transfer None demo_branch))
       [Op_main, Op_update 6 (demo_sell\<lparr>u_source_id := Some ''56''\<rparr>)])
     (Op_courier 8 ''v'' demo_transfer None None)
   = foldl op_step (op_step (money_state demo_sold) (Op_courier 5 ''u'' demo_transfer None demo_branch))
       [Op_main, Op_update 6 (demo_sell\<lparr>u_source_id := Some ''56''\<rparr>)]"
proof -
  let ?q = "Op_courier 5 ''u'' demo_transfer None demo_branch"
  have ok: "op_ok (money_state demo_sold)" using finance_inv_sold by (simp add: op_ok_def)
  have "histories (op_step (money_state demo_sold) ?q) \<noteq> histories (money_state demo_sold)" by code_simp
  then have ne: "op_step (money_state demo_sold) ?q \<noteq> money_state demo_sold" by metis
  have k: "request_key ?q = request_key (Op_courier 8 ''v'' demo_transfer None None)"
    "request_key ?q \<noteq> None" by simp code_simp
  then obtain k where "request_key ?q = Some k" "request_key (Op_courier 8 ''v'' demo_transfer None None) = Some k"
    by auto
  then show ?thesis by (rule money_requests_exactly_once [OF ok _ _ ne])
qed


subsection \<open>Spreading a market payment over orders\<close>

definition owed :: "payable \<Rightarrow> money" where
  "owed p = p_to_be_paid p - p_paid_amount p"

text \<open>The money an update puts on an order, looked up in the list it was computed from.\<close>

definition paid_by :: "payable list \<Rightarrow> pay_update \<Rightarrow> money" where
  "paid_by orders u = (case find (\<lambda>p. p_id p = fst u) orders of
     None \<Rightarrow> 0 | Some p \<Rightarrow> fst (snd u) - p_paid_amount p)"

lemma pay_sold_zero: "pay_sold ps 0 = ([], 0)"
  by (cases ps) simp_all

lemma pay_sold_spec:
  assumes "distinct (map p_id ps)" and "\<forall>p\<in>set ps. p_paid_amount p = 0 \<and> 0 \<le> p_to_be_paid p" and "0 \<le> a"
  shows "sum_list (map (paid_by ps) (fst (pay_sold ps a))) + snd (pay_sold ps a) = a
    \<and> 0 \<le> snd (pay_sold ps a)
    \<and> fst ` set (fst (pay_sold ps a)) \<subseteq> p_id ` set ps"
  using assms
proof (induction ps arbitrary: a)
  case Nil
  then show ?case by simp
next
  case (Cons p ps)
  have "paid_by (p # ps) u = paid_by ps u" if "fst u \<in> p_id ` set ps" for u
  proof -
    have "p_id p \<noteq> fst u" using that Cons.prems(1) by auto
    then show ?thesis by (simp add: paid_by_def)
  qed
  then have shift: "map (paid_by (p # ps)) us = map (paid_by ps) us" if "fst ` set us \<subseteq> p_id ` set ps" for us
    using that by (auto simp: subset_iff)
  show ?case
  proof (cases "a \<le> 0 \<or> \<not> p_to_be_paid p \<le> a")
    case True
    then show ?thesis using Cons.prems by (auto simp: pay_sold_zero paid_by_def)
  next
    case False
    then have IH: "sum_list (map (paid_by ps) (fst (pay_sold ps (a - p_to_be_paid p))))
        + snd (pay_sold ps (a - p_to_be_paid p)) = a - p_to_be_paid p
      \<and> 0 \<le> snd (pay_sold ps (a - p_to_be_paid p))
      \<and> fst ` set (fst (pay_sold ps (a - p_to_be_paid p))) \<subseteq> p_id ` set ps"
      using Cons.prems by (intro Cons.IH) auto
    obtain us r where rec: "pay_sold ps (a - p_to_be_paid p) = (us, r)" by fastforce
    have "paid_by (p # ps) (p_id p, p_to_be_paid p, PAID) = p_to_be_paid p"
      using Cons.prems(2) by (simp add: paid_by_def)
    moreover have "map (paid_by (p # ps)) us = map (paid_by ps) us"
      using IH rec by (intro shift) simp
    ultimately show ?thesis
      using False IH rec by (auto simp: Let_def simp del: map_eq_conv)
  qed
qed

text \<open>An update pays an order at most what it is owed, and marks it paid exactly then.\<close>

definition sound_update :: "payable list \<Rightarrow> pay_update \<Rightarrow> bool" where
  "sound_update orders u \<longleftrightarrow> (\<exists>p\<in>set orders. fst u = p_id p \<and> fst (snd u) \<le> p_to_be_paid p
      \<and> snd (snd u) = (if fst (snd u) = p_to_be_paid p then PAID else PARTLY_PAID))"

lemma sound_update_mono: "sound_update ps u \<Longrightarrow> set ps \<subseteq> set qs \<Longrightarrow> sound_update qs u"
  unfolding sound_update_def by blast

lemma find_id: "distinct (map p_id ps) \<Longrightarrow> p \<in> set ps \<Longrightarrow> find (\<lambda>q. p_id q = p_id p) ps = Some p"
  by (induction ps) auto

lemma pay_sold_bounds:
  assumes "\<forall>p\<in>set ps. p_paid_amount p = 0 \<and> 0 \<le> p_to_be_paid p" and "0 \<le> a"
    and "u \<in> set (fst (pay_sold ps a))"
  shows "sound_update ps u"
  using assms
proof (induction ps arbitrary: a)
  case (Cons p ps)
  show ?case
  proof (cases "a \<le> 0 \<or> \<not> p_to_be_paid p \<le> a")
    case True
    then show ?thesis using Cons.prems by (auto simp: pay_sold_zero sound_update_def split: if_splits)
  next
    case False
    obtain us r where rec: "pay_sold ps (a - p_to_be_paid p) = (us, r)" by fastforce
    then have "u = (p_id p, p_to_be_paid p, PAID) \<or> u \<in> set us" using False Cons.prems(3) by (simp add: Let_def)
    then show ?thesis
    proof
      assume "u \<in> set us"
      then have "sound_update ps u" using Cons.IH [of "a - p_to_be_paid p"] Cons.prems(1) False rec by simp
      then show ?thesis by (rule sound_update_mono) auto
    qed (simp add: sound_update_def)
  qed
qed simp

text \<open>
  C23. Spreading a market payment over the market's orders accounts for every sum: what the
  updates put on orders plus what is left over is the payment, the leftover is never negative,
  no order is paid beyond what it is owed, and an order becomes \<open>PAID\<close> exactly when it is paid
  in full.
\<close>

theorem applyPaymentToOrders_accounts:
  assumes ids: "distinct (map p_id orders)" and pos: "0 < amount"
    and sold: "\<forall>p\<in>set orders. p_status p = SOLD \<longrightarrow> p_paid_amount p = 0 \<and> 0 \<le> p_to_be_paid p"
    and partly: "\<forall>p\<in>set orders. p_status p = PARTLY_PAID \<longrightarrow> p_paid_amount p < p_to_be_paid p"
  shows "(\<Sum>u\<leftarrow>fst (applyPaymentToOrders orders amount). paid_by orders u)
        + snd (applyPaymentToOrders orders amount) = amount
    \<and> 0 \<le> snd (applyPaymentToOrders orders amount)
    \<and> list_all (sound_update orders) (fst (applyPaymentToOrders orders amount))"
proof -
  let ?S = "filter (\<lambda>x. p_status x = SOLD) orders"
  obtain us a where us: "pay_partly orders amount = (us, a)" by fastforce
  obtain vs b where vs: "pay_sold ?S a = (vs, b)" by fastforce
  have one: "(\<Sum>u\<leftarrow>us. paid_by orders u) + a = amount \<and> 0 \<le> a
    \<and> list_all (sound_update orders) us"
  proof (cases "find (\<lambda>x. p_status x = PARTLY_PAID) orders")
    case None
    then show ?thesis using us pos by (auto simp: pay_partly_def)
  next
    case (Some p)
    then have p: "p \<in> set orders" "p_status p = PARTLY_PAID" using find_Some_mem [OF Some] by auto
    then show ?thesis using us pos Some find_id [OF ids p(1)] partly
      by (auto simp: pay_partly_def paid_by_def Let_def sound_update_def split: if_splits intro!: bexI [OF _ p(1)])
  qed
  have S: "distinct (map p_id ?S)" "\<forall>p\<in>set ?S. p_paid_amount p = 0 \<and> 0 \<le> p_to_be_paid p"
    using ids sold by (auto simp: distinct_map_filter)
  note spec = pay_sold_spec [OF S, of a] and bounds = pay_sold_bounds [OF S(2), of a]
  have "paid_by orders v = paid_by ?S v" if v: "v \<in> set vs" for v
  proof -
    obtain p where p: "p \<in> set ?S" "fst v = p_id p"
      using bounds [of v] one vs v unfolding sound_update_def by auto
    then show ?thesis using find_id [OF S(1) p(1)] find_id [OF ids, of p] by (simp add: paid_by_def)
  qed
  then have "map (paid_by orders) vs = map (paid_by ?S) vs" by simp
  moreover have "list_all (sound_update orders) vs"
    unfolding list_all_iff
  proof
    fix u assume "u \<in> set vs"
    then have "sound_update ?S u" using bounds [of u] one vs by simp
    then show "sound_update orders u" by (rule sound_update_mono) auto
  qed
  ultimately show ?thesis
    using one spec us vs pos by (simp add: applyPaymentToOrders_def Let_def del: map_eq_conv)
qed

definition demo_payables :: "payable list" where
  "demo_payables = [\<lparr>p_id = ''1'', p_status = PARTLY_PAID, p_to_be_paid = 100, p_paid_amount = 40\<rparr>,
     \<lparr>p_id = ''2'', p_status = SOLD, p_to_be_paid = 50, p_paid_amount = 0\<rparr>,
     \<lparr>p_id = ''3'', p_status = SOLD, p_to_be_paid = 70, p_paid_amount = 0\<rparr>]"

theorem applyPaymentToOrders_accounts_witness:
  "fst (applyPaymentToOrders demo_payables 130) = [(''1'', 100, PAID), (''2'', 50, PAID), (''3'', 20, PARTLY_PAID)]
   \<and> (\<Sum>u\<leftarrow>fst (applyPaymentToOrders demo_payables 130). paid_by demo_payables u)
        + snd (applyPaymentToOrders demo_payables 130) = 130"
proof -
  have "fst (applyPaymentToOrders demo_payables 130) = [(''1'', 100, PAID), (''2'', 50, PAID), (''3'', 20, PARTLY_PAID)]"
    by code_simp
  moreover have "distinct (map p_id demo_payables)" "(0::rat) < 130"
    "\<forall>p\<in>set demo_payables. p_status p = SOLD \<longrightarrow> p_paid_amount p = 0 \<and> 0 \<le> p_to_be_paid p"
    "\<forall>p\<in>set demo_payables. p_status p = PARTLY_PAID \<longrightarrow> p_paid_amount p < p_to_be_paid p"
    by (simp_all add: demo_payables_def)
  ultimately show ?thesis using applyPaymentToOrders_accounts [of demo_payables 130] by blast
qed

end
