(* ===== verification/Branch_Store.thy ===== *)
theory Branch_Store
  imports Cashbox
begin

text \<open>
  The tables of \<open>apps/branch-service/src/branch-service.service.ts\<close> (entities \<open>Branch\<close>,
  \<open>BranchUser\<close>, \<open>BranchConfig\<close>), the normalisation of its inputs, the walks over the parent
  pointers and the access scope of a requester.

  Identifiers that arrive in a request are compared with \<open>bigint\<close> columns by the database, which
  reads \<open>012\<close> as 12, and with strings by the code, which does not; the model keeps both
  comparisons. A walk that need not end is a partial function into \<open>option\<close>: \<open>None\<close> is a request
  that never returns.
\<close>

datatype BranchType = HQ | PICKUP | REGIONAL | HYBRID

datatype Status = ACTIVE | INACTIVE

datatype BranchUserRole = BU_MANAGER | BU_REGISTRATOR | BU_COURIER

record branch =
  br_id :: ident
  br_name :: string
  br_address :: "string option"
  br_phone_number :: "string option"
  br_region_id :: "ident option"
  br_district_id :: "ident option"
  br_parent_id :: "ident option"
  br_type :: BranchType
  br_level :: int
  br_code :: "string option"
  br_status :: Status
  br_manager_id :: "ident option"
  br_ownership :: BranchOwnership
  br_per_order_share :: money
  br_deleted :: bool

record branch_user =
  bu_id :: ident
  bu_branch_id :: ident
  bu_user_id :: ident
  bu_role :: BranchUserRole
  bu_deleted :: bool

text \<open>The JSON value of a configuration key is kept as its text.\<close>

record branch_config =
  bc_id :: ident
  bc_branch_id :: ident
  bc_config_key :: string
  bc_config_value :: "string option"
  bc_deleted :: bool

record branch_db =
  branches :: "branch list"
  branch_seq :: nat
  branch_users :: "branch_user list"
  user_seq :: nat
  branch_configs :: "branch_config list"
  config_seq :: nat
  branch_audit :: "audit_entry list"

definition empty_branches :: branch_db where
  "empty_branches = \<lparr>branches = [], branch_seq = 1, branch_users = [], user_seq = 1, branch_configs = [], config_seq = 1,
     branch_audit = []\<rparr>"

interpretation bt: table br_id .
interpretation but: table bu_id .
interpretation bct: table bc_id .

subsection \<open>Identifiers as the database reads them\<close>

text \<open>
  The input syntax of \<open>bigint\<close>: digits with an optional sign between white space, within 64 bits.
  Anything else is an error of the database, which the service does not translate.
\<close>

definition bigint :: "string \<Rightarrow> int option" where
  "bigint s =
     (let t = trim s;
          v = (case t of [] \<Rightarrow> None
               | c # r \<Rightarrow> if c = CHR ''-'' then (if is_digits r then Some (- int (nat_of_string r)) else None)
                         else if c = CHR ''+'' then (if is_digits r then Some (int (nat_of_string r)) else None)
                         else if is_digits t then Some (int (nat_of_string t)) else None)
      in case v of None \<Rightarrow> None | Some n \<Rightarrow> if - (2 ^ 63) \<le> n \<and> n < 2 ^ 63 then Some n else None)"

definition as_bigint :: "string \<Rightarrow> rpc_error + int" where
  "as_bigint s = (case bigint s of None \<Rightarrow> Inl db_error | Some n \<Rightarrow> Inr n)"

text \<open>The number a stored identifier stands for.\<close>

definition id_num :: "ident \<Rightarrow> int" where
  "id_num i = (case i of c # r \<Rightarrow> if c = CHR ''-'' then - int (nat_of_string r) else int (nat_of_string i) | [] \<Rightarrow> 0)"

text \<open>A value written to a \<open>bigint\<close> column is read back in its canonical form.\<close>

definition show_int :: "int \<Rightarrow> string" where
  "show_int n = (if n < 0 then ''-'' @ string_of_nat (nat (- n)) else string_of_nat (nat n))"

definition bigint_column :: "string option \<Rightarrow> rpc_error + ident option" where
  "bigint_column x = (case x of None \<Rightarrow> Inr None | Some s \<Rightarrow> rbind (as_bigint s) (\<lambda>n. Inr (Some (show_int n))))"

subsection \<open>Results of requests that may not return\<close>

type_synonym 'a reply = "(rpc_error + 'a) option"

definition obind :: "'a reply \<Rightarrow> ('a \<Rightarrow> 'b reply) \<Rightarrow> 'b reply" where
  "obind m f = (case m of None \<Rightarrow> None | Some (Inl e) \<Rightarrow> Some (Inl e) | Some (Inr x) \<Rightarrow> f x)"

lemma obind_simps [simp]: "obind (Some (Inr x)) f = f x" "obind (Some (Inl e)) f = Some (Inl e)" "obind None f = None"
  by (simp_all add: obind_def)

lemma obind_Inr [result_simps]: "obind m f = Some (Inr y) \<longleftrightarrow> (\<exists>x. m = Some (Inr x) \<and> f x = Some (Inr y))"
  by (auto simp: obind_def split: option.split sum.split)

lemma obind_returns: "m \<noteq> None \<Longrightarrow> (\<And>x. m = Some (Inr x) \<Longrightarrow> f x \<noteq> None) \<Longrightarrow> obind m f \<noteq> None"
  by (auto simp: obind_def split: option.split sum.split)

subsection \<open>Normalisation\<close>

definition normalizeNullableBigint :: "string option \<Rightarrow> string option" where
  "normalizeNullableBigint x = (case x of None \<Rightarrow> None | Some s \<Rightarrow> if s = [] then None else Some s)"

definition trimmed_or_null :: "string option \<Rightarrow> string option" where
  "trimmed_or_null x = nonempty_or_null (Some (trim (str_or_empty x)))"

definition parseBranchType :: "string option \<Rightarrow> rpc_error + BranchType" where
  "parseBranchType x =
     (let t = upper (trim (str_or_empty x)) in
      if t = ''HQ'' then Inr HQ else if t = ''PICKUP'' then Inr PICKUP
      else if t = ''REGIONAL'' then Inr REGIONAL else if t = ''HYBRID'' then Inr HYBRID
      else Inl (badRequest ''type must be one of: HQ, PICKUP, REGIONAL, HYBRID''))"

definition code_char :: "char \<Rightarrow> bool" where
  "code_char c \<longleftrightarrow> c \<in> set ''ABCDEFGHIJKLMNOPQRSTUVWXYZ0123456789-''"

definition normalizeBranchCode :: "string option \<Rightarrow> rpc_error + string" where
  "normalizeBranchCode x =
     (let c = upper (trim (str_or_empty x)) in
      if c = [] then Inl (badRequest ''code is required'')
      else if 2 \<le> length c \<and> length c \<le> 32 \<and> list_all code_char c then Inr c
      else Inl (badRequest ''code must match /^[A-Z0-9-]{2,32}$/''))"

definition parseStatus :: "string option \<Rightarrow> rpc_error + Status option" where
  "parseStatus x =
     (if \<not> truthy x then Inr None
      else let s = lower (str_or_empty x) in
           if s = ''active'' then Inr (Some ACTIVE) else if s = ''inactive'' then Inr (Some INACTIVE)
           else Inl (badRequest (''status must be either 'active' or 'inactive'' @ [CHR 0x27])))"

definition normalizeBranchUserRole :: "string option \<Rightarrow> rpc_error + BranchUserRole" where
  "normalizeBranchUserRole x =
     (let r = upper (trim (case x of None \<Rightarrow> ''REGISTRATOR'' | Some s \<Rightarrow> s)) in
      if r = ''MANAGER'' then Inr BU_MANAGER else if r = ''REGISTRATOR'' then Inr BU_REGISTRATOR
      else if r = ''COURIER'' then Inr BU_COURIER
      else Inl (badRequest ''role faqat MANAGER, REGISTRATOR, COURIER bo'lishi mumkin''))"

definition isSystemPrivileged :: "requester \<Rightarrow> bool" where
  "isSystemPrivileged rq \<longleftrightarrow> ''superadmin'' \<in> set (map lower (rq_roles rq)) \<or> ''admin'' \<in> set (map lower (rq_roles rq))"

subsection \<open>Lookups and uniqueness\<close>

definition branch_by_id :: "string \<Rightarrow> branch list \<Rightarrow> rpc_error + branch option" where
  "branch_by_id s rs = rbind (as_bigint s) (\<lambda>n. Inr (find (\<lambda>b. id_num (br_id b) = n \<and> \<not> br_deleted b) rs))"

definition getBranchOrThrow :: "string \<Rightarrow> branch list \<Rightarrow> rpc_error + branch" where
  "getBranchOrThrow s rs =
     rbind (branch_by_id s rs) (\<lambda>b. case b of None \<Rightarrow> Inl (notFound ''Branch not found'') | Some b \<Rightarrow> Inr b)"

definition name_key :: "branch \<Rightarrow> string" where
  "name_key b = lower (trim (br_name b))"

definition ensureBranchNameUnique :: "string \<Rightarrow> ident option \<Rightarrow> branch list \<Rightarrow> rpc_error + unit" where
  "ensureBranchNameUnique name exceptId rs =
     (if trim name = [] then Inr ()
      else case find (\<lambda>b. name_key b = lower (trim name) \<and> \<not> br_deleted b) rs of
             None \<Rightarrow> Inr ()
           | Some found \<Rightarrow> require (truthy exceptId \<and> exceptId = Some (br_id found))
                             (conflict ''Branch with this name already exists''))"

definition ensureBranchCodeUnique :: "string \<Rightarrow> ident option \<Rightarrow> branch list \<Rightarrow> rpc_error + unit" where
  "ensureBranchCodeUnique code exceptId rs =
     (case find (\<lambda>b. br_code b = Some code \<and> \<not> br_deleted b) rs of
        None \<Rightarrow> Inr ()
      | Some found \<Rightarrow> require (exceptId = Some (br_id found)) (conflict ''Branch with this code already exists''))"

text \<open>The unique indexes of the table: the code over all rows, the name over the rows in use.\<close>

definition indexes_ok :: "branch \<Rightarrow> branch list \<Rightarrow> bool" where
  "indexes_ok r rs \<longleftrightarrow>
     list_all (\<lambda>b. br_id b \<noteq> br_id r \<longrightarrow>
        (br_code r \<noteq> None \<longrightarrow> br_code b \<noteq> br_code r)
        \<and> (\<not> br_deleted r \<and> \<not> br_deleted b \<longrightarrow> name_key b \<noteq> name_key r)) rs"

definition save_branch :: "branch \<Rightarrow> branch list \<Rightarrow> rpc_error + branch list" where
  "save_branch r rs = (if indexes_ok r rs then Inr (save_row br_id r rs) else Inl db_error)"

subsection \<open>Walks over the parent pointers\<close>

definition children :: "ident \<Rightarrow> branch list \<Rightarrow> branch list" where
  "children i rs = filter (\<lambda>c. br_parent_id c = Some i \<and> \<not> br_deleted c) rs"

definition hasActiveChildren :: "ident \<Rightarrow> branch list \<Rightarrow> bool" where
  "hasActiveChildren i rs \<longleftrightarrow> children i rs \<noteq> []"

text \<open>
  The recursive query: the rows of a round are the children of the rows of the round before,
  until a round is empty.
\<close>

partial_function (option) recursive_query :: "ident list \<Rightarrow> ident list \<Rightarrow> branch list \<Rightarrow> ident list option" where
  "recursive_query found working rs =
     (if working = [] then Some found
      else recursive_query (found @ working) (concat (map (\<lambda>t. map br_id (children t rs)) working)) rs)"

definition collectDescendantBranchIds :: "string list \<Rightarrow> branch list \<Rightarrow> ident list option" where
  "collectDescendantBranchIds roots rs =
     (let rids = filter (\<lambda>s. s \<noteq> []) (map trim roots) in
      if rids = [] then Some []
      else recursive_query [] (map br_id (filter (\<lambda>b. br_id b \<in> set rids \<and> \<not> br_deleted b) rs)) rs)"

text \<open>The queue of \<open>findBranchDescendants\<close>, over the rows ordered by level and age.\<close>

partial_function (option) descendants_loop :: "branch list \<Rightarrow> ident list \<Rightarrow> branch list \<Rightarrow> branch list option" where
  "descendants_loop descendants queue rs =
     (case queue of
        [] \<Rightarrow> Some descendants
      | currentId # q \<Rightarrow>
          descendants_loop (descendants @ children currentId rs) (q @ map br_id (children currentId rs)) rs)"

definition findBranchDescendants :: "string \<Rightarrow> branch_db \<Rightarrow> branch list reply" where
  "findBranchDescendants i db =
     obind (Some (getBranchOrThrow i (branches db))) (\<lambda>root.
       map_option Inr (descendants_loop [] [br_id root] (sort_key br_level (branches db))))"

text \<open>The queue that writes the levels below a branch.\<close>

partial_function (option) rebalance_loop :: "(ident \<times> int) list \<Rightarrow> branch list \<Rightarrow> branch list option" where
  "rebalance_loop queue rs =
     (case queue of
        [] \<Rightarrow> Some rs
      | (i, l) # q \<Rightarrow>
          rebalance_loop (q @ map (\<lambda>c. (br_id c, l + 1)) (children i rs))
            (update_where (\<lambda>c. br_parent_id c = Some i \<and> \<not> br_deleted c) (\<lambda>c. c\<lparr>br_level := l + 1\<rparr>) rs))"

definition rebalanceDescendantLevels :: "ident \<Rightarrow> int \<Rightarrow> branch list \<Rightarrow> branch list option" where
  "rebalanceDescendantLevels i l rs = rebalance_loop [(i, l)] rs"

text \<open>
  The walk from the new parent to the root. It remembers what it has visited, so it ends on every
  table: a branch of the table is visited once, and only the first identifier may be one that no
  row carries.
\<close>

abbreviation known_ids :: "branch list \<Rightarrow> ident set" where
  "known_ids rs \<equiv> {i. \<exists>b\<in>set rs. br_parent_id b = Some i}"

lemma finite_known: "finite (known_ids rs)"
proof -
  have "known_ids rs = set (List.map_filter br_parent_id rs)" by (force simp: map_filter_def)
  then show ?thesis by simp
qed

definition unvisited :: "string option \<Rightarrow> ident list \<Rightarrow> branch list \<Rightarrow> nat" where
  "unvisited cur visited rs =
     2 * card (known_ids rs - set visited) + (case cur of Some c \<Rightarrow> if c \<in> known_ids rs then 0 else 1 | None \<Rightarrow> 0)"

lemma unvisited_step:
  assumes "c \<notin> set visited" and "b \<in> set rs"
  shows "unvisited (br_parent_id b) (c # visited) rs < unvisited (Some c) visited rs"
proof (cases "c \<in> known_ids rs")
  case True
  have "known_ids rs - set (c # visited) \<subset> known_ids rs - set visited" using True assms(1) by auto
  then have "card (known_ids rs - set (c # visited)) < card (known_ids rs - set visited)"
    by (intro psubset_card_mono) (auto simp: finite_known)
  then show ?thesis using True assms(2) by (auto simp: unvisited_def split: option.split)
next
  case False
  then have "known_ids rs - set (c # visited) = known_ids rs - set visited" by auto
  then show ?thesis using False assms(2) by (auto simp: unvisited_def split: option.split)
qed

function cyclic_loop :: "ident \<Rightarrow> string option \<Rightarrow> ident list \<Rightarrow> branch list \<Rightarrow> rpc_error + unit" where
  "cyclic_loop branchId cur visited rs =
     (case cur of
        None \<Rightarrow> Inr ()
      | Some c \<Rightarrow>
          if c = [] then Inr ()
          else if c = branchId then Inl (badRequest ''Cyclic parent relation is not allowed'')
          else if c \<in> set visited then Inl (badRequest ''Cyclic parent relation is not allowed'')
          else (case branch_by_id c rs of
                  Inl e \<Rightarrow> Inl e
                | Inr None \<Rightarrow> Inl (notFound ''Parent branch not found'')
                | Inr (Some b) \<Rightarrow> cyclic_loop branchId (br_parent_id b) (c # visited) rs))"
  by pat_completeness auto

lemma branch_by_id_Inr:
  "branch_by_id s rs = Inr (Some b) \<Longrightarrow> b \<in> set rs \<and> \<not> br_deleted b \<and> bigint s = Some (id_num (br_id b))"
  by (auto simp: branch_by_id_def as_bigint_def result_simps split: option.splits dest: find_Some_mem)

termination cyclic_loop
proof (relation "measure (\<lambda>(_, cur, visited, rs). unvisited cur visited rs)")
  fix branchId cur visited rs c and found :: "branch option" and b :: branch
  assume "cur = Some c" and fresh: "\<not> c \<in> set visited" and "branch_by_id c rs = Inr found" "found = Some b"
  then have "b \<in> set rs" using branch_by_id_Inr by auto
  from unvisited_step [OF fresh this] \<open>cur = Some c\<close>
  show "((branchId, br_parent_id b, c # visited, rs), branchId, cur, visited, rs)
      \<in> measure (\<lambda>(_, cur, visited, rs). unvisited cur visited rs)" by simp
qed simp

declare cyclic_loop.simps [simp del]

definition ensureNotCyclicParent :: "ident \<Rightarrow> string \<Rightarrow> branch list \<Rightarrow> rpc_error + unit" where
  "ensureNotCyclicParent branchId parentId rs =
     (if branchId = parentId then Inl (badRequest ''Branch cannot be parent of itself'')
      else cyclic_loop branchId (Some parentId) [] rs)"

subsection \<open>Access\<close>

text \<open>The branches a requester may read and the branches a requester may write.\<close>

definition resolveAccessScope :: "requester \<Rightarrow> branch_db \<Rightarrow> (ident list \<times> ident list) reply" where
  "resolveAccessScope rq db =
     (if isSystemPrivileged rq then Some (Inr ([], []))
      else let requesterId = trim (str_or_empty (rq_id rq)) in
      if requesterId = [] then Some (Inl (forbidden ''Requester aniqlanmadi''))
      else obind (Some (as_bigint requesterId)) (\<lambda>n.
        let assignments = filter (\<lambda>u. id_num (bu_user_id u) = n \<and> \<not> bu_deleted u) (branch_users db);
            own = filter (\<lambda>i. i \<noteq> []) (map bu_branch_id assignments);
            managerRoots = map bu_branch_id (filter (\<lambda>u. bu_role u = BU_MANAGER) assignments)
        in (case collectDescendantBranchIds managerRoots (branches db) of
              None \<Rightarrow> None
            | Some tree \<Rightarrow> Some (Inr (own @ tree, managerRoots)))))"

definition assertCanReadBranch :: "string \<Rightarrow> requester \<Rightarrow> branch_db \<Rightarrow> unit reply" where
  "assertCanReadBranch branchId rq db =
     (if isSystemPrivileged rq then Some (Inr ())
      else obind (resolveAccessScope rq db) (\<lambda>(readable, _).
        Some (require (branchId \<in> set readable) (forbidden ''Bu filial ma'lumotini ko'rishga ruxsat yo'q''))))"

definition assertCanWriteBranch :: "string \<Rightarrow> requester \<Rightarrow> branch_db \<Rightarrow> unit reply" where
  "assertCanWriteBranch branchId rq db =
     (if isSystemPrivileged rq then Some (Inr ())
      else obind (resolveAccessScope rq db) (\<lambda>(_, writable).
        Some (require (branchId \<in> set writable) (forbidden ''Bu filialga yozish/o'zgartirish ruxsati yo'q''))))"

end
