(* ===== verification/Branch_Tree.thy ===== *)
theory Branch_Tree
  imports Branch_Store "HOL-Library.Multiset"
begin

text \<open>
  The operations of \<open>apps/branch-service/src/branch-service.service.ts\<close> that change the branch
  tree: \<open>createBranch\<close>, \<open>updateBranch\<close>, \<open>deleteBranch\<close> and the start-up step \<open>ensureHqBranch\<close>, with the
  lookups \<open>findBranchByCode\<close> and \<open>findHqBranch\<close>; and what the walks over the tree compute.

  Levels are unbounded integers here. The texts of the error messages use plain punctuation.
\<close>

subsection \<open>Requests\<close>

record create_branch_dto =
  cb_name :: "string option"
  cb_location :: "string option"
  cb_address :: "string option"
  cb_phone_number :: "string option"
  cb_region_id :: "string option"
  cb_district_id :: "string option"
  cb_parent_id :: "string option"
  cb_type :: "string option"
  cb_code :: "string option"
  cb_manager_id :: "string option"

text \<open>In an update a missing field is \<open>None\<close> and a \<open>null\<close> is \<open>Some None\<close>.\<close>

record update_branch_dto =
  ub_name :: "string option"
  ub_location :: "string option option"
  ub_address :: "string option option"
  ub_phone_number :: "string option option"
  ub_region_id :: "string option option"
  ub_district_id :: "string option option"
  ub_parent_id :: "string option option"
  ub_type :: "string option"
  ub_code :: "string option"
  ub_status :: "string option"
  ub_manager_id :: "string option option"

definition log_branch :: "audit_entry \<Rightarrow> branch_db \<Rightarrow> branch_db" where
  "log_branch a db = db\<lparr>branch_audit := branch_audit db @ [a]\<rparr>"

definition branch_audit_row :: "string \<Rightarrow> ident \<Rightarrow> string \<Rightarrow> requester \<Rightarrow> audit_entry" where
  "branch_audit_row t i action rq = audit_row t i action (nonempty_or_null (rq_id rq))"

text \<open>An insert takes the next value of the key sequence and obeys the unique indexes.\<close>

definition insert_branch :: "branch \<Rightarrow> branch_db \<Rightarrow> rpc_error + branch_db \<times> branch" where
  "insert_branch r db =
     (let row = r\<lparr>br_id := string_of_nat (branch_seq db)\<rparr> in
      if branch_seq db < 2 ^ 63 \<and> indexes_ok row (branches db)
      then Inr (db\<lparr>branches := branches db @ [row], branch_seq := Suc (branch_seq db)\<rparr>, row)
      else Inl db_error)"

definition live_hq :: "branch list \<Rightarrow> branch option" where
  "live_hq rs = find (\<lambda>b. br_type b = HQ \<and> \<not> br_deleted b) rs"

subsection \<open>createBranch\<close>

text \<open>Where the new branch hangs: its parent column and its level.\<close>

definition place_branch :: "BranchType \<Rightarrow> string option \<Rightarrow> branch list \<Rightarrow> rpc_error + string option \<times> int" where
  "place_branch t parentId rs =
     (if t = HQ
      then rbind (require (\<not> truthy parentId) (badRequest ''HQ branch cannot have parent_id'')) (\<lambda>_.
           rbind (require (live_hq rs = None) (conflict ''Only one HQ branch is allowed'')) (\<lambda>_.
             Inr (parentId, 0)))
      else rbind (require (truthy parentId) (badRequest ''parent_id is required for non-HQ branches'')) (\<lambda>_.
           rbind (getBranchOrThrow (str_or_empty parentId) rs) (\<lambda>parent.
             Inr (parentId, br_level parent + 1))))"

definition createBranch :: "create_branch_dto \<Rightarrow> requester \<Rightarrow> branch_db \<Rightarrow> rpc_error + branch_db \<times> branch" where
  "createBranch dto rq db =
     (let name = trim (str_or_empty (cb_name dto)) in
      rbind (require (name \<noteq> []) (badRequest ''name is required'')) (\<lambda>_.
      rbind (ensureBranchNameUnique name None (branches db)) (\<lambda>_.
      rbind (parseBranchType (cb_type dto)) (\<lambda>t.
      rbind (normalizeBranchCode (cb_code dto)) (\<lambda>code.
      rbind (ensureBranchCodeUnique code None (branches db)) (\<lambda>_.
      rbind (place_branch t (normalizeNullableBigint (cb_parent_id dto)) (branches db)) (\<lambda>(parentId, level).
      rbind (bigint_column (normalizeNullableBigint (cb_region_id dto))) (\<lambda>region.
      rbind (bigint_column (normalizeNullableBigint (cb_district_id dto))) (\<lambda>district.
      rbind (bigint_column parentId) (\<lambda>parent.
      rbind (bigint_column (normalizeNullableBigint (cb_manager_id dto))) (\<lambda>manager.
      rbind (insert_branch \<lparr>br_id = [], br_name = name,
               br_address = trimmed_or_null (case cb_address dto of Some a \<Rightarrow> Some a | None \<Rightarrow> cb_location dto),
               br_phone_number = trimmed_or_null (cb_phone_number dto), br_region_id = region,
               br_district_id = district, br_parent_id = parent, br_type = t, br_level = level,
               br_code = Some code, br_status = ACTIVE, br_manager_id = manager,
               br_ownership = OWNED, br_per_order_share = 0, br_deleted = False\<rparr> db) (\<lambda>(db', saved).
        Inr (log_branch (branch_audit_row ''Branch'' (br_id saved) ''created'' rq) db', saved)))))))))))))"

subsection \<open>updateBranch\<close>

definition next_name :: "update_branch_dto \<Rightarrow> branch \<Rightarrow> branch list \<Rightarrow> rpc_error + string" where
  "next_name dto b rs =
     (case ub_name dto of
        None \<Rightarrow> Inr (br_name b)
      | Some n \<Rightarrow>
          let nextName = trim n in
          rbind (require (nextName \<noteq> []) (badRequest ''name cannot be empty'')) (\<lambda>_.
          rbind (if lower nextName \<noteq> lower (br_name b) then ensureBranchNameUnique nextName (Some (br_id b)) rs else Inr ()) (\<lambda>_.
            Inr nextName)))"

definition next_code :: "update_branch_dto \<Rightarrow> branch \<Rightarrow> branch list \<Rightarrow> rpc_error + string option" where
  "next_code dto b rs =
     (case ub_code dto of
        None \<Rightarrow> Inr (br_code b)
      | Some c \<Rightarrow> rbind (normalizeBranchCode (Some c)) (\<lambda>code.
                  rbind (ensureBranchCodeUnique code (Some (br_id b)) rs) (\<lambda>_. Inr (Some code))))"

text \<open>Where the branch hangs after the update.\<close>

definition move_branch :: "branch \<Rightarrow> BranchType \<Rightarrow> string option \<Rightarrow> branch list \<Rightarrow> rpc_error + ident option \<times> int" where
  "move_branch b t nextParentId rs =
     (if t = HQ
      then rbind (require (\<not> truthy nextParentId) (badRequest ''HQ branch cannot have parent_id'')) (\<lambda>_.
           rbind (require (case live_hq rs of None \<Rightarrow> True | Some h \<Rightarrow> br_id h = br_id b)
                    (conflict ''Only one HQ branch is allowed'')) (\<lambda>_.
             Inr (None, 0)))
      else rbind (require (truthy nextParentId) (badRequest ''parent_id is required for non-HQ branches'')) (\<lambda>_.
           rbind (ensureNotCyclicParent (br_id b) (str_or_empty nextParentId) rs) (\<lambda>_.
           rbind (getBranchOrThrow (str_or_empty nextParentId) rs) (\<lambda>parent.
             Inr (Some (br_id parent), br_level parent + 1)))))"

definition field :: "'a option \<Rightarrow> 'a \<Rightarrow> 'a" where
  "field x y = (case x of None \<Rightarrow> y | Some v \<Rightarrow> v)"

text \<open>The row as it will be saved, or the first check that fails.\<close>

definition prepare_branch :: "update_branch_dto \<Rightarrow> branch \<Rightarrow> branch list \<Rightarrow> rpc_error + branch" where
  "prepare_branch dto b rs =
     rbind (next_name dto b rs) (\<lambda>name.
     rbind (case ub_type dto of None \<Rightarrow> Inr (br_type b) | Some t \<Rightarrow> parseBranchType (Some t)) (\<lambda>t.
     rbind (next_code dto b rs) (\<lambda>code.
     rbind (move_branch b t (case ub_parent_id dto of None \<Rightarrow> br_parent_id b | Some p \<Rightarrow> normalizeNullableBigint p) rs) (\<lambda>(parent, level).
     rbind (case ub_status dto of None \<Rightarrow> Inr (br_status b)
            | Some s \<Rightarrow> rbind (parseStatus (Some s)) (\<lambda>r. Inr (field r (br_status b)))) (\<lambda>status.
     rbind (case ub_region_id dto of None \<Rightarrow> Inr (br_region_id b) | Some x \<Rightarrow> bigint_column (normalizeNullableBigint x)) (\<lambda>region.
     rbind (case ub_district_id dto of None \<Rightarrow> Inr (br_district_id b) | Some x \<Rightarrow> bigint_column (normalizeNullableBigint x)) (\<lambda>district.
     rbind (case ub_manager_id dto of None \<Rightarrow> Inr (br_manager_id b) | Some x \<Rightarrow> bigint_column (normalizeNullableBigint x)) (\<lambda>manager.
       Inr (b\<lparr>br_name := name,
              br_address := (if ub_address dto = None \<and> ub_location dto = None then br_address b
                 else trimmed_or_null (case field (ub_address dto) None of Some a \<Rightarrow> Some a | None \<Rightarrow> field (ub_location dto) None)),
              br_phone_number := (case ub_phone_number dto of None \<Rightarrow> br_phone_number b | Some p \<Rightarrow> trimmed_or_null p),
              br_region_id := region, br_district_id := district, br_parent_id := parent, br_type := t,
              br_level := level, br_code := code, br_status := status, br_manager_id := manager\<rparr>)))))))))"

text \<open>The audit row is written when one of the recorded columns changes.\<close>

definition branch_changed :: "branch \<Rightarrow> branch \<Rightarrow> bool" where
  "branch_changed a b \<longleftrightarrow> br_name a \<noteq> br_name b \<or> br_parent_id a \<noteq> br_parent_id b \<or> br_region_id a \<noteq> br_region_id b
     \<or> br_district_id a \<noteq> br_district_id b \<or> br_manager_id a \<noteq> br_manager_id b \<or> br_status a \<noteq> br_status b
     \<or> br_type a \<noteq> br_type b"

definition updateBranch :: "string \<Rightarrow> update_branch_dto \<Rightarrow> requester \<Rightarrow> branch_db \<Rightarrow> branch_db reply" where
  "updateBranch i dto rq db =
     obind (assertCanWriteBranch i rq db) (\<lambda>_.
     obind (Some (getBranchOrThrow i (branches db))) (\<lambda>b.
     obind (Some (prepare_branch dto b (branches db))) (\<lambda>row.
     obind (Some (save_branch row (branches db))) (\<lambda>rows1.
       case rebalanceDescendantLevels (br_id row) (br_level row) rows1 of
         None \<Rightarrow> None
       | Some rows2 \<Rightarrow>
           let db' = db\<lparr>branches := rows2\<rparr>
           in Some (Inr (if branch_changed b row
                         then log_branch (branch_audit_row ''Branch'' (br_id row) ''updated'' rq) db' else db'))))))"

subsection \<open>deleteBranch\<close>

text \<open>The answer of the order service to \<open>order.branch_can_delete\<close>: the active orders and batches.\<close>

datatype can_delete = Unreachable string | Usage "(int \<times> int) option"

definition deleteBranch :: "(ident \<Rightarrow> can_delete) \<Rightarrow> string \<Rightarrow> requester \<Rightarrow> branch_db \<Rightarrow> branch_db reply" where
  "deleteBranch order_usage i rq db =
     obind (assertCanWriteBranch i rq db) (\<lambda>_.
     obind (Some (getBranchOrThrow i (branches db))) (\<lambda>b.
     obind (Some (require (\<not> hasActiveChildren (br_id b) (branches db))
                   (badRequest ''Cannot delete branch with child branches''))) (\<lambda>_.
     let activeUsers = length (filter (\<lambda>u. bu_branch_id u = br_id b \<and> \<not> bu_deleted u) (branch_users db)) in
     obind (Some (require (activeUsers = 0) (badRequest (''Cannot delete branch - '' @ string_of_nat activeUsers
                   @ '' active user(s) assigned. Reassign or remove them first.'')))) (\<lambda>_.
     obind (Some (case order_usage (br_id b) of
              Unreachable m \<Rightarrow> Inl (badRequest (''Cannot verify branch is safe to delete (order-service unreachable): '' @ m))
            | Usage None \<Rightarrow> Inr ()
            | Usage (Some (orders, batches)) \<Rightarrow>
                require (\<not> (orders > 0 \<or> batches > 0))
                  (badRequest (''Cannot delete branch - '' @ show_int orders @ '' active order(s) and '' @ show_int batches
                     @ '' active transfer batch(es) reference it.'')))) (\<lambda>_.
     obind (Some (save_branch (b\<lparr>br_deleted := True, br_status := INACTIVE\<rparr>) (branches db))) (\<lambda>rows.
       Some (Inr (log_branch (branch_audit_row ''Branch'' (br_id b) ''deleted'' rq) (db\<lparr>branches := rows\<rparr>)))))))))"

subsection \<open>HQ\<close>

text \<open>At start-up; the code, the name and the address come from the configuration.\<close>

definition ensureHqBranch :: "string \<Rightarrow> string \<Rightarrow> string option \<Rightarrow> branch_db \<Rightarrow> rpc_error + branch_db" where
  "ensureHqBranch hqCode hqName hqAddress db =
     (case find (\<lambda>b. br_code b = Some hqCode \<and> \<not> br_deleted b) (branches db) of
        Some b \<Rightarrow>
          if br_type b \<noteq> HQ \<or> br_level b \<noteq> 0 \<or> br_parent_id b \<noteq> None
          then rbind (save_branch (b\<lparr>br_type := HQ, br_level := 0, br_parent_id := None\<rparr>) (branches db))
                 (\<lambda>rows. Inr (db\<lparr>branches := rows\<rparr>))
          else Inr db
      | None \<Rightarrow>
          (case live_hq (branches db) of
             Some h \<Rightarrow>
               let h1 = (if truthy (br_code h) then h else h\<lparr>br_code := Some hqCode\<rparr>);
                   h2 = (if br_parent_id h1 \<noteq> None \<or> br_level h1 \<noteq> 0 then h1\<lparr>br_parent_id := None, br_level := 0\<rparr> else h1)
               in rbind (save_branch h2 (branches db)) (\<lambda>rows. Inr (db\<lparr>branches := rows\<rparr>))
           | None \<Rightarrow>
               rbind (insert_branch \<lparr>br_id = [], br_name = hqName, br_address = hqAddress, br_phone_number = None,
                        br_region_id = None, br_district_id = None, br_parent_id = None, br_type = HQ, br_level = 0,
                        br_code = Some hqCode, br_status = ACTIVE, br_manager_id = None, br_ownership = OWNED,
                        br_per_order_share = 0, br_deleted = False\<rparr> db) (\<lambda>(db', _). Inr db')))"

definition findBranchByCode :: "string option \<Rightarrow> branch_db \<Rightarrow> rpc_error + branch" where
  "findBranchByCode code db =
     (let c = upper (trim (str_or_empty code)) in
      rbind (require (c \<noteq> []) (badRequest ''code is required'')) (\<lambda>_.
        find_or (notFound ''Branch not found by code'') (\<lambda>b. br_code b = Some c \<and> \<not> br_deleted b) (branches db)))"

definition findHqBranch :: "string \<Rightarrow> branch_db \<Rightarrow> rpc_error + branch" where
  "findHqBranch hqCode db =
     (case find (\<lambda>b. br_code b = Some hqCode \<and> \<not> br_deleted b) (branches db) of
        Some b \<Rightarrow> Inr b
      | None \<Rightarrow> (case live_hq (branches db) of Some b \<Rightarrow> Inr b | None \<Rightarrow> Inl (notFound ''HQ branch topilmadi'')))"

end
