(* ===== verification/Branch_Forest.thy ===== *)
theory Branch_Forest
  imports Branch_Tree
begin

text \<open>
  What the walks of the branch service compute on a branch tree: they end, the recursive query and
  the queue of \<open>findBranchDescendants\<close> give exactly the branches below, and the level queue writes
  the distance from the root. The tree is described by a rank that grows by one along every parent
  pointer; the loops are analysed by well-founded induction on the multiset of the queue.
\<close>

subsection \<open>Canonical identifiers\<close>

lemma digit_not_space: "\<forall>c\<in>set ''0123456789''. \<not> is_space c \<and> c \<noteq> CHR ''-'' \<and> c \<noteq> CHR ''+''"
  by code_simp

lemma digitsD: "is_digits s \<Longrightarrow> c \<in> set s \<Longrightarrow> \<not> is_space c \<and> c \<noteq> CHR ''-'' \<and> c \<noteq> CHR ''+''"
  using digit_not_space unfolding is_digits_def list_all_iff by blast

lemma dropWhile_none: "(\<And>c. c \<in> set s \<Longrightarrow> \<not> P c) \<Longrightarrow> dropWhile P s = s"
  by (cases s) auto

lemma trim_digits: "is_digits s \<Longrightarrow> trim s = s"
  using dropWhile_none [of s is_space] dropWhile_none [of "rev s" is_space] digitsD [of s]
  unfolding trim_def by (metis rev_rev_ident set_rev)

lemma id_num_digits: "is_digits s \<Longrightarrow> id_num s = int (nat_of_string s)"
proof -
  assume d: "is_digits s"
  then obtain c r where s: "s = c # r" by (cases s) (auto simp: is_digits_def)
  have "c \<noteq> CHR ''-''" using digitsD [OF d, of c] s by simp
  then show ?thesis by (simp add: id_num_def s)
qed

lemma id_num_of_nat [simp]: "id_num (string_of_nat n) = int n"
  by (simp add: id_num_digits)

lemma bigint_digits:
  assumes d: "is_digits s"
  shows "bigint s = (if id_num s < 2 ^ 63 then Some (id_num s) else None)"
proof -
  obtain c r where s: "s = c # r" using d by (cases s) (auto simp: is_digits_def)
  have c: "c \<noteq> CHR ''-''" "c \<noteq> CHR ''+''" using digitsD [OF d, of c] s by simp_all
  have "- (2 ^ 63) \<le> int (nat_of_string s)" by (rule order_trans [of _ 0]) simp_all
  then show ?thesis
    unfolding bigint_def Let_def trim_digits [OF d] id_num_digits [OF d] using c d unfolding s by simp
qed

lemma bigint_canonical: "n < 2 ^ 63 \<Longrightarrow> bigint (string_of_nat n) = Some (int n)"
proof -
  assume "n < 2 ^ 63"
  then have "int n < 2 ^ 63" by (metis of_nat_less_iff of_nat_numeral of_nat_power)
  then show ?thesis using bigint_digits [of "string_of_nat n"] by simp
qed

lemma bigint_of_nat: "bigint (string_of_nat n) = Some m \<Longrightarrow> m = int n"
  using bigint_digits [of "string_of_nat n"] by (simp split: if_splits)

lemma show_int_of_nat [simp]: "show_int (int n) = string_of_nat n"
  by (simp add: show_int_def)

lemma id_num_show_int [simp]: "id_num (show_int n) = n"
  by (cases "n < 0") (simp_all add: show_int_def id_num_def [of "CHR ''-'' # _"])

subsection \<open>The tree as a relation\<close>

definition below :: "branch list \<Rightarrow> (ident \<times> ident) set" where
  "below rs = {(c, p). \<exists>b\<in>set rs. \<not> br_deleted b \<and> br_id b = c \<and> br_parent_id b = Some p}"

text \<open>A rank that grows by one along every parent pointer.\<close>

definition ranked :: "(ident \<Rightarrow> int) \<Rightarrow> branch list \<Rightarrow> bool" where
  "ranked L rs \<longleftrightarrow> (\<forall>b\<in>set rs. \<not> br_deleted b \<longrightarrow> (\<forall>p. br_parent_id b = Some p \<longrightarrow> L (br_id b) = L p + 1))"

lemma below_rank: "ranked L rs \<Longrightarrow> (c, p) \<in> below rs \<Longrightarrow> L c = L p + 1"
  by (auto simp: below_def ranked_def)

lemma below_rank_trancl: "ranked L rs \<Longrightarrow> (c, p) \<in> (below rs)\<^sup>+ \<Longrightarrow> L p < L c"
proof -
  assume r: "ranked L rs" and "(c, p) \<in> (below rs)\<^sup>+"
  from this(2) show ?thesis by (induction rule: trancl.induct) (use below_rank [OF r] in fastforce)+
qed

lemma finite_below: "finite (below rs)"
proof -
  have "below rs \<subseteq> (\<lambda>b. (br_id b, the (br_parent_id b))) ` set rs" by (force simp: below_def)
  then show ?thesis by (rule finite_subset) simp
qed

lemma wf_below: "ranked L rs \<Longrightarrow> wf (below rs)"
  by (intro finite_acyclic_wf finite_below acyclicI) (auto dest: below_rank_trancl)

lemma wf_queue: "ranked L rs \<Longrightarrow> wf (mult (below rs))"
  by (intro wf_mult wf_below)

text \<open>A round of any of the walks replaces some entries by their children.\<close>

lemma children_below: "c \<in> set (children x rs) \<Longrightarrow> (br_id c, x) \<in> below rs"
  by (auto simp: children_def below_def)

lemma step_mult:
  assumes "J \<noteq> {#}" and "\<And>k. k \<in># K \<Longrightarrow> \<exists>j\<in>#J. (k, j) \<in> r"
  shows "(I + K, I + J) \<in> mult r"
  by (rule one_step_implies_mult) (use assms in auto)


lemma trancl_child: "(b, x) \<in> r\<^sup>+ \<longleftrightarrow> (b, x) \<in> r \<or> (\<exists>c. (b, c) \<in> r\<^sup>+ \<and> (c, x) \<in> r)"
  by (metis trancl.simps)

lemma below_row:
  assumes "bt.wf n rs" and "b \<in> set rs"
  shows "(br_id b, p) \<in> below rs \<longleftrightarrow> \<not> br_deleted b \<and> br_parent_id b = Some p"
  using assms bt.mem_unique [OF assms(1) _ assms(2)] by (auto simp: below_def)

lemma below_child_mem:
  "(c, x) \<in> below rs \<longleftrightarrow> c \<in> br_id ` set (children x rs)"
  by (auto simp: below_def children_def)

subsection \<open>The level queue\<close>

abbreviation set_levels :: "ident \<Rightarrow> int \<Rightarrow> branch list \<Rightarrow> branch list" where
  "set_levels i l rs \<equiv> update_where (\<lambda>c. br_parent_id c = Some i \<and> \<not> br_deleted c) (\<lambda>c. c\<lparr>br_level := l\<rparr>) rs"

text \<open>An update that keeps identifiers, parents and deletions keeps the tree.\<close>

lemma map_tree:
  assumes "\<And>b. br_id (f b) = br_id b" "\<And>b. br_parent_id (f b) = br_parent_id b" "\<And>b. br_deleted (f b) = br_deleted b"
  shows "below (map f rs) = below rs" and "ranked L (map f rs) = ranked L rs"
  using assms by (simp_all add: below_def ranked_def)

lemma set_levels_below [simp]: "below (set_levels i l rs) = below rs"
  unfolding update_where_def by (rule map_tree) simp_all

lemma set_levels_ranked [simp]: "ranked L (set_levels i l rs) = ranked L rs"
  unfolding update_where_def by (rule map_tree) simp_all

lemma set_levels_wf: "bt.wf n rs \<Longrightarrow> bt.wf n (set_levels i l rs)"
  by (rule bt.wf_update_where) simp_all

definition relevel :: "(ident \<Rightarrow> int) \<Rightarrow> ident set \<Rightarrow> branch list \<Rightarrow> branch list" where
  "relevel L X rs = map (\<lambda>b. if \<not> br_deleted b \<and> (\<exists>x\<in>X. (br_id b, x) \<in> (below rs)\<^sup>+) then b\<lparr>br_level := L (br_id b)\<rparr> else b) rs"

lemma relevel_step:
  assumes wf: "bt.wf n rs" and r: "ranked L rs"
  shows "relevel L (X \<union> br_id ` set (children i rs)) (set_levels i (L i + 1) rs) = relevel L (insert i X) rs"
proof -
  have "(if \<not> br_deleted b' \<and> (\<exists>x\<in>X \<union> br_id ` set (children i rs). (br_id b', x) \<in> (below rs)\<^sup>+)
          then b'\<lparr>br_level := L (br_id b')\<rparr> else b')
      = (if \<not> br_deleted b \<and> (\<exists>x\<in>insert i X. (br_id b, x) \<in> (below rs)\<^sup>+) then b\<lparr>br_level := L (br_id b)\<rparr> else b)"
    if b: "b \<in> set rs" and b': "b' = (if br_parent_id b = Some i \<and> \<not> br_deleted b then b\<lparr>br_level := L i + 1\<rparr> else b)" for b b'
  proof (cases "br_parent_id b = Some i \<and> \<not> br_deleted b")
    case True
    then have e: "(br_id b, i) \<in> below rs" using below_row [OF wf b] by simp
    then have "L (br_id b) = L i + 1" "(br_id b, i) \<in> (below rs)\<^sup>+" using below_rank [OF r] by auto
    then show ?thesis using True b' by simp
  next
    case False
    then have "(br_id b, i) \<notin> below rs" using below_row [OF wf b] by blast
    then have "(br_id b, i) \<in> (below rs)\<^sup>+ \<longleftrightarrow> (\<exists>x\<in>br_id ` set (children i rs). (br_id b, x) \<in> (below rs)\<^sup>+)"
      using trancl_child [of "br_id b" i "below rs"] below_child_mem by blast
    moreover have "b' = b" using b' unfolding if_not_P [OF False] .
    ultimately show ?thesis by (simp only: bex_Un bex_simps(5) disj_commute)
  qed
  note row = this
  show ?thesis unfolding relevel_def set_levels_below unfolding update_where_def map_map comp_def
    by (intro map_cong refl row [OF _ refl])
qed

lemma rebalance_loop_returns:
  assumes "bt.wf n rs" and "ranked L rs" and "\<forall>(x, l)\<in>set queue. l = L x"
  shows "rebalance_loop queue rs = Some (relevel L (fst ` set queue) rs)"
proof -
  have "wf (mult (below rs))" by (rule wf_queue [OF assms(2)])
  moreover define r where "r = below rs"
  ultimately have wf: "wf (mult r)" by simp
  show ?thesis using assms r_def
  proof (induction "mset (map fst queue)" arbitrary: queue rs rule: wf_induct_rule [OF wf])
    case 1
    show ?case
    proof (cases queue)
      case Nil
      then show ?thesis by (simp add: rebalance_loop.simps relevel_def)
    next
      case (Cons e q)
      obtain i l where e: "e = (i, l)" by fastforce
      have l: "l = L i" and q: "\<forall>(x, l)\<in>set q. l = L x" using 1(4) Cons e by auto
      let ?kids = "map (\<lambda>c. (br_id c, l + 1)) (children i rs)"
      have kids: "\<forall>(x, l)\<in>set (q @ ?kids). l = L x"
        using q l below_rank [OF 1(3) children_below] by fastforce
      have smaller: "(mset (map fst (q @ ?kids)), mset (map fst queue)) \<in> mult r"
      proof -
        have "(mset (map fst q) + mset (map br_id (children i rs)), mset (map fst q) + {#i#}) \<in> mult r"
          by (rule step_mult) (auto simp: 1(5) dest: children_below)
        then show ?thesis using Cons e by (simp add: comp_def)
      qed
      have "rebalance_loop queue rs = rebalance_loop (q @ ?kids) (set_levels i (L i + 1) rs)"
        using Cons e l by (subst rebalance_loop.simps) simp
      also have "\<dots> = Some (relevel L (fst ` set (q @ ?kids)) (set_levels i (L i + 1) rs))"
        by (rule 1(1) [OF smaller]) (use 1(2-5) kids in \<open>simp_all add: set_levels_wf\<close>)
      also have "fst ` set (q @ ?kids) = fst ` set q \<union> br_id ` set (children i rs)" by (force simp: image_iff)
      also have "relevel L (fst ` set q \<union> br_id ` set (children i rs)) (set_levels i (L i + 1) rs)
          = relevel L (insert i (fst ` set q)) rs" by (rule relevel_step [OF 1(2,3)])
      finally show ?thesis using Cons e by simp
    qed
  qed
qed

subsection \<open>The descendants\<close>

definition under :: "ident set \<Rightarrow> branch list \<Rightarrow> branch set" where
  "under X rs = {b \<in> set rs. \<not> br_deleted b \<and> (\<exists>x\<in>X. (br_id b, x) \<in> (below rs)\<^sup>+)}"

text \<open>The queue never holds two branches of which one is below the other.\<close>

definition antichain :: "ident list \<Rightarrow> branch list \<Rightarrow> bool" where
  "antichain q rs \<longleftrightarrow> distinct q \<and> (\<forall>x\<in>set q. \<forall>y\<in>set q. (x, y) \<notin> (below rs)\<^sup>+)"

lemma below_functional:
  "bt.wf n rs \<Longrightarrow> (c, p) \<in> below rs \<Longrightarrow> (c, p') \<in> below rs \<Longrightarrow> p = p'"
  by (auto simp: below_def) (metis bt.mem_unique option.inject)

lemma below_up:
  assumes "bt.wf n rs" and "(c, x) \<in> below rs" and "(c, y) \<in> (below rs)\<^sup>+"
  shows "x = y \<or> (x, y) \<in> (below rs)\<^sup>+"
proof -
  obtain z where "(c, z) \<in> below rs" "(z, y) \<in> (below rs)\<^sup>*" using tranclD [OF assms(3)] by blast
  moreover have "z = x" using below_functional [OF assms(1)] calculation(1) assms(2) by blast
  ultimately show ?thesis by (metis rtranclD)
qed

lemma distinct_child_ids: "bt.wf n rs \<Longrightarrow> distinct (map br_id (children x rs))"
  unfolding bt.wf_def children_def by (auto intro: distinct_map_filter)

lemma siblings_apart:
  assumes "ranked L rs" and "(c, x) \<in> below rs" and "(d, x) \<in> below rs"
  shows "(c, d) \<notin> (below rs)\<^sup>+"
  using below_rank_trancl [OF assms(1)] below_rank [OF assms(1,2)] below_rank [OF assms(1,3)] by fastforce

lemma antichain_add:
  assumes "distinct (q @ ks)" and "\<forall>x\<in>set q. \<forall>y\<in>set q. (x, y) \<notin> r" and "\<forall>x\<in>set ks. \<forall>y\<in>set ks. (x, y) \<notin> r"
    and "\<forall>x\<in>set ks. \<forall>y\<in>set q. (x, y) \<notin> r \<and> (y, x) \<notin> r"
  shows "distinct (q @ ks) \<and> (\<forall>x\<in>set (q @ ks). \<forall>y\<in>set (q @ ks). (x, y) \<notin> r)"
  using assms by auto

lemma antichain_step:
  assumes wf: "bt.wf n rs" and r: "ranked L rs" and ac: "antichain (x # q) rs"
  shows "antichain (q @ map br_id (children x rs)) rs"
proof -
  let ?r = "(below rs)\<^sup>+"
  define ks where "ks = map br_id (children x rs)"
  have kid: "(c, x) \<in> below rs" if "c \<in> set ks" for c using that children_below by (auto simp: ks_def)
  have q: "\<And>y. y \<in> set q \<Longrightarrow> y \<noteq> x \<and> (x, y) \<notin> ?r \<and> (y, x) \<notin> ?r" and qq: "\<forall>x\<in>set q. \<forall>y\<in>set q. (x, y) \<notin> ?r"
    and dq: "distinct q" using ac by (auto simp: antichain_def)
  have 1: "(c, y) \<notin> ?r" "(y, c) \<notin> ?r" "c \<noteq> y" if "c \<in> set ks" "y \<in> set q" for c y
    using below_up [OF wf kid [OF that(1)], of y] q [OF that(2)] kid [OF that(1)]
    by (metis, meson trancl.trancl_into_trancl, metis r_into_trancl)
  have 2: "(c, d) \<notin> ?r" if "c \<in> set ks" "d \<in> set ks" for c d
    using siblings_apart [OF r] kid that by blast
  have "distinct ks" using distinct_child_ids [OF wf] by (simp add: ks_def)
  then have "distinct (q @ ks)" using dq 1(3) by auto
  then show ?thesis using antichain_add [OF _ qq, of ks] 1(1,2) 2 unfolding antichain_def ks_def by blast
qed

lemma under_step:
  assumes "bt.wf n rs"
  shows "under (insert x X) rs = set (children x rs) \<union> under (X \<union> br_id ` set (children x rs)) rs"
proof -
  have "(br_id b, x) \<in> (below rs)\<^sup>+ \<longleftrightarrow> b \<in> set (children x rs) \<or> (\<exists>c\<in>br_id ` set (children x rs). (br_id b, c) \<in> (below rs)\<^sup>+)"
    if "b \<in> set rs" "\<not> br_deleted b" for b
    using trancl_child [of "br_id b" x "below rs"] below_row [OF assms that(1)] that below_child_mem [of _ x rs]
    unfolding children_def set_filter by blast
  moreover have "set (children x rs) \<subseteq> {b \<in> set rs. \<not> br_deleted b}" by (auto simp: children_def)
  ultimately show ?thesis unfolding under_def by blast
qed

lemma kids_not_under:
  assumes wf: "bt.wf n rs" and r: "ranked L rs" and ac: "antichain (x # q) rs"
  shows "set (children x rs) \<inter> under (set q \<union> br_id ` set (children x rs)) rs = {}"
proof -
  have "(br_id b, y) \<notin> (below rs)\<^sup>+" if "b \<in> set (children x rs)" "y \<in> set q \<union> br_id ` set (children x rs)" for b y
    using antichain_step [OF assms] that unfolding antichain_def set_append list.set_map by blast
  then show ?thesis unfolding under_def by blast
qed

lemma descendants_loop_returns:
  assumes "bt.wf n rs" and "ranked L rs" and "antichain queue rs"
  shows "\<exists>ds. descendants_loop found queue rs = Some (found @ ds) \<and> distinct ds \<and> set ds = under (set queue) rs"
proof -
  have wf: "wf (mult (below rs))" by (rule wf_queue [OF assms(2)])
  show ?thesis using assms(3)
  proof (induction "mset queue" arbitrary: queue found rule: wf_induct_rule [OF wf])
    case 1
    show ?case
    proof (cases queue)
      case Nil
      then show ?thesis by (simp add: descendants_loop.simps under_def)
    next
      case (Cons x q)
      let ?q = "q @ map br_id (children x rs)"
      have smaller: "(mset ?q, mset queue) \<in> mult (below rs)"
      proof -
        have "(mset q + mset (map br_id (children x rs)), mset q + {#x#}) \<in> mult (below rs)"
          by (rule step_mult) (auto dest: children_below)
        then show ?thesis using Cons by simp
      qed
      have ac: "antichain (x # q) rs" using 1(2) Cons by simp
      obtain ds where ds: "descendants_loop (found @ children x rs) ?q rs = Some ((found @ children x rs) @ ds)"
        "distinct ds" "set ds = under (set ?q) rs"
        using 1(1) [OF smaller antichain_step [OF assms(1,2) ac], of "found @ children x rs"] by blast
      have "descendants_loop found queue rs = Some (found @ (children x rs @ ds))"
        unfolding Cons using ds(1) by (subst descendants_loop.simps) simp
      moreover have "distinct (children x rs)" using distinct_child_ids [OF assms(1)] by (simp add: distinct_map)
      moreover have "set (children x rs) \<inter> set ds = {}"
        unfolding ds(3) using kids_not_under [OF assms(1,2) ac] by simp
      moreover have "set (children x rs @ ds) = under (set queue) rs"
        unfolding Cons using under_step [OF assms(1)] ds(3) by simp
      ultimately show ?thesis using ds(2) by (intro exI [of _ "children x rs @ ds"]) simp
    qed
  qed
qed

lemma star_round:
  assumes "\<And>c. c \<in> W' \<longleftrightarrow> (\<exists>x\<in>W. (c, x) \<in> r)"
  shows "{i. \<exists>x\<in>W. (i, x) \<in> r\<^sup>*} = W \<union> {i. \<exists>x\<in>W'. (i, x) \<in> r\<^sup>*}"
  using assms by (blast elim: rtranclE intro: rtrancl_into_rtrancl)

lemma recursive_query_returns:
  assumes "ranked L rs"
  shows "\<exists>res. recursive_query found working rs = Some res
     \<and> set res = set found \<union> {i. \<exists>x\<in>set working. (i, x) \<in> (below rs)\<^sup>*}"
proof -
  have wf: "wf (mult (below rs))" by (rule wf_queue [OF assms])
  show ?thesis
  proof (induction "mset working" arbitrary: working found rule: wf_induct_rule [OF wf])
    case 1
    let ?w = "concat (map (\<lambda>t. map br_id (children t rs)) working)"
    have in_w: "c \<in> set ?w \<longleftrightarrow> (\<exists>x\<in>set working. (c, x) \<in> below rs)" for c
      using below_child_mem [of c _ rs] by auto
    show ?case
    proof (cases "working = []")
      case False
      have "({#} + mset ?w, {#} + mset working) \<in> mult (below rs)"
        by (rule step_mult) (use False in_w in auto)
      then have smaller: "(mset ?w, mset working) \<in> mult (below rs)" by simp
      obtain res where res: "recursive_query (found @ working) ?w rs = Some res"
        "set res = set (found @ working) \<union> {i. \<exists>x\<in>set ?w. (i, x) \<in> (below rs)\<^sup>*}"
        using 1 [OF smaller, of "found @ working"] by blast
      have "{i. \<exists>x\<in>set working. (i, x) \<in> (below rs)\<^sup>*} = set working \<union> {i. \<exists>x\<in>set ?w. (i, x) \<in> (below rs)\<^sup>*}"
        using in_w by (rule star_round)
      then show ?thesis using res False by (subst recursive_query.simps) auto
    qed (simp add: recursive_query.simps)
  qed
qed

end
