(* ===== verification/Branch_Invariant.thy ===== *)
theory Branch_Invariant
  imports Branch_Forest
begin

text \<open>
  The invariant of the branch tree and its preservation by every operation that changes the tree:
  one HQ at level 0, every other branch under a branch in use, one level deeper.
\<close>

subsection \<open>The invariant\<close>

definition shape :: "branch list \<Rightarrow> bool" where
  "shape rs \<longleftrightarrow> (\<forall>b\<in>set rs. \<not> br_deleted b \<longrightarrow>
     (if br_type b = HQ then br_parent_id b = None
      else (\<exists>p\<in>set rs. \<not> br_deleted p \<and> br_parent_id b = Some (br_id p))))"

definition levelled :: "branch list \<Rightarrow> bool" where
  "levelled rs \<longleftrightarrow> (\<forall>b\<in>set rs. \<not> br_deleted b \<longrightarrow> 0 \<le> br_level b \<and> (br_parent_id b = None \<longrightarrow> br_level b = 0)
     \<and> (\<forall>p\<in>set rs. \<not> br_deleted p \<and> br_parent_id b = Some (br_id p) \<longrightarrow> br_level b = br_level p + 1))"

definition one_hq :: "branch list \<Rightarrow> bool" where
  "one_hq rs \<longleftrightarrow> (\<forall>a\<in>set rs. \<forall>b\<in>set rs. \<not> br_deleted a \<and> \<not> br_deleted b \<and> br_type a = HQ \<and> br_type b = HQ \<longrightarrow> a = b)"

definition tree_ok :: "nat \<Rightarrow> branch list \<Rightarrow> bool" where
  "tree_ok n rs \<longleftrightarrow> bt.wf n rs \<and> n \<le> 2 ^ 63 \<and> shape rs \<and> levelled rs \<and> one_hq rs"

definition level_of :: "branch list \<Rightarrow> ident \<Rightarrow> int" where
  "level_of rs i = (case find (\<lambda>b. br_id b = i) rs of None \<Rightarrow> 0 | Some b \<Rightarrow> br_level b)"

lemma level_of_row: "bt.wf n rs \<Longrightarrow> b \<in> set rs \<Longrightarrow> level_of rs (br_id b) = br_level b"
  using bt.find_key_mem [of n rs b] by (simp add: level_of_def)

lemma parent_row:
  assumes "shape rs" and "b \<in> set rs" "\<not> br_deleted b" "br_parent_id b = Some p"
  obtains q where "q \<in> set rs" "\<not> br_deleted q" "br_id q = p"
proof -
  have "br_type b \<noteq> HQ" using assms unfolding shape_def by (metis option.distinct(1))
  then obtain q where "q \<in> set rs" "\<not> br_deleted q" "br_parent_id b = Some (br_id q)"
    using assms(1-3) unfolding shape_def by meson
  then show thesis using that assms(4) by simp
qed

lemma tree_ranked: "tree_ok n rs \<Longrightarrow> ranked (level_of rs) rs"
  unfolding ranked_def
proof (intro ballI impI allI)
  fix b p
  assume t: "tree_ok n rs" and b: "b \<in> set rs" "\<not> br_deleted b" "br_parent_id b = Some p"
  obtain q where q: "q \<in> set rs" "\<not> br_deleted q" "br_id q = p"
    using parent_row [OF _ b] t unfolding tree_ok_def by metis
  have "br_level b = br_level q + 1" using t b q unfolding tree_ok_def levelled_def by simp
  then show "level_of rs (br_id b) = level_of rs p + 1"
    using level_of_row b(1) q t unfolding tree_ok_def by metis
qed

text \<open>The walks end on a tree.\<close>

lemma tree_wf: "tree_ok n rs \<Longrightarrow> bt.wf n rs"
  by (simp add: tree_ok_def)

lemma below_levels:
  assumes t: "tree_ok n rs" and "(c, p) \<in> (below rs)\<^sup>+"
  shows "level_of rs p < level_of rs c"
  by (rule below_rank_trancl [OF tree_ranked [OF t] assms(2)])

subsection \<open>The cycle check\<close>

lemma lookup_canonical:
  assumes "bt.wf n rs" and "branch_by_id (string_of_nat k) rs = Inr (Some b)"
  shows "br_id b = string_of_nat k"
proof -
  note b = branch_by_id_Inr [OF assms(2)]
  then obtain j where "br_id b = string_of_nat j" using assms(1) unfolding bt.wf_def by blast
  then show ?thesis using b bigint_of_nat [of k] by fastforce
qed

lemma getBranch_Inr:
  "getBranchOrThrow s rs = Inr b \<Longrightarrow> branch_by_id s rs = Inr (Some b) \<and> b \<in> set rs \<and> \<not> br_deleted b"
  using branch_by_id_Inr [of s rs b]
  by (auto simp: getBranchOrThrow_def result_simps simp del: rbind.simps split: option.splits)

lemma row_canonical: "bt.wf n rs \<Longrightarrow> b \<in> set rs \<Longrightarrow> \<exists>k. br_id b = string_of_nat k"
  unfolding bt.wf_def by blast

text \<open>An accepted parent is not below the branch, nor the branch itself.\<close>

lemma cyclic_loop_accepts:
  assumes "tree_ok n rs" and "cyclic_loop i (Some c) visited rs = Inr ()" and "\<exists>k. c = string_of_nat k"
  shows "(c, i) \<notin> (below rs)\<^sup>*"
  using assms
proof (induction i "Some c" visited rs arbitrary: c rule: cyclic_loop.induct)
  case (1 i visited rs)
  obtain k where k: "c = string_of_nat k" using 1(4) by blast
  have "c \<noteq> []" unfolding k using is_digits_string_of_nat [of k] by (auto simp: is_digits_def)
  with 1(3) have ci: "c \<noteq> i" "c \<notin> set visited" by (auto simp: cyclic_loop.simps split: if_splits)
  obtain b where b: "branch_by_id c rs = Inr (Some b)" and rec: "cyclic_loop i (br_parent_id b) (c # visited) rs = Inr ()"
    using 1(3) ci \<open>c \<noteq> []\<close> by (subst (asm) cyclic_loop.simps) (auto split: sum.splits option.splits)
  have id: "br_id b = c" using lookup_canonical b k 1(2) unfolding tree_ok_def by blast
  note row = branch_by_id_Inr [OF b]
  show ?case
  proof
    assume "(c, i) \<in> (below rs)\<^sup>*"
    then obtain z where z: "(c, z) \<in> below rs" "(z, i) \<in> (below rs)\<^sup>*" using ci(1) by (metis converse_rtranclE)
    then have p: "br_parent_id b = Some z" using below_row [OF tree_wf [OF 1(2)]] row id by metis
    obtain q where "q \<in> set rs" "br_id q = z"
      using parent_row [OF _ _ _ p] row 1(2) unfolding tree_ok_def by metis
    then have "\<exists>k. z = string_of_nat k" using row_canonical [OF tree_wf [OF 1(2)]] by metis
    then show False using 1(1) [OF refl \<open>c \<noteq> []\<close> ci b refl, of z] p rec 1(2) z(2) by simp
  qed
qed

subsection \<open>Moving a branch\<close>

lemma cyclic_check:
  assumes "tree_ok n rs" and "ensureNotCyclicParent i c rs = Inr ()" and "\<exists>k. c = string_of_nat k"
  shows "(c, i) \<notin> (below rs)\<^sup>*"
  using assms cyclic_loop_accepts [of n rs i c "[]"] by (auto simp: ensureNotCyclicParent_def split: if_splits)

lemma move_branch_Inr:
  assumes "tree_ok n rs" and "move_branch b t np rs = Inr (parent, level)" and "np = None \<or> np = Some [] \<or> (\<exists>k. np = Some (string_of_nat k))"
  shows "if t = HQ then parent = None \<and> level = 0 \<and> (case live_hq rs of None \<Rightarrow> True | Some h \<Rightarrow> br_id h = br_id b)
         else (\<exists>p\<in>set rs. \<not> br_deleted p \<and> parent = Some (br_id p) \<and> level = br_level p + 1 \<and> (br_id p, br_id b) \<notin> (below rs)\<^sup>*)"
proof (cases "t = HQ")
  case True
  then show ?thesis using assms(2) by (auto simp: move_branch_def result_simps simp del: rbind.simps)
next
  case False
  with assms(2) obtain p where tr: "truthy np" and cy: "ensureNotCyclicParent (br_id b) (str_or_empty np) rs = Inr ()"
    and p: "getBranchOrThrow (str_or_empty np) rs = Inr p" "parent = Some (br_id p)" "level = br_level p + 1"
    by (auto simp: move_branch_def result_simps simp del: rbind.simps)
  then obtain k where k: "str_or_empty np = string_of_nat k" using assms(3) by auto
  note row = getBranch_Inr [OF p(1)]
  have "br_id p = string_of_nat k" using lookup_canonical [OF tree_wf [OF assms(1)]] row unfolding k by blast
  then have "(br_id p, br_id b) \<notin> (below rs)\<^sup>*" using cyclic_check [OF assms(1) cy] k by auto
  then show ?thesis using False row p by auto
qed

text \<open>
  The ranks after the move: the branch and what is below it shift by the change of its level.
\<close>

definition moved_rank :: "branch \<Rightarrow> int \<Rightarrow> branch list \<Rightarrow> ident \<Rightarrow> int" where
  "moved_rank b level rs i =
     (if (i, br_id b) \<in> (below rs)\<^sup>* then level_of rs i - br_level b + level else level_of rs i)"

definition move_ok :: "nat \<Rightarrow> branch list \<Rightarrow> branch \<Rightarrow> branch \<Rightarrow> bool" where
  "move_ok n rs b row \<longleftrightarrow> tree_ok n rs \<and> b \<in> set rs \<and> \<not> br_deleted b \<and> br_id row = br_id b \<and> \<not> br_deleted row
     \<and> (if br_type row = HQ
        then br_parent_id row = None \<and> br_level row = 0 \<and> (case live_hq rs of None \<Rightarrow> True | Some h \<Rightarrow> br_id h = br_id b)
        else (\<exists>p\<in>set rs. \<not> br_deleted p \<and> br_parent_id row = Some (br_id p) \<and> br_level row = br_level p + 1
                \<and> (br_id p, br_id b) \<notin> (below rs)\<^sup>*))"

lemma move_okD:
  assumes "move_ok n rs b row"
  shows "tree_ok n rs" "bt.wf n rs" "b \<in> set rs" "\<not> br_deleted b" "br_id row = br_id b" "\<not> br_deleted row"
    and "br_type row = HQ \<Longrightarrow> br_parent_id row = None \<and> br_level row = 0 \<and> (case live_hq rs of None \<Rightarrow> True | Some h \<Rightarrow> br_id h = br_id b)"
    and "br_type row \<noteq> HQ \<Longrightarrow> \<exists>p\<in>set rs. \<not> br_deleted p \<and> br_parent_id row = Some (br_id p) \<and> br_level row = br_level p + 1
           \<and> (br_id p, br_id b) \<notin> (below rs)\<^sup>*"
  using assms tree_wf unfolding move_ok_def by (simp_all split: if_splits)

lemma other_row: "move_ok n rs b row \<Longrightarrow> x \<in> set (save_row br_id row rs) \<Longrightarrow> br_id x \<noteq> br_id b \<Longrightarrow> x \<in> set rs"
  using bt.mem_save [of x row rs] by (auto simp: move_ok_def)

lemma this_row: "move_ok n rs b row \<Longrightarrow> x \<in> set (save_row br_id row rs) \<Longrightarrow> br_id x = br_id b \<Longrightarrow> x = row"
  using bt.mem_save [of x row rs] by (auto simp: move_ok_def)

lemma moved_rank_here: "move_ok n rs b row \<Longrightarrow> moved_rank b l rs (br_id b) = l"
  by (simp add: moved_rank_def level_of_row [OF move_okD(2,3)])

lemma moved_rank_edge:
  assumes m: "move_ok n rs b row" and c: "c \<noteq> br_id b" and e: "(c, p) \<in> below rs"
  shows "moved_rank b l rs c = moved_rank b l rs p + 1"
proof -
  have "level_of rs c = level_of rs p + 1" by (rule below_rank [OF tree_ranked [OF move_okD(1) [OF m]] e])
  moreover have "(c, br_id b) \<in> (below rs)\<^sup>* \<longleftrightarrow> (p, br_id b) \<in> (below rs)\<^sup>*"
    using c e below_up [OF move_okD(2) [OF m] e, of "br_id b"]
    by (metis converse_rtrancl_into_rtrancl rtrancl.rtrancl_refl rtranclD trancl_into_rtrancl)
  ultimately show ?thesis by (simp add: moved_rank_def)
qed

lemma edge_kept:
  assumes m: "move_ok n rs b row" and c: "c \<noteq> br_id b"
  shows "(c, p) \<in> below (save_row br_id row rs) \<longleftrightarrow> (c, p) \<in> below rs"
proof
  assume "(c, p) \<in> below (save_row br_id row rs)"
  then show "(c, p) \<in> below rs" using c other_row [OF m] unfolding below_def by blast
next
  assume "(c, p) \<in> below rs"
  then obtain x where x: "x \<in> set rs" "\<not> br_deleted x" "br_id x = c" "br_parent_id x = Some p" unfolding below_def by blast
  have "x \<in> set (save_row br_id row rs)" using bt.other_save [OF x(1), of row] x(3) c move_okD(5) [OF m] by simp
  with x show "(c, p) \<in> below (save_row br_id row rs)" unfolding below_def by blast
qed

lemma moved_ranked:
  assumes m: "move_ok n rs b row"
  shows "ranked (moved_rank b (br_level row) rs) (save_row br_id row rs)"
  unfolding ranked_def
proof (intro ballI impI allI)
  fix x p
  assume x: "x \<in> set (save_row br_id row rs)" "\<not> br_deleted x" "br_parent_id x = Some p"
  note D = move_okD [OF m]
  show "moved_rank b (br_level row) rs (br_id x) = moved_rank b (br_level row) rs p + 1"
  proof (cases "br_id x = br_id b")
    case True
    then have "x = row" by (rule this_row [OF m x(1)])
    with x(3) obtain q where q: "q \<in> set rs" "p = br_id q" "br_level row = br_level q + 1" "(p, br_id b) \<notin> (below rs)\<^sup>*"
      using D(7,8) by (cases "br_type row = HQ") auto
    then have "moved_rank b (br_level row) rs p = br_level q" by (simp add: moved_rank_def level_of_row [OF D(2)])
    then show ?thesis using True moved_rank_here [OF m] q(3) by simp
  next
    case False
    have "(br_id x, p) \<in> below (save_row br_id row rs)" using x by (auto simp: below_def)
    then show ?thesis using moved_rank_edge [OF m False] edge_kept [OF m False] by blast
  qed
qed

lemma moved_rank_pos:
  assumes m: "move_ok n rs b row" and x: "x \<in> set rs" "\<not> br_deleted x"
  shows "0 \<le> moved_rank b (br_level row) rs (br_id x)"
proof -
  note D = move_okD [OF m]
  have lev: "0 \<le> br_level y" if "y \<in> set rs" "\<not> br_deleted y" for y
    using D(1) that unfolding tree_ok_def levelled_def by blast
  have "0 \<le> br_level row" using D(7,8) lev by (cases "br_type row = HQ") auto
  moreover have "br_level b \<le> level_of rs (br_id x)" if "(br_id x, br_id b) \<in> (below rs)\<^sup>*"
    using that below_levels [OF D(1), of "br_id x" "br_id b"] level_of_row [OF D(2,3)] by (auto dest: rtranclD)
  ultimately show ?thesis using lev [OF x] level_of_row [OF D(2) x(1)] by (auto simp: moved_rank_def)
qed

text \<open>What is below the branch is the same before and after.\<close>

lemma moved_same_below:
  assumes m: "move_ok n rs b row" and x: "x \<in> set rs" "br_id x \<noteq> br_id b"
  shows "(br_id x, br_id b) \<in> (below (save_row br_id row rs))\<^sup>+ \<longleftrightarrow> (br_id x, br_id b) \<in> (below rs)\<^sup>+"
proof -
  let ?r1 = "below (save_row br_id row rs)" and ?r = "below rs"
  note irr = below_rank_trancl [OF moved_ranked [OF m], of "br_id b" "br_id b"]
  have old_irr: "(br_id b, br_id b) \<notin> ?r\<^sup>+" using below_levels [OF move_okD(1) [OF m]] by blast
  have 1: "(y, br_id b) \<in> ?r\<^sup>+" if "(y, br_id b) \<in> ?r1\<^sup>+" "y \<noteq> br_id b" for y
    using that
  proof (induction rule: converse_trancl_induct)
    case (base y)
    then show ?case using edge_kept [OF m] by blast
  next
    case (step y z)
    have "(y, z) \<in> ?r" using edge_kept [OF m] step(1,4) by blast
    moreover have "z \<noteq> br_id b" using step(2) irr by auto
    ultimately show ?case using step(3) by (meson trancl_into_trancl2)
  qed
  have 2: "(y, br_id b) \<in> ?r1\<^sup>+" if "(y, br_id b) \<in> ?r\<^sup>+" for y
    using that
  proof (induction rule: converse_trancl_induct)
    case (base y)
    then have "y \<noteq> br_id b" using old_irr by blast
    then show ?case using edge_kept [OF m] base by blast
  next
    case (step y z)
    then have "y \<noteq> br_id b" using old_irr by (meson trancl_into_trancl2)
    then show ?case using edge_kept [OF m] step by (meson trancl_into_trancl2)
  qed
  show ?thesis using 1 2 x(2) by blast
qed

lemma moved_shape:
  assumes m: "move_ok n rs b row"
  shows "shape (save_row br_id row rs)"
  unfolding shape_def
proof (intro ballI impI)
  fix x
  assume x: "x \<in> set (save_row br_id row rs)" "\<not> br_deleted x"
  note D = move_okD [OF m]
  have keep: "\<exists>q\<in>set (save_row br_id row rs). \<not> br_deleted q \<and> br_id q = br_id p" if "p \<in> set rs" "\<not> br_deleted p" for p
  proof (cases "br_id p = br_id row")
    case True
    then show ?thesis using bt.save_mem [OF that(1), of row] D(6) by metis
  next
    case False
    then show ?thesis using bt.other_save [OF that(1), of row] that(2) by metis
  qed
  show "if br_type x = HQ then br_parent_id x = None
        else \<exists>p\<in>set (save_row br_id row rs). \<not> br_deleted p \<and> br_parent_id x = Some (br_id p)"
  proof (cases "br_id x = br_id b")
    case True
    then have xr: "x = row" by (rule this_row [OF m x(1)])
    show ?thesis unfolding xr
    proof (cases "br_type row = HQ")
      case False
      then obtain p where "p \<in> set rs" "\<not> br_deleted p" "br_parent_id row = Some (br_id p)" using D(8) by blast
      then show "if br_type row = HQ then br_parent_id row = None
          else \<exists>p\<in>set (save_row br_id row rs). \<not> br_deleted p \<and> br_parent_id row = Some (br_id p)"
        using keep [of p] False by metis
    qed (simp add: D(7))
  next
    case False
    then have old: "x \<in> set rs" by (rule other_row [OF m x(1)])
    show ?thesis
    proof (cases "br_type x = HQ")
      case True
      then show ?thesis using D(1) old x(2) unfolding tree_ok_def shape_def by metis
    next
      case False
      then obtain p where "p \<in> set rs" "\<not> br_deleted p" "br_parent_id x = Some (br_id p)"
        using D(1) old x(2) unfolding tree_ok_def shape_def by metis
      then show ?thesis using keep [of p] False by metis
    qed
  qed
qed

lemma live_hq_row:
  assumes "x \<in> set rs" "\<not> br_deleted x" "br_type x = HQ"
  obtains h where "live_hq rs = Some h" "h \<in> set rs" "\<not> br_deleted h" "br_type h = HQ"
proof -
  have "live_hq rs \<noteq> None" using assms by (auto simp: live_hq_def find_None_iff)
  then obtain h where h: "live_hq rs = Some h" by blast
  then show thesis using that find_Some_mem [of _ rs h] by (auto simp: live_hq_def)
qed

lemma moved_one_hq:
  assumes m: "move_ok n rs b row"
  shows "one_hq (save_row br_id row rs)"
proof -
  note D = move_okD [OF m]
  have one: "x = y" if "x \<in> set rs" "y \<in> set rs" "\<not> br_deleted x" "\<not> br_deleted y" "br_type x = HQ" "br_type y = HQ" for x y
    using D(1) that unfolding tree_ok_def one_hq_def by blast
  have not_row: "br_type row \<noteq> HQ" if x: "x \<in> set rs" "\<not> br_deleted x" "br_type x = HQ" "br_id x \<noteq> br_id b" for x
  proof
    assume "br_type row = HQ"
    moreover obtain h where h: "live_hq rs = Some h" "h \<in> set rs" "\<not> br_deleted h" "br_type h = HQ" using live_hq_row [OF x(1-3)] .
    moreover have "h = x" using one h(2-4) x(1-3) by blast
    ultimately show False using D(7) x(4) by simp
  qed
  show ?thesis unfolding one_hq_def
  proof (intro ballI impI, elim conjE)
    fix x y
    assume x: "x \<in> set (save_row br_id row rs)" "\<not> br_deleted x" "br_type x = HQ"
      and y: "y \<in> set (save_row br_id row rs)" "\<not> br_deleted y" "br_type y = HQ"
    show "x = y"
      using this_row [OF m x(1)] this_row [OF m y(1)] other_row [OF m x(1)] other_row [OF m y(1)] one not_row x(2,3) y(2,3)
      by metis
  qed
qed

text \<open>Changing levels only.\<close>

lemma relevel_row:
  assumes "y \<in> set (relevel L X rs)"
  obtains x where "x \<in> set rs" "br_id y = br_id x" "br_parent_id y = br_parent_id x" "br_deleted y = br_deleted x" "br_type y = br_type x"
    "y = (if \<not> br_deleted x \<and> (\<exists>z\<in>X. (br_id x, z) \<in> (below rs)\<^sup>+) then x\<lparr>br_level := L (br_id x)\<rparr> else x)"
  using assms unfolding relevel_def set_map
proof (rule imageE)
  fix x
  assume y: "y = (if \<not> br_deleted x \<and> (\<exists>z\<in>X. (br_id x, z) \<in> (below rs)\<^sup>+) then x\<lparr>br_level := L (br_id x)\<rparr> else x)" and x: "x \<in> set rs"
  show thesis by (rule that [OF x _ _ _ _ y]) (simp_all add: y)
qed

lemma row_relevel:
  assumes "x \<in> set rs"
  obtains y where "y \<in> set (relevel L X rs)" "br_id y = br_id x" "br_parent_id y = br_parent_id x" "br_deleted y = br_deleted x"
proof -
  let ?y = "if \<not> br_deleted x \<and> (\<exists>z\<in>X. (br_id x, z) \<in> (below rs)\<^sup>+) then x\<lparr>br_level := L (br_id x)\<rparr> else x"
  have "?y \<in> set (relevel L X rs)" unfolding relevel_def set_map by (rule imageI [OF assms])
  then show thesis by (rule that) simp_all
qed

lemma relevel_ids: "map br_id (relevel L X rs) = map br_id rs"
  unfolding relevel_def map_map comp_def by (rule map_cong) simp_all

lemma relevel_wf: "bt.wf n rs \<Longrightarrow> bt.wf n (relevel L X rs)"
  unfolding bt.wf_def relevel_ids by (metis (no_types, lifting) relevel_row)

lemma relevel_shape: "shape rs \<Longrightarrow> shape (relevel L X rs)"
  unfolding shape_def
proof (intro ballI impI)
  fix y
  assume s: "\<forall>b\<in>set rs. \<not> br_deleted b \<longrightarrow> (if br_type b = HQ then br_parent_id b = None
      else \<exists>p\<in>set rs. \<not> br_deleted p \<and> br_parent_id b = Some (br_id p))"
    and y: "y \<in> set (relevel L X rs)" "\<not> br_deleted y"
  obtain x where x: "x \<in> set rs" "br_parent_id y = br_parent_id x" "br_deleted y = br_deleted x" "br_type y = br_type x"
    using relevel_row [OF y(1)] by metis
  show "if br_type y = HQ then br_parent_id y = None else \<exists>p\<in>set (relevel L X rs). \<not> br_deleted p \<and> br_parent_id y = Some (br_id p)"
  proof (cases "br_type x = HQ")
    case False
    then obtain p where "p \<in> set rs" "\<not> br_deleted p" "br_parent_id x = Some (br_id p)" using s x(1,3) y(2) by metis
    moreover obtain q where "q \<in> set (relevel L X rs)" "br_id q = br_id p" "br_deleted q = br_deleted p"
      using row_relevel [OF calculation(1)] by metis
    ultimately show ?thesis using False x(2,4) by metis
  qed (use s x y(2) in metis)
qed

lemma relevel_one_hq:
  assumes "bt.wf n rs" and "one_hq rs"
  shows "one_hq (relevel L X rs)"
  unfolding one_hq_def
proof (intro ballI impI, elim conjE)
  fix a b
  assume ab: "a \<in> set (relevel L X rs)" "b \<in> set (relevel L X rs)" "\<not> br_deleted a" "\<not> br_deleted b" "br_type a = HQ" "br_type b = HQ"
  obtain x where x: "x \<in> set rs" "br_id a = br_id x" "br_deleted a = br_deleted x" "br_type a = br_type x" using relevel_row [OF ab(1)] by metis
  obtain y where y: "y \<in> set rs" "br_id b = br_id y" "br_deleted b = br_deleted y" "br_type b = br_type y" using relevel_row [OF ab(2)] by metis
  have "x = y" using assms(2) x y ab(3-6) unfolding one_hq_def by metis
  then show "a = b" using bt.mem_unique [OF relevel_wf [OF assms(1)] ab(1,2)] x(2) y(2) by simp
qed

lemma moved_level:
  assumes m: "move_ok n rs b row" and y: "y \<in> set (relevel (moved_rank b (br_level row) rs) {br_id b} (save_row br_id row rs))" "\<not> br_deleted y"
  shows "br_level y = moved_rank b (br_level row) rs (br_id y)"
proof -
  note D = move_okD [OF m]
  obtain x where x: "x \<in> set (save_row br_id row rs)" "br_id y = br_id x" "br_deleted y = br_deleted x"
    "y = (if \<not> br_deleted x \<and> (\<exists>z\<in>{br_id b}. (br_id x, z) \<in> (below (save_row br_id row rs))\<^sup>+)
          then x\<lparr>br_level := moved_rank b (br_level row) rs (br_id x)\<rparr> else x)"
    using relevel_row [OF y(1)] by metis
  show ?thesis
  proof (cases "(br_id x, br_id b) \<in> (below (save_row br_id row rs))\<^sup>+")
    case True
    then show ?thesis using x y(2) by simp
  next
    case False
    then have yx: "y = x" using x(4) by simp
    show ?thesis
    proof (cases "br_id x = br_id b")
      case True
      then show ?thesis using this_row [OF m x(1)] yx moved_rank_here [OF m] by simp
    next
      case False
      then have old: "x \<in> set rs" by (rule other_row [OF m x(1)])
      have "(br_id x, br_id b) \<notin> (below rs)\<^sup>*"
        using moved_same_below [OF m old False] \<open>(br_id x, br_id b) \<notin> _\<close> False by (metis rtranclD)
      then show ?thesis using yx level_of_row [OF D(2) old] by (simp add: moved_rank_def)
    qed
  qed
qed

lemma moved_tree:
  assumes m: "move_ok n rs b row"
  shows "tree_ok n (relevel (moved_rank b (br_level row) rs) {br_id b} (save_row br_id row rs))" (is "tree_ok n ?rows")
proof -
  note D = move_okD [OF m]
  let ?L = "moved_rank b (br_level row) rs"
  have wf1: "bt.wf n (save_row br_id row rs)" by (rule bt.wf_save [OF D(2)])
  have "levelled ?rows" unfolding levelled_def
  proof (intro ballI impI conjI)
    fix y
    assume y: "y \<in> set ?rows" "\<not> br_deleted y"
    obtain x where x: "x \<in> set (save_row br_id row rs)" "br_id y = br_id x" "br_parent_id y = br_parent_id x" "br_deleted y = br_deleted x"
      using relevel_row [OF y(1)] by metis
    note lev = moved_level [OF m y]
    have old: "\<exists>z\<in>set rs. \<not> br_deleted z \<and> br_id z = br_id x" using other_row [OF m x(1)] this_row [OF m x(1)] D(3,4) x(4) y(2) by metis
    then show "0 \<le> br_level y" using moved_rank_pos [OF m] lev x(2) by metis
    show "br_level y = 0" if none: "br_parent_id y = None"
    proof (cases "br_id x = br_id b")
      case True
      then have "x = row" by (rule this_row [OF m x(1)])
      then have "br_type row = HQ" using D(8) none x(3) by force
      then show ?thesis using D(7) lev moved_rank_here [OF m] True x(2) by simp
    next
      case False
      then have xo: "x \<in> set rs" by (rule other_row [OF m x(1)])
      then have "br_level x = 0" using D(1) none x(3,4) y(2) unfolding tree_ok_def levelled_def by metis
      moreover have "(br_id x, br_id b) \<notin> (below rs)\<^sup>*"
        using False below_row [OF D(2) xo] none x(3) by (metis converse_rtranclE option.distinct(1))
      ultimately show ?thesis using lev x(2) level_of_row [OF D(2) xo] by (simp add: moved_rank_def)
    qed
    fix p
    assume p1: "p \<in> set ?rows" and "\<not> br_deleted p \<and> br_parent_id y = Some (br_id p)"
    then have p: "p \<in> set ?rows" "\<not> br_deleted p" "br_parent_id y = Some (br_id p)" by simp_all
    have "?L (br_id x) = ?L (br_id p) + 1"
      using moved_ranked [OF m] x y(2) p(3) unfolding ranked_def by metis
    then show "br_level y = br_level p + 1" using lev moved_level [OF m p(1,2)] x(2) by simp
  qed
  then show ?thesis
    using D(1) relevel_wf [OF wf1] relevel_shape [OF moved_shape [OF m]] relevel_one_hq [OF wf1 moved_one_hq [OF m]]
    unfolding tree_ok_def by blast
qed

subsection \<open>The operations\<close>

lemma getBranch_bt: "getBranchOrThrow s rs = Inr b \<Longrightarrow> b \<in> set rs" "getBranchOrThrow s rs = Inr b \<Longrightarrow> \<not> br_deleted b"
  using getBranch_Inr by blast+

lemma prepare_branch_Inr:
  assumes "prepare_branch dto b rs = Inr row"
  shows "br_id row = br_id b" and "br_deleted row = br_deleted b"
    and "move_branch b (br_type row) (case ub_parent_id dto of None \<Rightarrow> br_parent_id b | Some p \<Rightarrow> normalizeNullableBigint p) rs
         = Inr (br_parent_id row, br_level row)"
  using assms by (auto simp: prepare_branch_def result_simps simp del: rbind.simps)

text \<open>A request that writes the parent in its canonical form.\<close>

definition plain_parent :: "update_branch_dto \<Rightarrow> bool" where
  "plain_parent dto \<longleftrightarrow> (\<forall>s. ub_parent_id dto = Some (Some s) \<longrightarrow> s = [] \<or> (\<exists>k. s = string_of_nat k))"

lemma prepare_move_ok:
  assumes t: "tree_ok n rs" and b: "b \<in> set rs" "\<not> br_deleted b" and p: "prepare_branch dto b rs = Inr row" and pl: "plain_parent dto"
  shows "move_ok n rs b row"
proof -
  let ?np = "case ub_parent_id dto of None \<Rightarrow> br_parent_id b | Some p \<Rightarrow> normalizeNullableBigint p"
  have "\<exists>k. q = string_of_nat k" if q: "br_parent_id b = Some q" for q
    using parent_row [OF _ b q] row_canonical [OF tree_wf [OF t]] t unfolding tree_ok_def by metis
  then have "?np = None \<or> ?np = Some [] \<or> (\<exists>k. ?np = Some (string_of_nat k))"
    using pl by (auto simp: plain_parent_def normalizeNullableBigint_def split: option.split)
  from move_branch_Inr [OF t prepare_branch_Inr(3) [OF p] this]
  show ?thesis using t b prepare_branch_Inr(1,2) [OF p] unfolding move_ok_def by (simp split: if_splits)
qed

lemma save_branch_Inr: "save_branch r rs = Inr rs' \<Longrightarrow> rs' = save_row br_id r rs \<and> indexes_ok r rs"
  by (auto simp: save_branch_def split: if_splits)

lemma rebalance_moved:
  assumes m: "move_ok n rs b row"
  shows "rebalanceDescendantLevels (br_id row) (br_level row) (save_row br_id row rs)
       = Some (relevel (moved_rank b (br_level row) rs) {br_id b} (save_row br_id row rs))"
  unfolding rebalanceDescendantLevels_def
  using rebalance_loop_returns [OF bt.wf_save [OF move_okD(2) [OF m]] moved_ranked [OF m], of "[(br_id row, br_level row)]"]
    moved_rank_here [OF m] move_okD(5) [OF m] by simp

text \<open>Every request on a tree returns.\<close>

lemma returns_if: "(\<not> c \<Longrightarrow> m \<noteq> None) \<Longrightarrow> (if c then Some x else m) \<noteq> None"
  by simp

lemma collect_returns: "tree_ok n rs \<Longrightarrow> collectDescendantBranchIds roots rs \<noteq> None"
  unfolding collectDescendantBranchIds_def Let_def
proof (rule returns_if)
  assume "tree_ok n rs"
  from recursive_query_returns [OF tree_ranked [OF this]] show "recursive_query [] w rs \<noteq> None" for w
    by (metis option.distinct(1))
qed

lemma scope_returns:
  assumes t: "tree_ok n (branches db)"
  shows "resolveAccessScope rq db \<noteq> None"
  unfolding resolveAccessScope_def Let_def
proof (intro returns_if obind_returns)
  fix k
  let ?roots = "map bu_branch_id (filter (\<lambda>u. bu_role u = BU_MANAGER)
      (filter (\<lambda>u. id_num (bu_user_id u) = k \<and> \<not> bu_deleted u) (branch_users db)))"
  obtain tree where "collectDescendantBranchIds ?roots (branches db) = Some tree" using collect_returns [OF t] by blast
  then show "(case collectDescendantBranchIds ?roots (branches db) of None \<Rightarrow> None
      | Some tree \<Rightarrow> Some (Inr (filter (\<lambda>i. i \<noteq> []) (map bu_branch_id (filter (\<lambda>u. id_num (bu_user_id u) = k \<and> \<not> bu_deleted u)
          (branch_users db))) @ tree, ?roots))) \<noteq> None" by simp
qed simp

lemma canWrite_returns: "tree_ok n (branches db) \<Longrightarrow> assertCanWriteBranch i rq db \<noteq> None"
  unfolding assertCanWriteBranch_def by (intro returns_if obind_returns scope_returns) (simp_all split: prod.split)

lemma canRead_returns: "tree_ok n (branches db) \<Longrightarrow> assertCanReadBranch i rq db \<noteq> None"
  unfolding assertCanReadBranch_def by (intro returns_if obind_returns scope_returns) (simp_all split: prod.split)

lemma update_returns:
  assumes t: "tree_ok n (branches db)" and pl: "plain_parent dto"
  shows "updateBranch i dto rq db \<noteq> None"
  unfolding updateBranch_def
proof (intro obind_returns canWrite_returns [OF t])
  fix b row rows1
  assume b: "Some (getBranchOrThrow i (branches db)) = Some (Inr b)" and p: "Some (prepare_branch dto b (branches db)) = Some (Inr row)"
    and s: "Some (save_branch row (branches db)) = Some (Inr rows1)"
  have "move_ok n (branches db) b row" using prepare_move_ok [OF t] getBranch_bt b p pl by blast
  from rebalance_moved [OF this] s save_branch_Inr [of row "branches db" rows1]
  show "(case rebalanceDescendantLevels (br_id row) (br_level row) rows1 of None \<Rightarrow> None
       | Some rows2 \<Rightarrow> let db' = db\<lparr>branches := rows2\<rparr>
           in Some (Inr (if branch_changed b row then log_branch (branch_audit_row ''Branch'' (br_id row) ''updated'' rq) db' else db'))) \<noteq> None"
    by (simp add: Let_def)
qed simp_all

lemma update_tree:
  assumes t: "tree_ok (branch_seq db) (branches db)" and pl: "plain_parent dto" and u: "updateBranch i dto rq db = Some (Inr db')"
  shows "tree_ok (branch_seq db') (branches db')"
    and "\<exists>b row. getBranchOrThrow i (branches db) = Inr b \<and> prepare_branch dto b (branches db) = Inr row
          \<and> branches db' = relevel (moved_rank b (br_level row) (branches db)) {br_id b} (save_row br_id row (branches db))
          \<and> branch_users db' = branch_users db \<and> user_seq db' = user_seq db"
proof -
  from u obtain b row rows1 where b: "getBranchOrThrow i (branches db) = Inr b" and p: "prepare_branch dto b (branches db) = Inr row"
    and s: "save_branch row (branches db) = Inr rows1"
    and r: "(case rebalanceDescendantLevels (br_id row) (br_level row) rows1 of None \<Rightarrow> None
       | Some rows2 \<Rightarrow> let db' = db\<lparr>branches := rows2\<rparr>
           in Some (Inr (if branch_changed b row then log_branch (branch_audit_row ''Branch'' (br_id row) ''updated'' rq) db' else db'))) = (Some (Inr db') :: branch_db reply)"
    unfolding updateBranch_def obind_Inr option.inject by (elim exE conjE) (rule that, assumption+)
  have m: "move_ok (branch_seq db) (branches db) b row" using prepare_move_ok [OF t] getBranch_bt b p pl by blast
  have rows: "branches db' = relevel (moved_rank b (br_level row) (branches db)) {br_id b} (save_row br_id row (branches db))"
    and rest: "branch_users db' = branch_users db" "user_seq db' = user_seq db" "branch_seq db' = branch_seq db"
    using r rebalance_moved [OF m] save_branch_Inr [OF s] by (auto simp: Let_def log_branch_def split: if_splits)
  show "tree_ok (branch_seq db') (branches db')" unfolding rows rest(3) by (rule moved_tree [OF m])
  show "\<exists>b row. getBranchOrThrow i (branches db) = Inr b \<and> prepare_branch dto b (branches db) = Inr row
          \<and> branches db' = relevel (moved_rank b (br_level row) (branches db)) {br_id b} (save_row br_id row (branches db))
          \<and> branch_users db' = branch_users db \<and> user_seq db' = user_seq db"
    using b p rows rest by blast
qed

lemma insert_tree:
  assumes t: "tree_ok (branch_seq db) (branches db)" and i: "insert_branch r db = Inr (db', row)" and live: "\<not> br_deleted r"
    and hq: "br_type r = HQ \<Longrightarrow> br_parent_id r = None \<and> br_level r = 0 \<and> live_hq (branches db) = None"
    and hung: "br_type r \<noteq> HQ \<Longrightarrow> \<exists>p\<in>set (branches db). \<not> br_deleted p \<and> br_parent_id r = Some (br_id p) \<and> br_level r = br_level p + 1"
  shows "tree_ok (branch_seq db') (branches db')" and "branch_users db' = branch_users db" "user_seq db' = user_seq db"
    and "set (branches db) \<subseteq> set (branches db')"
proof -
  let ?rs = "branches db" and ?n = "branch_seq db"
  have row: "row = r\<lparr>br_id := string_of_nat ?n\<rparr>" and rows: "branches db' = ?rs @ [row]" "branch_seq db' = Suc ?n"
    and n: "?n < 2 ^ 63" and rest: "branch_users db' = branch_users db" "user_seq db' = user_seq db"
    using i by (auto simp: insert_branch_def Let_def split: if_splits)
  note T = t [unfolded tree_ok_def]
  have ids: "br_id row = string_of_nat ?n" by (simp add: row)
  have fresh: "br_id x \<noteq> br_id row" if "x \<in> set ?rs" for x using bt.fresh [of ?n ?rs x] T that ids by simp
  have wf: "bt.wf (Suc ?n) (?rs @ [row])" by (rule bt.wf_insert) (use T ids in simp_all)
  have old_parent: "\<exists>p\<in>set ?rs. \<not> br_deleted p \<and> br_parent_id x = Some (br_id p)" if "x \<in> set ?rs" "\<not> br_deleted x" "br_parent_id x = Some q" for x q
    using parent_row [OF _ that] T that(3) by metis
  have shape: "shape (?rs @ [row])"
    using T hq hung unfolding shape_def row by (auto split: if_splits)
  have "levelled (?rs @ [row])" unfolding levelled_def
  proof (intro ballI impI)
    fix x
    assume x: "x \<in> set (?rs @ [row])" "\<not> br_deleted x"
    show "0 \<le> br_level x \<and> (br_parent_id x = None \<longrightarrow> br_level x = 0) \<and> (\<forall>p\<in>set (?rs @ [row]).
        \<not> br_deleted p \<and> br_parent_id x = Some (br_id p) \<longrightarrow> br_level x = br_level p + 1)"
    proof (cases "x = row")
      case True
      have "br_level row = br_level p + 1" if "p \<in> set (?rs @ [row])" "\<not> br_deleted p" "br_parent_id row = Some (br_id p)" for p
      proof -
        have "br_type r \<noteq> HQ" using hq that(3) by (auto simp: row)
        then obtain q where q: "q \<in> set ?rs" "\<not> br_deleted q" "br_parent_id r = Some (br_id q)" "br_level r = br_level q + 1" using hung by blast
        then have "br_id q = br_id p" using that(3) by (simp add: row)
        then have "q = p" using bt.mem_unique [OF wf _ that(1)] q(1) by simp
        then show ?thesis using q(4) by (simp add: row)
      qed
      moreover have "0 \<le> br_level row" "br_parent_id row = None \<longrightarrow> br_level row = 0"
        using hq hung T unfolding levelled_def by (cases "br_type r = HQ"; force simp: row)+
      ultimately show ?thesis unfolding True by blast
    next
      case False
      then have o: "x \<in> set ?rs" using x by simp
      have "br_parent_id x \<noteq> Some (br_id row)" using old_parent [OF o x(2), of "br_id row"] fresh by force
      then show ?thesis using T o x(2) unfolding levelled_def by auto
    qed
  qed
  moreover have "one_hq (?rs @ [row])"
  proof -
    have none: "\<not> (x \<in> set ?rs \<and> \<not> br_deleted x \<and> br_type x = HQ)" if "br_type row = HQ" for x
      using hq that by (auto simp: row live_hq_def find_None_iff)
    have one: "x = y" if "x \<in> set ?rs" "y \<in> set ?rs" "\<not> br_deleted x" "\<not> br_deleted y" "br_type x = HQ" "br_type y = HQ" for x y
      using T that unfolding one_hq_def by blast
    show ?thesis unfolding one_hq_def
    proof (intro ballI impI)
      fix x y
      assume "x \<in> set (?rs @ [row])" "y \<in> set (?rs @ [row])"
        and h: "\<not> br_deleted x \<and> \<not> br_deleted y \<and> br_type x = HQ \<and> br_type y = HQ"
      then have "x = row \<or> x \<in> set ?rs" "y = row \<or> y \<in> set ?rs" by simp_all
      then show "x = y" using one none h by metis
    qed
  qed
  moreover have "Suc ?n \<le> 2 ^ 63" using n by simp
  ultimately show "tree_ok (branch_seq db') (branches db')" using wf shape rows unfolding tree_ok_def by simp
  show "branch_users db' = branch_users db" "user_seq db' = user_seq db" by (rule rest)+
  show "set (branches db) \<subseteq> set (branches db')" using rows by auto
qed

lemma place_branch_Inr:
  assumes "bt.wf n rs" and "place_branch t p rs = Inr (p', level)" and "bigint_column p' = Inr parent"
  shows "if t = HQ then parent = None \<and> level = 0 \<and> live_hq rs = None
         else (\<exists>q\<in>set rs. \<not> br_deleted q \<and> parent = Some (br_id q) \<and> level = br_level q + 1)"
proof (cases "t = HQ")
  case True
  then have "p' = p" "\<not> truthy p" "level = 0" "live_hq rs = None"
    using assms(2) by (auto simp: place_branch_def result_simps simp del: rbind.simps)
  moreover have "p = None \<or> p = Some []" using calculation(2) by (cases p) auto
  moreover have "bigint [] = None" by (simp add: bigint_def trim_def)
  ultimately show ?thesis using True assms(3) by (auto simp: bigint_column_def as_bigint_def)
next
  case False
  then obtain q where "p' = p" "truthy p" and q: "getBranchOrThrow (str_or_empty p) rs = Inr q" "level = br_level q + 1"
    using assms(2) by (auto simp: place_branch_def result_simps simp del: rbind.simps)
  then obtain s where s: "p' = Some s" "p = Some s" by (cases p) auto
  note row = getBranch_Inr [OF q(1)]
  have "bigint s = Some (id_num (br_id q))" using branch_by_id_Inr row s(2) by (metis str_or_empty_simps(2))
  then have "parent = Some (show_int (id_num (br_id q)))" using assms(3) s(1) by (auto simp: bigint_column_def as_bigint_def)
  moreover obtain k where "br_id q = string_of_nat k" using row_canonical [OF assms(1)] row by blast
  ultimately have "parent = Some (br_id q)" by simp
  then show ?thesis using False row q(2) by auto
qed

lemma create_tree:
  assumes t: "tree_ok (branch_seq db) (branches db)" and c: "createBranch dto rq db = Inr (db', saved)"
  shows "tree_ok (branch_seq db') (branches db')" and "branch_users db' = branch_users db \<and> user_seq db' = user_seq db"
    and "set (branches db) \<subseteq> set (branches db')"
proof -
  from c obtain ty p p' level parent db1 row where
    pl: "place_branch ty p (branches db) = Inr (p', level)" and par: "bigint_column p' = Inr parent"
    and ins: "insert_branch row db = Inr (db1, saved)" and row: "\<not> br_deleted row" "br_type row = ty" "br_level row = level" "br_parent_id row = parent"
    and db': "db' = log_branch (branch_audit_row ''Branch'' (br_id saved) ''created'' rq) db1"
    by (auto simp: createBranch_def Let_def result_simps simp del: rbind.simps)
  note place = place_branch_Inr [OF tree_wf [OF t] pl par]
  have "br_type row = HQ \<Longrightarrow> br_parent_id row = None \<and> br_level row = 0 \<and> live_hq (branches db) = None"
    "br_type row \<noteq> HQ \<Longrightarrow> \<exists>q\<in>set (branches db). \<not> br_deleted q \<and> br_parent_id row = Some (br_id q) \<and> br_level row = br_level q + 1"
    using place row by (simp_all split: if_splits)
  note ins' = insert_tree [OF t ins row(1) this]
  show "tree_ok (branch_seq db') (branches db')" "branch_users db' = branch_users db \<and> user_seq db' = user_seq db"
    "set (branches db) \<subseteq> set (branches db')" using ins' by (simp_all add: db' log_branch_def)
qed

text \<open>A branch without children in use can go.\<close>

lemma delete_tree:
  assumes t: "tree_ok n rs" and b: "b \<in> set rs" and leaf: "children (br_id b) rs = []" and row: "br_id row = br_id b" "br_deleted row"
  shows "tree_ok n (save_row br_id row rs)"
proof -
  note T = t [unfolded tree_ok_def]
  have other: "x \<in> set rs \<and> br_id x \<noteq> br_id b" if "x \<in> set (save_row br_id row rs)" "\<not> br_deleted x" for x
    using bt.mem_save [OF that(1)] that(2) row by auto
  have keep: "p \<in> set (save_row br_id row rs)" if "p \<in> set rs" "br_id p \<noteq> br_id b" for p
    using bt.other_save [OF that(1), of row] that(2) row(1) by simp
  have not_b: "br_id p \<noteq> br_id b" if "x \<in> set rs" "\<not> br_deleted x" "br_parent_id x = Some (br_id p)" for x p
    using leaf that by (auto simp: children_def filter_empty_conv)
  have "shape (save_row br_id row rs)" unfolding shape_def
  proof (intro ballI impI)
    fix x
    assume x: "x \<in> set (save_row br_id row rs)" "\<not> br_deleted x"
    have o: "x \<in> set rs" using other [OF x] by simp
    show "if br_type x = HQ then br_parent_id x = None
        else \<exists>p\<in>set (save_row br_id row rs). \<not> br_deleted p \<and> br_parent_id x = Some (br_id p)"
    proof (cases "br_type x = HQ")
      case False
      then obtain p where "p \<in> set rs" "\<not> br_deleted p" "br_parent_id x = Some (br_id p)" using T o x(2) unfolding shape_def by metis
      then show ?thesis using keep [of p] not_b [OF o x(2)] False by metis
    qed (use T o x(2) in \<open>simp add: shape_def\<close>)
  qed
  moreover have "levelled (save_row br_id row rs)" using T other unfolding levelled_def by blast
  moreover have "one_hq (save_row br_id row rs)" using T other unfolding one_hq_def by blast
  ultimately show ?thesis using T bt.wf_save [of n rs row] unfolding tree_ok_def by blast
qed

lemma delete_Inr:
  assumes "deleteBranch usage i rq db = Some (Inr db')"
  obtains b where "getBranchOrThrow i (branches db) = Inr b" "children (br_id b) (branches db) = []"
    "\<And>u. u \<in> set (branch_users db) \<Longrightarrow> \<not> bu_deleted u \<Longrightarrow> bu_branch_id u \<noteq> br_id b"
    "branches db' = save_row br_id (b\<lparr>br_deleted := True, br_status := INACTIVE\<rparr>) (branches db)"
    "branch_users db' = branch_users db" "user_seq db' = user_seq db" "branch_seq db' = branch_seq db"
proof -
  from assms obtain b rows where b: "getBranchOrThrow i (branches db) = Inr b"
    and g: "\<not> hasActiveChildren (br_id b) (branches db)" "length (filter (\<lambda>u. bu_branch_id u = br_id b \<and> \<not> bu_deleted u) (branch_users db)) = 0"
    and s: "save_branch (b\<lparr>br_deleted := True, br_status := INACTIVE\<rparr>) (branches db) = Inr rows"
    and r: "log_branch (branch_audit_row ''Branch'' (br_id b) ''deleted'' rq) (db\<lparr>branches := rows\<rparr>) = db'"
    unfolding deleteBranch_def Let_def obind_Inr option.inject require_Inr sum.inject by (elim exE conjE) (rule that, assumption+)
  show thesis
    by (rule that [OF b]) (use g s [THEN save_branch_Inr] r in \<open>auto simp: hasActiveChildren_def log_branch_def filter_empty_conv\<close>)
qed

lemma delete_returns:
  assumes t: "tree_ok n (branches db)"
  shows "deleteBranch usage i rq db \<noteq> None"
  unfolding deleteBranch_def Let_def
  by (intro obind_returns canWrite_returns [OF t]) simp_all

text \<open>An update of other columns keeps the tree.\<close>

lemma map_tree_ok:
  assumes f: "\<And>b. br_id (f b) = br_id b" "\<And>b. br_parent_id (f b) = br_parent_id b" "\<And>b. br_deleted (f b) = br_deleted b"
    "\<And>b. br_type (f b) = br_type b" "\<And>b. br_level (f b) = br_level b" and t: "tree_ok n rs"
  shows "tree_ok n (map f rs)"
proof -
  note T = t [unfolded tree_ok_def]
  have "bt.wf n (map f rs)" using T by (simp add: bt.wf_def f comp_def)
  moreover have "shape (map f rs)" "levelled (map f rs)" using T by (simp_all add: shape_def levelled_def f)
  moreover have "one_hq (map f rs)" unfolding one_hq_def
  proof (intro ballI impI)
    fix a b
    assume "a \<in> set (map f rs)" "b \<in> set (map f rs)" and h: "\<not> br_deleted a \<and> \<not> br_deleted b \<and> br_type a = HQ \<and> br_type b = HQ"
    then obtain x y where xy: "x \<in> set rs" "a = f x" "y \<in> set rs" "b = f y" by (metis (no_types, lifting) imageE set_map)
    then have "x = y" using T h f(3,4) unfolding one_hq_def by metis
    then show "a = b" using xy by simp
  qed
  ultimately show ?thesis using T unfolding tree_ok_def by blast
qed

text \<open>The start-up step, unless a branch other than HQ carries the configured code.\<close>

lemma ensureHq_tree:
  assumes t: "tree_ok (branch_seq db) (branches db)" and e: "ensureHqBranch code name addr db = Inr db'"
    and plain: "\<forall>b\<in>set (branches db). \<not> br_deleted b \<and> br_code b = Some code \<longrightarrow> br_type b = HQ"
  shows "tree_ok (branch_seq db') (branches db')" and "branch_users db' = branch_users db \<and> user_seq db' = user_seq db"
    and "\<forall>b\<in>set (branches db). \<not> br_deleted b \<longrightarrow> (\<exists>c\<in>set (branches db'). \<not> br_deleted c \<and> br_id c = br_id b)"
proof -
  let ?rs = "branches db"
  note T = t [unfolded tree_ok_def]
  have hq: "br_parent_id h = None \<and> br_level h = 0" if "h \<in> set ?rs" "\<not> br_deleted h" "br_type h = HQ" for h
    using T that unfolding shape_def levelled_def by metis
  have "tree_ok (branch_seq db') (branches db') \<and> branch_users db' = branch_users db \<and> user_seq db' = user_seq db
    \<and> (\<forall>b\<in>set ?rs. \<not> br_deleted b \<longrightarrow> (\<exists>c\<in>set (branches db'). \<not> br_deleted c \<and> br_id c = br_id b))"
  proof (cases "find (\<lambda>b. br_code b = Some code \<and> \<not> br_deleted b) ?rs")
    case (Some b)
    then have "b \<in> set ?rs" "\<not> br_deleted b" "br_type b = HQ" using find_Some_mem [OF Some] plain by blast+
    then have "db' = db" using e Some hq by (simp add: ensureHqBranch_def)
    then show ?thesis using t by blast
  next
    case None
    show ?thesis
    proof (cases "live_hq ?rs")
      case (Some h)
      have h: "h \<in> set ?rs" "\<not> br_deleted h" "br_type h = HQ" using find_Some_mem [OF Some [unfolded live_hq_def]] by simp_all
      let ?f = "\<lambda>x. if truthy (br_code x) then x else x\<lparr>br_code := Some code\<rparr>"
      have fh: "br_parent_id (?f h) = None" "br_level (?f h) = 0" using hq [OF h] by simp_all
      have run: "ensureHqBranch code name addr db = rbind (save_branch (?f h) ?rs) (\<lambda>rows. Inr (db\<lparr>branches := rows\<rparr>))"
        unfolding ensureHqBranch_def None Some option.case Let_def fh by simp
      obtain rows where rows0: "save_branch (?f h) ?rs = Inr rows" "db' = db\<lparr>branches := rows\<rparr>"
        using e [unfolded run rbind_Inr] by auto
      then have s: "save_branch (?f h) ?rs = Inr (branches db')" and db': "db' = db\<lparr>branches := branches db'\<rparr>" by simp_all
      have "update_where (\<lambda>x. br_id x = br_id h) ?f ?rs = save_row br_id (?f h) ?rs"
        by (rule bt.update_where_key [OF tree_wf [OF t] h(1)]) simp
      then have rows: "branches db' = map (\<lambda>x. if br_id x = br_id h then ?f x else x) ?rs"
        using save_branch_Inr [OF s] by (simp add: update_where_def)
      have "tree_ok (branch_seq db) (branches db')" unfolding rows by (rule map_tree_ok [OF _ _ _ _ _ t]) simp_all
      moreover have "\<exists>c\<in>set (branches db'). \<not> br_deleted c \<and> br_id c = br_id b" if "b \<in> set ?rs" "\<not> br_deleted b" for b
        using that unfolding rows by (intro bexI [of _ "if br_id b = br_id h then ?f b else b"]) auto
      moreover have "branch_seq db' = branch_seq db" "branch_users db' = branch_users db" "user_seq db' = user_seq db"
        by (subst db', simp)+
      ultimately show ?thesis by simp
    next
      case no: None
      from e None no obtain r row where i: "insert_branch r db = Inr (db', row)" and r: "\<not> br_deleted r" "br_type r = HQ" "br_parent_id r = None" "br_level r = 0"
        by (auto simp: ensureHqBranch_def result_simps simp del: rbind.simps)
      note ins = insert_tree [OF t i r(1)]
      show ?thesis using ins r no by blast
    qed
  qed
  then show "tree_ok (branch_seq db') (branches db')" "branch_users db' = branch_users db \<and> user_seq db' = user_seq db"
    "\<forall>b\<in>set (branches db). \<not> br_deleted b \<longrightarrow> (\<exists>c\<in>set (branches db'). \<not> br_deleted c \<and> br_id c = br_id b)" by simp_all
qed

end
