(* ===== verification/Branch_Users.thy ===== *)
theory Branch_Users
  imports Branch_Invariant
begin

text \<open>
  Users of branches, branch configuration and the branch whose cashbox a manager may use, of
  \<open>apps/branch-service/src/branch-service.service.ts\<close>, and the invariant of every reachable state of
  the service.

  The reply of the identity service to \<open>identity.user.find_by_id\<close> is an argument, and so is whether
  the finance service answers; when it does, its operation is \<open>createCashbox\<close>.
\<close>

text \<open>A user, a reply without one, an exception of the transport, or an error object with its status.\<close>

datatype user_reply = User_found "string option" | User_missing | User_exception rpc_error | User_error "nat option"

record branch_remote =
  bm_user :: "ident \<Rightarrow> user_reply"
  bm_finance_error :: "rpc_error option"

definition ensureUserExists :: "branch_remote \<Rightarrow> ident \<Rightarrow> rpc_error + string option" where
  "ensureUserExists rm u =
     (case bm_user rm u of
        User_found role \<Rightarrow> Inr role
      | User_missing \<Rightarrow> Inl (notFound ''User not found'')
      | User_exception (Rpc c m) \<Rightarrow> Inl (if c = 404 then notFound ''User not found'' else Rpc c m)
      | User_error status \<Rightarrow>
          Inl (if status = Some 404 then notFound ''User not found'' else Rpc 502 ''Identity service unavailable''))"

definition resolveBranchRoleFromUserRole :: "string option \<Rightarrow> rpc_error + BranchUserRole" where
  "resolveBranchRoleFromUserRole userRole =
     (let r = lower (trim (str_or_empty userRole)) in
      if r = ''manager'' then Inr BU_MANAGER else if r = ''registrator'' then Inr BU_REGISTRATOR
      else if r = ''courier'' then Inr BU_COURIER
      else Inl (badRequest ''User roli branchga biriktirish uchun mos emas (faqat manager/registrator/courier)''))"

text \<open>An error that says the cashbox exists is swallowed.\<close>

definition ensureBranchCashbox_branch :: "branch_remote \<Rightarrow> ident \<Rightarrow> finance \<Rightarrow> rpc_error + finance" where
  "ensureBranchCashbox_branch rm branchId fs =
     (case (case bm_finance_error rm of Some e \<Rightarrow> Inl e
            | None \<Rightarrow> createCashbox \<lparr>cr_user_id = Some branchId, cr_cashbox_type = C_BRANCH, cr_balance = None,
                        cr_balance_cash = None, cr_balance_card = None\<rparr> fs) of
        Inr (fs', _) \<Rightarrow> Inr fs'
      | Inl (Rpc c m) \<Rightarrow> if includes_str ''Cashbox already exists'' m then Inr fs else Inl (Rpc c m))"

fun role_text :: "BranchUserRole \<Rightarrow> string" where
  "role_text BU_MANAGER = ''MANAGER''"
| "role_text BU_REGISTRATOR = ''REGISTRATOR''"
| "role_text BU_COURIER = ''COURIER''"

text \<open>The checks of an assignment, up to the conflict with another branch.\<close>

definition check_assignment ::
  "branch_remote \<Rightarrow> string \<Rightarrow> string \<Rightarrow> string option \<Rightarrow> requester \<Rightarrow> branch_db \<Rightarrow> rpc_error + branch \<times> int \<times> BranchUserRole" where
  "check_assignment rm branchId userId role rq db =
     rbind (getBranchOrThrow branchId (branches db)) (\<lambda>b.
     rbind (ensureUserExists rm userId) (\<lambda>userRole.
     rbind (resolveBranchRoleFromUserRole userRole) (\<lambda>derivedRole.
     rbind (if trim (str_or_empty role) \<noteq> []
            then rbind (normalizeBranchUserRole role) (\<lambda>requested. require (requested = derivedRole)
                   (badRequest (''Berilgan role user roli bilan mos emas. User roli: '' @ role_text derivedRole)))
            else Inr ()) (\<lambda>_.
     rbind (if derivedRole = BU_COURIER
            then rbind (require (br_type b = HQ \<or> br_type b = REGIONAL \<or> br_type b = HYBRID)
                   (forbidden ''Courier faqat HQ, REGIONAL yoki HYBRID branchga biriktirilishi mumkin'')) (\<lambda>_.
                 let roles = map (\<lambda>r. lower (trim r)) (rq_roles rq) in
                 if ''superadmin'' \<in> set roles \<or> ''admin'' \<in> set roles then Inr ()
                 else rbind (as_bigint (trim (str_or_empty (rq_id rq)))) (\<lambda>n.
                        require (case find (\<lambda>u. id_num (bu_user_id u) = n \<and> bu_branch_id u = br_id b \<and> \<not> bu_deleted u) (branch_users db) of
                                   None \<Rightarrow> False | Some u \<Rightarrow> bu_role u = BU_MANAGER)
                          (forbidden ''Courier biriktirish uchun ushbu branchda MANAGER bo'lish kerak'')))
            else Inr ()) (\<lambda>_.
     rbind (as_bigint userId) (\<lambda>n.
     rbind (require (case find (\<lambda>u. id_num (bu_user_id u) = n \<and> \<not> bu_deleted u) (branch_users db) of
                       None \<Rightarrow> True | Some u \<Rightarrow> bu_branch_id u = branchId)
              (conflict ''User already assigned to another branch'')) (\<lambda>_.
       Inr (b, n, derivedRole))))))))"

text \<open>
  \<open>assignUserToBranch\<close>. The cashbox is ensured after the row is saved, so a failure of the finance
  service leaves the assignment in place; the result carries both states in either case.
\<close>

definition assignUserToBranch ::
  "branch_remote \<Rightarrow> string option \<Rightarrow> string option \<Rightarrow> string option \<Rightarrow> requester \<Rightarrow> branch_db \<times> finance
   \<Rightarrow> ((rpc_error + unit) \<times> branch_db \<times> finance) option" where
  "assignUserToBranch rm branch user role rq = (\<lambda>(db, fs).
     let branchId = trim (str_or_empty branch); userId = trim (str_or_empty user) in
     case obind (Some (require (branchId \<noteq> []) (badRequest ''branch_id is required''))) (\<lambda>_.
          obind (Some (require (userId \<noteq> []) (badRequest ''user_id is required''))) (\<lambda>_.
          obind (assertCanWriteBranch branchId rq db) (\<lambda>_.
          obind (Some (check_assignment rm branchId userId role rq db)) (\<lambda>(b, n, derivedRole).
            Some (case find (\<lambda>u. bu_branch_id u = br_id b \<and> id_num (bu_user_id u) = n) (branch_users db) of
                    Some existing \<Rightarrow>
                      if \<not> bu_deleted existing then Inl (conflict ''User already assigned to branch'')
                      else Inr (b, derivedRole, db\<lparr>branch_users :=
                             save_row bu_id (existing\<lparr>bu_deleted := False, bu_role := derivedRole\<rparr>) (branch_users db)\<rparr>)
                  | None \<Rightarrow>
                      Inr (b, derivedRole, db\<lparr>branch_users := branch_users db @
                             [\<lparr>bu_id = string_of_nat (user_seq db), bu_branch_id = br_id b, bu_user_id = show_int n,
                               bu_role = derivedRole, bu_deleted = False\<rparr>],
                             user_seq := Suc (user_seq db)\<rparr>)))))) of
       None \<Rightarrow> None
     | Some (Inl e) \<Rightarrow> Some (Inl e, db, fs)
     | Some (Inr (b, derivedRole, db1)) \<Rightarrow>
         (case (if derivedRole = BU_MANAGER then ensureBranchCashbox_branch rm branchId fs else Inr fs) of
            Inl e \<Rightarrow> Some (Inl e, db1, fs)
          | Inr fs' \<Rightarrow> Some (Inr (), log_branch (branch_audit_row ''BranchUser'' branchId ''assign'' rq) db1, fs')))"

definition removeUserFromBranch ::
  "string option \<Rightarrow> string option \<Rightarrow> requester \<Rightarrow> branch_db \<Rightarrow> branch_db reply" where
  "removeUserFromBranch branch user rq db =
     (let branchId = trim (str_or_empty branch); userId = trim (str_or_empty user) in
      obind (Some (require (branchId \<noteq> []) (badRequest ''branch_id is required''))) (\<lambda>_.
      obind (Some (require (userId \<noteq> []) (badRequest ''user_id is required''))) (\<lambda>_.
      obind (assertCanWriteBranch branchId rq db) (\<lambda>_.
      obind (Some (as_bigint branchId)) (\<lambda>b.
      obind (Some (as_bigint userId)) (\<lambda>n.
      obind (Some (find_or (notFound ''Branch user relation not found'')
               (\<lambda>u. id_num (bu_branch_id u) = b \<and> id_num (bu_user_id u) = n \<and> \<not> bu_deleted u) (branch_users db))) (\<lambda>row.
        Some (Inr (log_branch (branch_audit_row ''BranchUser'' branchId ''unassign'' rq)
                (db\<lparr>branch_users := save_row bu_id (row\<lparr>bu_deleted := True\<rparr>) (branch_users db)\<rparr>))))))))))"

subsection \<open>The branch whose cashbox a manager may use\<close>

text \<open>The branches from the manager's own up to the root; the walk remembers what it has visited.\<close>

function ancestors_loop :: "string \<Rightarrow> ident list \<Rightarrow> ident list \<Rightarrow> branch list \<Rightarrow> ident list" where
  "ancestors_loop cur visited accessible rs =
     (if cur = [] \<or> cur \<in> set visited then accessible
      else (case branch_by_id cur rs of
              Inr (Some b) \<Rightarrow> ancestors_loop (trim (str_or_empty (br_parent_id b))) (cur # visited) (accessible @ [br_id b]) rs
            | _ \<Rightarrow> accessible))"
  by pat_completeness auto

definition parent_texts :: "branch list \<Rightarrow> string set" where
  "parent_texts rs = (\<lambda>b. trim (str_or_empty (br_parent_id b))) ` set rs"

termination ancestors_loop
proof (relation "measure (\<lambda>(cur, visited, _, rs). 2 * card (parent_texts rs - set visited) + (if cur \<in> parent_texts rs then 0 else 1))")
  fix cur visited accessible rs and found :: "branch option" and b
  assume fresh: "\<not> (cur = [] \<or> cur \<in> set visited)" and f: "branch_by_id cur rs = Inr found" "found = Some b"
  let ?p = "trim (str_or_empty (br_parent_id b))"
  have p: "?p \<in> parent_texts rs" using branch_by_id_Inr f by (auto simp: parent_texts_def)
  have "2 * card (parent_texts rs - set (cur # visited)) < 2 * card (parent_texts rs - set visited) + (if cur \<in> parent_texts rs then 0 else 1)"
  proof (cases "cur \<in> parent_texts rs")
    case True
    then have "parent_texts rs - set (cur # visited) \<subset> parent_texts rs - set visited" using fresh by auto
    then have "card (parent_texts rs - set (cur # visited)) < card (parent_texts rs - set visited)"
      by (intro psubset_card_mono) (auto simp: parent_texts_def)
    then show ?thesis by simp
  next
    case False
    then have "parent_texts rs - set (cur # visited) = parent_texts rs - set visited" by auto
    then show ?thesis using False by simp
  qed
  with p show "((?p, cur # visited, accessible @ [br_id b], rs), cur, visited, accessible, rs)
      \<in> measure (\<lambda>(cur, visited, _, rs). 2 * card (parent_texts rs - set visited) + (if cur \<in> parent_texts rs then 0 else 1))"
    by simp
qed simp

declare ancestors_loop.simps [simp del]

definition latest_assignment :: "int \<Rightarrow> branch_db \<Rightarrow> branch_user option" where
  "latest_assignment n db = find (\<lambda>u. id_num (bu_user_id u) = n \<and> \<not> bu_deleted u) (rev (branch_users db))"

text \<open>The branch of the cashbox, or \<open>None\<close> for a reply without data.\<close>

definition resolveCashboxBranchForManager :: "string option \<Rightarrow> requester \<Rightarrow> branch_db \<Rightarrow> rpc_error + ident option" where
  "resolveCashboxBranchForManager requested rq db =
     (let requesterId = trim (str_or_empty (rq_id rq)); requestedId = trim (str_or_empty requested) in
      rbind (require (requesterId \<noteq> [] \<and> requestedId \<noteq> []) (badRequest ''requester_id and requested_id are required'')) (\<lambda>_.
      rbind (require (''manager'' \<in> set (map (\<lambda>r. lower (trim r)) (rq_roles rq))) (forbidden ''Requester branch manager emas'')) (\<lambda>_.
      rbind (as_bigint requesterId) (\<lambda>n.
      let own = trim (str_or_empty (case rq_branch_id rq of Some b \<Rightarrow> Some b
                       | None \<Rightarrow> map_option bu_branch_id (latest_assignment n db))) in
      if own = [] then Inr None
      else
      rbind (getBranchOrThrow own (branches db)) (\<lambda>mb.
      if requestedId = requesterId \<or> requestedId = br_id mb then Inr (Some (br_id mb))
      else let accessible = ancestors_loop (trim (str_or_empty (br_parent_id mb))) [br_id mb] [br_id mb] (branches db) in
      if requestedId \<in> set accessible then Inr (Some requestedId)
      else
      rbind (as_bigint requestedId) (\<lambda>r.
        let b = str_or_empty (map_option bu_branch_id (latest_assignment r db))
        in Inr (if b \<in> set accessible then Some b else None)))))))"

subsection \<open>Configuration\<close>

definition config_inputs :: "string option \<Rightarrow> string option \<Rightarrow> rpc_error + string \<times> string" where
  "config_inputs branch key =
     (let branchId = trim (str_or_empty branch); configKey = trim (str_or_empty key) in
      rbind (require (branchId \<noteq> []) (badRequest ''branch_id is required'')) (\<lambda>_.
      rbind (require (configKey \<noteq> []) (badRequest ''config_key is required'')) (\<lambda>_.
        Inr (branchId, configKey))))"

definition put_config :: "branch \<Rightarrow> string \<Rightarrow> string option \<Rightarrow> branch_db \<Rightarrow> branch_db" where
  "put_config b configKey value db =
     (case find (\<lambda>c. bc_branch_id c = br_id b \<and> bc_config_key c = configKey) (branch_configs db) of
        Some existing \<Rightarrow> db\<lparr>branch_configs :=
          save_row bc_id (existing\<lparr>bc_deleted := False, bc_config_value := value\<rparr>) (branch_configs db)\<rparr>
      | None \<Rightarrow> db\<lparr>branch_configs := branch_configs db @
          [\<lparr>bc_id = string_of_nat (config_seq db), bc_branch_id = br_id b, bc_config_key = configKey,
            bc_config_value = value, bc_deleted = False\<rparr>],
          config_seq := Suc (config_seq db)\<rparr>)"

definition setBranchConfig :: "string option \<Rightarrow> string option \<Rightarrow> string option \<Rightarrow> requester \<Rightarrow> branch_db \<Rightarrow> branch_db reply" where
  "setBranchConfig branch key value rq db =
     obind (Some (config_inputs branch key)) (\<lambda>(branchId, configKey).
     obind (assertCanWriteBranch branchId rq db) (\<lambda>_.
     obind (Some (getBranchOrThrow branchId (branches db))) (\<lambda>b.
       Some (Inr (log_branch (branch_audit_row ''BranchConfig'' branchId ''branch.config_set'' rq)
         (put_config b configKey value db))))))"

definition find_config :: "branch \<Rightarrow> string \<Rightarrow> branch_db \<Rightarrow> rpc_error + branch_config" where
  "find_config b configKey db =
     find_or (notFound ''Branch config not found'')
       (\<lambda>c. bc_branch_id c = br_id b \<and> bc_config_key c = configKey \<and> \<not> bc_deleted c) (branch_configs db)"

definition getBranchConfigByKey :: "string option \<Rightarrow> string option \<Rightarrow> requester \<Rightarrow> branch_db \<Rightarrow> branch_config reply" where
  "getBranchConfigByKey branch key rq db =
     obind (Some (config_inputs branch key)) (\<lambda>(branchId, configKey).
     obind (assertCanReadBranch branchId rq db) (\<lambda>_.
     obind (Some (getBranchOrThrow branchId (branches db))) (\<lambda>b. Some (find_config b configKey db))))"

definition updateBranchConfig :: "string option \<Rightarrow> string option \<Rightarrow> string option \<Rightarrow> requester \<Rightarrow> branch_db \<Rightarrow> branch_db reply" where
  "updateBranchConfig branch key value rq db =
     obind (Some (config_inputs branch key)) (\<lambda>(branchId, configKey).
     obind (assertCanWriteBranch branchId rq db) (\<lambda>_.
     obind (Some (getBranchOrThrow branchId (branches db))) (\<lambda>b.
     obind (Some (find_config b configKey db)) (\<lambda>item.
       let db' = db\<lparr>branch_configs := save_row bc_id (item\<lparr>bc_config_value := value\<rparr>) (branch_configs db)\<rparr>
       in Some (Inr (if bc_config_value item \<noteq> value
                     then log_branch (branch_audit_row ''BranchConfig'' branchId ''updated'' rq) db' else db'))))))"

definition deleteBranchConfig :: "string option \<Rightarrow> string option \<Rightarrow> requester \<Rightarrow> branch_db \<Rightarrow> branch_db reply" where
  "deleteBranchConfig branch key rq db =
     obind (Some (config_inputs branch key)) (\<lambda>(branchId, configKey).
     obind (assertCanWriteBranch branchId rq db) (\<lambda>_.
     obind (Some (getBranchOrThrow branchId (branches db))) (\<lambda>b.
     obind (Some (find_config b configKey db)) (\<lambda>item.
       Some (Inr (log_branch (branch_audit_row ''BranchConfig'' branchId ''deleted'' rq)
               (db\<lparr>branch_configs := save_row bc_id (item\<lparr>bc_deleted := True\<rparr>) (branch_configs db)\<rparr>)))))))"

section \<open>The states of the service\<close>

interpretation one_branch: live_unique bu_id "\<lambda>u. id_num (bu_user_id u)" bu_deleted .
interpretation one_row: live_unique bu_id "\<lambda>u. (bu_branch_id u, id_num (bu_user_id u))" "\<lambda>_. False" .
interpretation one_value: live_unique bc_id "\<lambda>c. (bc_branch_id c, bc_config_key c)" "\<lambda>_. False" .

definition users_ok :: "branch_db \<Rightarrow> bool" where
  "users_ok db \<longleftrightarrow> but.wf (user_seq db) (branch_users db) \<and> one_branch.uniq (branch_users db) \<and> one_row.uniq (branch_users db)
     \<and> (\<forall>u\<in>set (branch_users db). \<not> bu_deleted u \<longrightarrow> (\<exists>b\<in>set (branches db). \<not> br_deleted b \<and> br_id b = bu_branch_id u))"

definition branch_inv :: "branch_db \<Rightarrow> bool" where
  "branch_inv db \<longleftrightarrow> tree_ok (branch_seq db) (branches db) \<and> users_ok db \<and> one_value.uniq (branch_configs db)"

text \<open>What the service does between two states; a request that is refused changes nothing else.\<close>

inductive branch_reach :: "string \<Rightarrow> branch_db \<Rightarrow> bool" for hqCode where
  start: "ensureHqBranch hqCode name addr empty_branches = Inr db \<Longrightarrow> branch_reach hqCode db"
| restart: "branch_reach hqCode db \<Longrightarrow> ensureHqBranch hqCode name addr db = Inr db'
    \<Longrightarrow> \<forall>b\<in>set (branches db). \<not> br_deleted b \<and> br_code b = Some hqCode \<longrightarrow> br_type b = HQ \<Longrightarrow> branch_reach hqCode db'"
| create: "branch_reach hqCode db \<Longrightarrow> createBranch cdto rq db = Inr (db', b) \<Longrightarrow> branch_reach hqCode db'"
| update: "branch_reach hqCode db \<Longrightarrow> plain_parent udto \<Longrightarrow> updateBranch i udto rq db = Some (Inr db') \<Longrightarrow> branch_reach hqCode db'"
| delete: "branch_reach hqCode db \<Longrightarrow> deleteBranch usage i rq db = Some (Inr db') \<Longrightarrow> branch_reach hqCode db'"
| assign: "branch_reach hqCode db \<Longrightarrow> assignUserToBranch rm ob ou orole rq (db, fs) = Some (res, db', fs') \<Longrightarrow> branch_reach hqCode db'"
| remove: "branch_reach hqCode db \<Longrightarrow> removeUserFromBranch ob ou rq db = Some (Inr db') \<Longrightarrow> branch_reach hqCode db'"
| set_config: "branch_reach hqCode db \<Longrightarrow> setBranchConfig ob key value rq db = Some (Inr db') \<Longrightarrow> branch_reach hqCode db'"
| update_config: "branch_reach hqCode db \<Longrightarrow> updateBranchConfig ob key value rq db = Some (Inr db') \<Longrightarrow> branch_reach hqCode db'"
| delete_config: "branch_reach hqCode db \<Longrightarrow> deleteBranchConfig ob key rq db = Some (Inr db') \<Longrightarrow> branch_reach hqCode db'"

lemma users_keep:
  assumes "users_ok db" and "branch_users db' = branch_users db" "user_seq db' = user_seq db"
    and "\<And>b. b \<in> set (branches db) \<Longrightarrow> \<not> br_deleted b \<Longrightarrow> (\<exists>u\<in>set (branch_users db). \<not> bu_deleted u \<and> bu_branch_id u = br_id b)
       \<Longrightarrow> \<exists>c\<in>set (branches db'). \<not> br_deleted c \<and> br_id c = br_id b"
  shows "users_ok db'"
  using assms unfolding users_ok_def by metis

lemma rest_kept:
  "branches (log_branch a db) = branches db" "branch_seq (log_branch a db) = branch_seq db"
  "branch_users (log_branch a db) = branch_users db" "user_seq (log_branch a db) = user_seq db"
  "branch_configs (log_branch a db) = branch_configs db" "config_seq (log_branch a db) = config_seq db"
  by (simp_all add: log_branch_def)

text \<open>The tree operations leave the configuration alone.\<close>

lemma ensureHq_configs: "ensureHqBranch code name addr db = Inr db' \<Longrightarrow> branch_configs db' = branch_configs db"
  by (auto simp: ensureHqBranch_def insert_branch_def Let_def result_simps simp del: rbind.simps split: option.splits if_splits)

lemma create_configs: "createBranch cdto rq db = Inr (db', b) \<Longrightarrow> branch_configs db' = branch_configs db"
  by (auto simp: createBranch_def insert_branch_def Let_def result_simps rest_kept simp del: rbind.simps split: if_splits)

lemma update_configs: "updateBranch i udto rq db = Some (Inr db') \<Longrightarrow> branch_configs db' = branch_configs db"
  by (auto simp: updateBranch_def Let_def result_simps rest_kept simp del: rbind.simps split: option.splits if_splits)

lemma delete_configs: "deleteBranch usage i rq db = Some (Inr db') \<Longrightarrow> branch_configs db' = branch_configs db"
  by (auto simp: deleteBranch_def Let_def result_simps rest_kept simp del: rbind.simps)

subsection \<open>Assignments\<close>

text \<open>The row an assignment writes: the dead row of the pair revived, or a new one.\<close>

lemma assign_cases:
  assumes "assignUserToBranch rm ob ou orole rq (db, fs) = Some (res, db', fs')"
  obtains (refused) "db' = db"
  | (applied) b n role db1 where "getBranchOrThrow (trim (str_or_empty ob)) (branches db) = Inr b"
      "\<And>u. find (\<lambda>u. id_num (bu_user_id u) = n \<and> \<not> bu_deleted u) (branch_users db) = Some u \<Longrightarrow> bu_branch_id u = trim (str_or_empty ob)"
      "db' = db1 \<or> (\<exists>a. db' = log_branch a db1)"
      "(case find (\<lambda>u. bu_branch_id u = br_id b \<and> id_num (bu_user_id u) = n) (branch_users db) of
          Some e \<Rightarrow> bu_deleted e \<and> db1 = db\<lparr>branch_users := save_row bu_id (e\<lparr>bu_deleted := False, bu_role := role\<rparr>) (branch_users db)\<rparr>
        | None \<Rightarrow> db1 = db\<lparr>branch_users := branch_users db @ [\<lparr>bu_id = string_of_nat (user_seq db), bu_branch_id = br_id b,
             bu_user_id = show_int n, bu_role = role, bu_deleted = False\<rparr>], user_seq := Suc (user_seq db)\<rparr>)"
proof -
  define m where "m = obind (Some (require (trim (str_or_empty ob) \<noteq> []) (badRequest ''branch_id is required''))) (\<lambda>_.
          obind (Some (require (trim (str_or_empty ou) \<noteq> []) (badRequest ''user_id is required''))) (\<lambda>_.
          obind (assertCanWriteBranch (trim (str_or_empty ob)) rq db) (\<lambda>_.
          obind (Some (check_assignment rm (trim (str_or_empty ob)) (trim (str_or_empty ou)) orole rq db)) (\<lambda>(b, n, derivedRole).
            Some (case find (\<lambda>u. bu_branch_id u = br_id b \<and> id_num (bu_user_id u) = n) (branch_users db) of
                    Some existing \<Rightarrow>
                      if \<not> bu_deleted existing then Inl (conflict ''User already assigned to branch'')
                      else Inr (b, derivedRole, db\<lparr>branch_users :=
                             save_row bu_id (existing\<lparr>bu_deleted := False, bu_role := derivedRole\<rparr>) (branch_users db)\<rparr>)
                  | None \<Rightarrow>
                      Inr (b, derivedRole, db\<lparr>branch_users := branch_users db @
                             [\<lparr>bu_id = string_of_nat (user_seq db), bu_branch_id = br_id b, bu_user_id = show_int n,
                               bu_role = derivedRole, bu_deleted = False\<rparr>],
                             user_seq := Suc (user_seq db)\<rparr>))))))"
  have run: "(case m of None \<Rightarrow> None | Some (Inl e) \<Rightarrow> Some (Inl e, db, fs)
     | Some (Inr (b, derivedRole, db1)) \<Rightarrow>
         (case (if derivedRole = BU_MANAGER then ensureBranchCashbox_branch rm (trim (str_or_empty ob)) fs else Inr fs) of
            Inl e \<Rightarrow> Some (Inl e, db1, fs)
          | Inr fs' \<Rightarrow> Some (Inr (), log_branch (branch_audit_row ''BranchUser'' (trim (str_or_empty ob)) ''assign'' rq) db1, fs')))
     = Some (res, db', fs')"
    using assms unfolding assignUserToBranch_def prod.case Let_def m_def by blast
  consider e where "m = Some (Inl e)" | b role db1 where "m = Some (Inr (b, role, db1))" using run by (cases m) (auto split: sum.splits)
  then show thesis
  proof cases
    case 1
    then show thesis using run refused by simp
  next
    case 2
    have db': "db' = db1 \<or> (\<exists>a. db' = log_branch a db1)" using run unfolding 2 by (auto split: sum.splits if_splits)
    from 2 obtain bb n derived where ca: "check_assignment rm (trim (str_or_empty ob)) (trim (str_or_empty ou)) orole rq db = Inr (bb, n, derived)"
      and res: "(case find (\<lambda>u. bu_branch_id u = br_id bb \<and> id_num (bu_user_id u) = n) (branch_users db) of
                    Some existing \<Rightarrow>
                      if \<not> bu_deleted existing then Inl (conflict ''User already assigned to branch'')
                      else Inr (bb, derived, db\<lparr>branch_users :=
                             save_row bu_id (existing\<lparr>bu_deleted := False, bu_role := derived\<rparr>) (branch_users db)\<rparr>)
                  | None \<Rightarrow>
                      Inr (bb, derived, db\<lparr>branch_users := branch_users db @
                             [\<lparr>bu_id = string_of_nat (user_seq db), bu_branch_id = br_id bb, bu_user_id = show_int n,
                               bu_role = derived, bu_deleted = False\<rparr>],
                             user_seq := Suc (user_seq db)\<rparr>)) = Inr (b, role, db1)"
      unfolding m_def obind_Inr by auto
    have g: "getBranchOrThrow (trim (str_or_empty ob)) (branches db) = Inr bb"
      "\<And>u. find (\<lambda>u. id_num (bu_user_id u) = n \<and> \<not> bu_deleted u) (branch_users db) = Some u \<Longrightarrow> bu_branch_id u = trim (str_or_empty ob)"
      using ca by (auto simp: check_assignment_def result_simps simp del: rbind.simps split: option.splits)
    show thesis by (rule applied [OF g db', where role = derived]) (use res in \<open>auto split: option.splits if_splits\<close>)
  qed
qed

lemma assign_pair:
  assumes t: "tree_ok n0 (branches db)" and u: "users_ok db" and b: "getBranchOrThrow s (branches db) = Inr b"
    and one: "\<And>u. find (\<lambda>u. id_num (bu_user_id u) = n \<and> \<not> bu_deleted u) (branch_users db) = Some u \<Longrightarrow> bu_branch_id u = s"
    and x: "x \<in> set (branch_users db)" "\<not> bu_deleted x" "id_num (bu_user_id x) = n"
  shows "bu_branch_id x = br_id b"
proof -
  let ?P = "\<lambda>u. id_num (bu_user_id u) = n \<and> \<not> bu_deleted u"
  obtain y where y: "find ?P (branch_users db) = Some y" using x by (cases "find ?P (branch_users db)") (auto simp: find_None_iff)
  have "y = x" using find_Some_mem [OF y] x u one_branch.uniqD [of "branch_users db" y x] unfolding users_ok_def by auto
  then have s: "bu_branch_id x = s" using one [OF y] by simp
  obtain c where "c \<in> set (branches db)" "br_id c = s" using u x(1,2) s unfolding users_ok_def by blast
  then obtain k where "s = string_of_nat k" using row_canonical [OF tree_wf [OF t]] by metis
  then have "br_id b = s" using lookup_canonical [OF tree_wf [OF t]] getBranch_Inr [OF b] by blast
  then show ?thesis using s by simp
qed

lemma assign_users:
  assumes t: "tree_ok n0 (branches db)" and u: "users_ok db" and a: "assignUserToBranch rm ob ou orole rq (db, fs) = Some (res, db', fs')"
  shows "users_ok db' \<and> branches db' = branches db \<and> branch_seq db' = branch_seq db \<and> branch_configs db' = branch_configs db"
  using a
proof (cases rule: assign_cases)
  case refused
  then show ?thesis using u by simp
next
  case (applied b n role db1)
  note U = u [unfolded users_ok_def]
  have pair: "bu_branch_id x = br_id b" if "x \<in> set (branch_users db)" "\<not> bu_deleted x" "id_num (bu_user_id x) = n" for x
    by (rule assign_pair [OF t u applied(1,2) that])
  have live: "\<exists>c\<in>set (branches db). \<not> br_deleted c \<and> br_id c = br_id b" using getBranch_Inr [OF applied(1)] by blast
  let ?Q = "\<lambda>u. bu_branch_id u = br_id b \<and> id_num (bu_user_id u) = n"
  have "users_ok db1 \<and> branches db1 = branches db \<and> branch_seq db1 = branch_seq db \<and> branch_configs db1 = branch_configs db"
  proof (cases "find ?Q (branch_users db)")
    case None
    let ?r = "\<lparr>bu_id = string_of_nat (user_seq db), bu_branch_id = br_id b, bu_user_id = show_int n, bu_role = role, bu_deleted = False\<rparr>"
    have db1: "db1 = db\<lparr>branch_users := branch_users db @ [?r], user_seq := Suc (user_seq db)\<rparr>" using applied(4) None by simp
    have no: "\<not> ?Q x" if "x \<in> set (branch_users db)" for x using None that by (auto simp: find_None_iff)
    have 1: "but.wf (Suc (user_seq db)) (branch_users db @ [?r])" using U by (intro but.wf_insert) simp_all
    have 2: "one_branch.uniq (branch_users db @ [?r])" by (rule one_branch.uniq_insert) (use U pair no in force)+
    have 3: "one_row.uniq (branch_users db @ [?r])" by (rule one_row.uniq_insert) (use U no in auto)
    have "users_ok db1" unfolding users_ok_def db1 using 1 2 3 U live by simp
    then show ?thesis by (simp add: db1)
  next
    case (Some e)
    have e: "e \<in> set (branch_users db)" "?Q e" "bu_deleted e" using find_Some_mem [OF Some] applied(4) Some by simp_all
    let ?r = "e\<lparr>bu_deleted := False, bu_role := role\<rparr>"
    have db1: "db1 = db\<lparr>branch_users := save_row bu_id ?r (branch_users db)\<rparr>" using applied(4) Some by simp
    have same: "x = e" if "x \<in> set (branch_users db)" "?Q x" for x
      using one_row.uniqD [of "branch_users db" x e] U that e(1,2) by simp
    have 1: "but.wf (user_seq db) (save_row bu_id ?r (branch_users db))" using U by (intro but.wf_save) simp
    have oth: "id_num (bu_user_id x) \<noteq> n" if "x \<in> set (branch_users db)" "bu_id x \<noteq> bu_id e" "\<not> bu_deleted x" for x
      using pair [OF that(1) that(3)] same [OF that(1)] that(2) by metis
    have row: "id_num (bu_user_id ?r) = n" "bu_branch_id ?r = br_id b" "bu_id ?r = bu_id e" using e(2) by simp_all
    have 2: "one_branch.uniq (save_row bu_id ?r (branch_users db))"
      by (rule one_branch.uniq_save) (use U oth in \<open>simp_all only: row\<close>)
    have 3: "one_row.uniq (save_row bu_id ?r (branch_users db))"
      by (rule one_row.uniq_save) (use U same in \<open>simp_all only: row prod.inject; blast\<close>)+
    have 4: "\<exists>c\<in>set (branches db). \<not> br_deleted c \<and> br_id c = bu_branch_id x"
      if "x \<in> set (save_row bu_id ?r (branch_users db))" "\<not> bu_deleted x" for x
      using but.mem_save [OF that(1)] that(2) U live e(2) by auto
    have "users_ok db1" unfolding users_ok_def db1 using 1 2 3 4 by simp
    then show ?thesis by (simp add: db1)
  qed
  then show ?thesis using applied(3) by (auto simp: rest_kept users_ok_def)
qed

lemma remove_users:
  assumes u: "users_ok db" and r: "removeUserFromBranch ob ou rq db = Some (Inr db')"
  shows "users_ok db' \<and> branches db' = branches db \<and> branch_seq db' = branch_seq db \<and> branch_configs db' = branch_configs db"
proof -
  from r obtain row where row: "row \<in> set (branch_users db)" "\<not> bu_deleted row"
    and db': "\<exists>a. db' = log_branch a (db\<lparr>branch_users := save_row bu_id (row\<lparr>bu_deleted := True\<rparr>) (branch_users db)\<rparr>)"
    by (auto simp: removeUserFromBranch_def Let_def result_simps simp del: rbind.simps dest: find_Some_mem)
  note U = u [unfolded users_ok_def]
  let ?r = "row\<lparr>bu_deleted := True\<rparr>"
  have 1: "but.wf (user_seq db) (save_row bu_id ?r (branch_users db))" using U by (intro but.wf_save) simp
  have 2: "one_branch.uniq (save_row bu_id ?r (branch_users db))" by (rule one_branch.uniq_save) (use U in auto)
  have 3: "one_row.uniq (save_row bu_id ?r (branch_users db))"
    by (rule one_row.uniq_save) (use U row(1) one_row.uniqD [of "branch_users db" _ row] in force)+
  have 4: "\<exists>c\<in>set (branches db). \<not> br_deleted c \<and> br_id c = bu_branch_id x"
    if "x \<in> set (save_row bu_id ?r (branch_users db))" "\<not> bu_deleted x" for x
    using but.mem_save [OF that(1)] that(2) U by auto
  show ?thesis using db' 1 2 3 4 by (auto simp: rest_kept users_ok_def)
qed

text \<open>Configuration: one row per branch and key.\<close>

lemma config_save:
  assumes "one_value.uniq cs" and "c \<in> set cs" and "bc_branch_id r = bc_branch_id c" "bc_config_key r = bc_config_key c" "bc_id r = bc_id c"
  shows "one_value.uniq (save_row bc_id r cs)"
  using assms one_value.uniqD [OF assms(1) _ assms(2)] by (intro one_value.uniq_save) force+

definition config_change :: "branch_db \<Rightarrow> branch_db \<Rightarrow> bool" where
  "config_change db db' \<longleftrightarrow> branches db' = branches db \<and> branch_seq db' = branch_seq db \<and> branch_users db' = branch_users db \<and> user_seq db' = user_seq db
    \<and> ((\<exists>c r. c \<in> set (branch_configs db) \<and> bc_branch_id r = bc_branch_id c \<and> bc_config_key r = bc_config_key c \<and> bc_id r = bc_id c
          \<and> branch_configs db' = save_row bc_id r (branch_configs db))
       \<or> (\<exists>r. (\<forall>c\<in>set (branch_configs db). (bc_branch_id c, bc_config_key c) \<noteq> (bc_branch_id r, bc_config_key r))
          \<and> branch_configs db' = branch_configs db @ [r]))"

lemma config_change_uniq:
  "config_change db db' \<Longrightarrow> one_value.uniq (branch_configs db) \<Longrightarrow> one_value.uniq (branch_configs db')"
  using config_save [of "branch_configs db"] one_value.uniq_insert [of "branch_configs db"] unfolding config_change_def by auto

lemma config_change_save:
  assumes "c \<in> set (branch_configs db)" "bc_branch_id r = bc_branch_id c" "bc_config_key r = bc_config_key c" "bc_id r = bc_id c"
  shows "config_change db (db\<lparr>branch_configs := save_row bc_id r (branch_configs db)\<rparr>)"
  unfolding config_change_def using assms by (intro conjI disjI1 exI [of _ c] exI [of _ r]) simp_all

lemma config_change_log: "config_change db db' \<Longrightarrow> config_change db (log_branch a db')"
  by (simp add: config_change_def rest_kept)

lemma find_config_mem: "find_config b k db = Inr c \<Longrightarrow> c \<in> set (branch_configs db)"
  by (auto simp: find_config_def result_simps dest: find_Some_mem)

lemma put_config_change: "config_change db (put_config b k v db)"
proof (cases "find (\<lambda>c. bc_branch_id c = br_id b \<and> bc_config_key c = k) (branch_configs db)")
  case None
  let ?r = "\<lparr>bc_id = string_of_nat (config_seq db), bc_branch_id = br_id b, bc_config_key = k, bc_config_value = v, bc_deleted = False\<rparr>"
  have "\<forall>c\<in>set (branch_configs db). (bc_branch_id c, bc_config_key c) \<noteq> (bc_branch_id ?r, bc_config_key ?r)"
    using None by (simp add: find_None_iff)
  then show ?thesis unfolding config_change_def put_config_def None option.case
    by (intro conjI disjI2 exI [of _ ?r]) simp_all
next
  case (Some c)
  then show ?thesis unfolding put_config_def Some option.case
    by (intro config_change_save [of c]) (use find_Some_mem [OF Some] in simp_all)
qed

lemma set_config_change: "setBranchConfig ob key v rq db = Some (Inr db') \<Longrightarrow> config_change db db'"
  by (auto simp: setBranchConfig_def result_simps simp del: rbind.simps intro!: config_change_log put_config_change)

lemma update_config_change: "updateBranchConfig ob key v rq db = Some (Inr db') \<Longrightarrow> config_change db db'"
  by (auto simp: updateBranchConfig_def result_simps Let_def simp del: rbind.simps split: if_splits
      intro!: config_change_log config_change_save dest!: find_config_mem)

lemma delete_config_change: "deleteBranchConfig ob key rq db = Some (Inr db') \<Longrightarrow> config_change db db'"
  by (auto simp: deleteBranchConfig_def result_simps Let_def simp del: rbind.simps split: if_splits
      intro!: config_change_log config_change_save dest!: find_config_mem)

end
