(* ===== verification/Branch_Service.thy ===== *)
theory Branch_Service
  imports Branch_Users
begin

text \<open>
  The properties of the branch service over its reachable states: the shape of the tree, that the
  requests return, what the walks compute, and who may read and write a branch.
\<close>

subsection \<open>The invariant\<close>

lemma empty_inv: "branch_inv empty_branches"
  by (simp add: branch_inv_def users_ok_def empty_branches_def tree_ok_def shape_def levelled_def one_hq_def bt.wf_def but.wf_def
      one_branch.uniq_empty one_row.uniq_empty one_value.uniq_empty)

lemma branch_invI:
  assumes "tree_ok (branch_seq db') (branches db')" and "users_ok db'" and "branch_configs db' = branch_configs db" and "branch_inv db"
  shows "branch_inv db'"
  using assms by (simp add: branch_inv_def)

lemma branch_invD:
  assumes "branch_inv db"
  shows "tree_ok (branch_seq db) (branches db)" "users_ok db" "one_value.uniq (branch_configs db)"
  using assms by (simp_all add: branch_inv_def)

lemma hq_inv:
  assumes i: "branch_inv db" and e: "ensureHqBranch code name addr db = Inr db'"
    and p: "\<forall>b\<in>set (branches db). \<not> br_deleted b \<and> br_code b = Some code \<longrightarrow> br_type b = HQ"
  shows "branch_inv db'"
proof (rule branch_invI [OF _ _ ensureHq_configs [OF e] i])
  note h = ensureHq_tree [OF branch_invD(1) [OF i] e p]
  show "tree_ok (branch_seq db') (branches db')" by (rule h(1))
  show "users_ok db'" by (rule users_keep [OF branch_invD(2) [OF i]]) (use h(2,3) in blast)+
qed

lemma create_inv:
  assumes i: "branch_inv db" and c: "createBranch dto rq db = Inr (db', b)"
  shows "branch_inv db'"
proof (rule branch_invI [OF _ _ create_configs [OF c] i])
  note h = create_tree [OF branch_invD(1) [OF i] c]
  show "tree_ok (branch_seq db') (branches db')" by (rule h(1))
  show "users_ok db'" by (rule users_keep [OF branch_invD(2) [OF i]]) (use h(2,3) in blast)+
qed

lemma update_inv:
  assumes i: "branch_inv db" and p: "plain_parent dto" and u: "updateBranch k dto rq db = Some (Inr db')"
  shows "branch_inv db'"
proof (rule branch_invI [OF _ _ update_configs [OF u] i])
  note h = update_tree [OF branch_invD(1) [OF i] p u]
  show "tree_ok (branch_seq db') (branches db')" by (rule h(1))
  obtain b row where b: "getBranchOrThrow k (branches db) = Inr b" and r: "prepare_branch dto b (branches db) = Inr row"
    and rows: "branches db' = relevel (moved_rank b (br_level row) (branches db)) {br_id b} (save_row br_id row (branches db))"
    and users: "branch_users db' = branch_users db" "user_seq db' = user_seq db" using h(2) by metis
  have row: "br_id row = br_id b" "\<not> br_deleted row" using prepare_branch_Inr [OF r] getBranch_bt(2) [OF b] by simp_all
  show "users_ok db'"
  proof (rule users_keep [OF branch_invD(2) [OF i] users])
    fix x
    assume x: "x \<in> set (branches db)" "\<not> br_deleted x"
    obtain y where y: "y \<in> set (save_row br_id row (branches db))" "br_id y = br_id x" "\<not> br_deleted y"
    proof (cases "br_id x = br_id row")
      case True
      have "row \<in> set (save_row br_id row (branches db))" by (rule bt.save_mem [OF x(1) True])
      then show thesis using that True row(2) by metis
    next
      case False
      then show thesis using that bt.other_save [OF x(1) False] x(2) by blast
    qed
    then show "\<exists>c\<in>set (branches db'). \<not> br_deleted c \<and> br_id c = br_id x" unfolding rows using row_relevel [OF y(1)] by metis
  qed
qed

lemma delete_inv:
  assumes i: "branch_inv db" and d: "deleteBranch usage k rq db = Some (Inr db')"
  shows "branch_inv db'"
  using d
proof (cases rule: delete_Inr)
  case b: (1 b)
  have "tree_ok (branch_seq db') (branches db')" unfolding b(4) b(7)
    by (rule delete_tree [OF branch_invD(1) [OF i] getBranch_bt(1) [OF b(1)] b(2)]) simp_all
  moreover have "users_ok db'"
  proof (rule users_keep [OF branch_invD(2) [OF i] b(5,6)])
    fix x
    assume x: "x \<in> set (branches db)" "\<not> br_deleted x" "\<exists>u\<in>set (branch_users db). \<not> bu_deleted u \<and> bu_branch_id u = br_id x"
    then have "br_id x \<noteq> br_id b" using b(3) by metis
    then have "x \<in> set (branches db')" unfolding b(4) using bt.other_save [OF x(1)] by simp
    then show "\<exists>c\<in>set (branches db'). \<not> br_deleted c \<and> br_id c = br_id x" using x(2) by blast
  qed
  ultimately show ?thesis using branch_invI [OF _ _ delete_configs [OF d] i] by blast
qed

lemma config_inv: "branch_inv db \<Longrightarrow> config_change db db' \<Longrightarrow> branch_inv db'"
  using config_change_uniq [of db db'] unfolding branch_inv_def users_ok_def config_change_def by simp

lemma reach_inv: "branch_reach hqCode db \<Longrightarrow> branch_inv db"
proof (induction rule: branch_reach.induct)
  case (start name addr db)
  then show ?case using hq_inv [OF empty_inv] by (simp add: empty_branches_def)
next
  case (restart db name addr db')
  then show ?case using hq_inv by blast
next
  case (create db cdto rq db' b)
  then show ?case using create_inv by blast
next
  case (update db udto i rq db')
  then show ?case using update_inv by blast
next
  case (delete db usage i rq db')
  then show ?case using delete_inv by blast
next
  case (assign db rm ob ou orole rq fs res db' fs')
  note h = assign_users [OF branch_invD(1,2) [OF assign.IH] assign.hyps(2)]
  show ?case using h assign.IH unfolding branch_inv_def by (simp only:)
next
  case (remove db ob ou rq db')
  note h = remove_users [OF branch_invD(2) [OF remove.IH] remove.hyps(2)]
  show ?case using h remove.IH unfolding branch_inv_def by (simp only:)
next
  case (set_config db ob key v rq db')
  then show ?case using config_inv set_config_change by blast
next
  case (update_config db ob key v rq db')
  then show ?case using config_inv update_config_change by blast
next
  case (delete_config db ob key rq db')
  then show ?case using config_inv delete_config_change by blast
qed


text \<open>A service that has just started, with one regional branch and its manager.\<close>

definition demo_admin :: requester where
  "demo_admin = \<lparr>rq_id = Some ''1'', rq_roles = [''admin''], rq_branch_id = None\<rparr>"

definition demo_create :: create_branch_dto where
  "demo_create = \<lparr>cb_name = Some ''B'', cb_location = None, cb_address = None, cb_phone_number = None, cb_region_id = None,
     cb_district_id = None, cb_parent_id = Some ''1'', cb_type = Some ''REGIONAL'', cb_code = Some ''B2'', cb_manager_id = None\<rparr>"

definition demo_identity :: branch_remote where
  "demo_identity = \<lparr>bm_user = (\<lambda>_. User_found (Some ''manager'')), bm_finance_error = None\<rparr>"

lemma insert_branch_code [code]:
  "insert_branch r db =
     (let row = r\<lparr>br_id := string_of_nat (branch_seq db)\<rparr> in
      if int (branch_seq db) < 2 ^ 63 \<and> indexes_ok row (branches db)
      then Inr (db\<lparr>branches := branches db @ [row], branch_seq := Suc (branch_seq db)\<rparr>, row)
      else Inl db_error)"
proof -
  have "int n < 2 ^ 63 \<longleftrightarrow> n < 2 ^ 63" for n by (metis of_nat_less_iff of_nat_numeral of_nat_power)
  then show ?thesis by (simp only: insert_branch_def)
qed

definition demo_hq :: branch_db where
  "demo_hq = (case ensureHqBranch ''HQ'' ''A'' None empty_branches of Inl _ \<Rightarrow> empty_branches | Inr db \<Rightarrow> db)"

definition demo_two :: branch_db where
  "demo_two = (case createBranch demo_create demo_admin demo_hq of Inl _ \<Rightarrow> demo_hq | Inr (db, _) \<Rightarrow> db)"

definition demo_staffed :: branch_db where
  "demo_staffed = (case assignUserToBranch demo_identity (Some ''2'') (Some ''7'') None demo_admin (demo_two, empty_finance) of
     None \<Rightarrow> demo_two | Some (_, db, _) \<Rightarrow> db)"

lemma demo_staffed_reached: "branch_reach ''HQ'' demo_two" "branch_reach ''HQ'' demo_staffed"
proof -
  have "\<not> isl (ensureHqBranch ''HQ'' ''A'' None empty_branches)" by code_simp
  then have "ensureHqBranch ''HQ'' ''A'' None empty_branches = Inr demo_hq" by (cases "ensureHqBranch ''HQ'' ''A'' None empty_branches") (simp_all add: demo_hq_def)
  then have 1: "branch_reach ''HQ'' demo_hq" by (rule branch_reach.start)
  have "\<not> isl (createBranch demo_create demo_admin demo_hq)" by code_simp
  then obtain db b where c: "createBranch demo_create demo_admin demo_hq = Inr (db, b)" by (metis isl_def sum.exhaust surj_pair)
  then have "demo_two = db" by (simp add: demo_two_def)
  with branch_reach.create [OF 1 c] show 2: "branch_reach ''HQ'' demo_two" by simp
  show "branch_reach ''HQ'' demo_staffed"
  proof (cases "assignUserToBranch demo_identity (Some ''2'') (Some ''7'') None demo_admin (demo_two, empty_finance)")
    case None
    then show ?thesis using 2 by (simp add: demo_staffed_def)
  next
    case (Some r)
    then show ?thesis using branch_reach.assign [OF 2] by (cases r) (simp add: demo_staffed_def)
  qed
qed


subsection \<open>Requests return\<close>

lemma sorted_rows:
  "bt.wf n rs \<Longrightarrow> bt.wf n (sort_key f rs)" "below (sort_key f rs) = below rs" "ranked L (sort_key f rs) = ranked L rs"
  "under X (sort_key f rs) = under X rs"
proof -
  assume "bt.wf n rs"
  moreover have "mset (map br_id (sort_key f rs)) = mset (map br_id rs)" by simp
  then have "distinct (map br_id (sort_key f rs)) \<longleftrightarrow> distinct (map br_id rs)" by (rule mset_eq_imp_distinct_iff)
  ultimately show "bt.wf n (sort_key f rs)" unfolding bt.wf_def set_sort by blast
qed (simp_all add: below_def ranked_def under_def)

lemma descendants_return:
  assumes t: "tree_ok n (branches db)" and g: "getBranchOrThrow i (branches db) = Inr b"
  shows "\<exists>ds. findBranchDescendants i db = Some (Inr ds) \<and> distinct ds \<and> set ds = under {br_id b} (branches db)"
proof -
  have "antichain [br_id b] (sort_key br_level (branches db))"
    using below_levels [OF t, of "br_id b" "br_id b"] by (auto simp: antichain_def sorted_rows)
  then obtain ds where "descendants_loop [] [br_id b] (sort_key br_level (branches db)) = Some ds" "distinct ds"
    "set ds = under {br_id b} (branches db)"
    using descendants_loop_returns [OF sorted_rows(1) [OF tree_wf [OF t]], of "level_of (branches db)" br_level "[br_id b]" "[]"] tree_ranked [OF t]
    by (auto simp: sorted_rows)
  then show ?thesis by (simp add: findBranchDescendants_def g)
qed

text \<open>
  C19. No request on a reachable state runs forever, provided an update writes its parent in canonical
  form: the loops over the parent pointers and the recursive query all end.
\<close>

theorem branch_requests_return:
  assumes "branch_reach hqCode db" and "plain_parent dto"
  shows "updateBranch i dto rq db \<noteq> None \<and> deleteBranch usage i rq db \<noteq> None \<and> findBranchDescendants i db \<noteq> None
    \<and> assertCanReadBranch i rq db \<noteq> None \<and> assertCanWriteBranch i rq db \<noteq> None"
proof -
  have t: "tree_ok (branch_seq db) (branches db)" by (rule branch_invD(1) [OF reach_inv [OF assms(1)]])
  have "findBranchDescendants i db \<noteq> None"
  proof (cases "getBranchOrThrow i (branches db)")
    case (Inr b)
    then show ?thesis using descendants_return [OF t] by force
  qed (simp add: findBranchDescendants_def)
  then show ?thesis using update_returns [OF t assms(2)] delete_returns [OF t] canRead_returns [OF t] canWrite_returns [OF t] by blast
qed

definition no_update :: update_branch_dto where
  "no_update = \<lparr>ub_name = None, ub_location = None, ub_address = None, ub_phone_number = None, ub_region_id = None,
     ub_district_id = None, ub_parent_id = None, ub_type = None, ub_code = None, ub_status = None, ub_manager_id = None\<rparr>"

theorem branch_requests_return_witness:
  "updateBranch ''2'' (no_update\<lparr>ub_parent_id := Some (Some ''1'')\<rparr>) demo_admin demo_staffed \<noteq> None"
proof -
  have "''1'' = string_of_nat 1" by code_simp
  then have "plain_parent (no_update\<lparr>ub_parent_id := Some (Some ''1'')\<rparr>)" by (auto simp: plain_parent_def)
  then show ?thesis using branch_requests_return [OF demo_staffed_reached(2)] by blast
qed

text \<open>
  C20. The descendants of a branch are listed once each, and they are exactly the branches in use that
  lie below it.
\<close>

theorem descendants_are_the_subtree:
  assumes "branch_reach hqCode db" and "getBranchOrThrow i (branches db) = Inr b"
  shows "\<exists>ds. findBranchDescendants i db = Some (Inr ds) \<and> distinct ds
    \<and> set ds = {c \<in> set (branches db). \<not> br_deleted c \<and> (br_id c, br_id b) \<in> (below (branches db))\<^sup>+}"
  using descendants_return [OF branch_invD(1) [OF reach_inv [OF assms(1)]] assms(2)] by (simp add: under_def)

lemma demo_getBranch: "getBranchOrThrow ''1'' (branches demo_staffed) = Inr (hd (branches demo_staffed))"
  "br_id (hd (branches demo_staffed)) = ''1''" "map br_id (branches demo_staffed) = [''1'', ''2'']"
  by code_simp+

theorem descendants_are_the_subtree_witness:
  "\<exists>ds. findBranchDescendants ''1'' demo_staffed = Some (Inr ds) \<and> distinct ds
     \<and> set ds = {c \<in> set (branches demo_staffed). \<not> br_deleted c \<and> (br_id c, ''1'') \<in> (below (branches demo_staffed))\<^sup>+}"
  using descendants_are_the_subtree [OF demo_staffed_reached(2) demo_getBranch(1)] unfolding demo_getBranch(2) .

subsection \<open>Access\<close>

lemma live_assignment_branch:
  assumes i: "branch_inv db" and u: "u \<in> set (branch_users db)" "\<not> bu_deleted u"
  obtains b where "b \<in> set (branches db)" "\<not> br_deleted b" "br_id b = bu_branch_id u" "is_digits (bu_branch_id u)"
proof -
  obtain b where b: "b \<in> set (branches db)" "\<not> br_deleted b" "br_id b = bu_branch_id u"
    using branch_invD(2) [OF i] u unfolding users_ok_def by metis
  moreover have "is_digits (br_id b)" using row_canonical [OF tree_wf [OF branch_invD(1) [OF i]] b(1)] is_digits_string_of_nat by metis
  ultimately show thesis using that by metis
qed

lemma collect_set:
  assumes t: "tree_ok n rs" and d: "\<And>r. r \<in> set roots \<Longrightarrow> is_digits r \<and> (\<exists>b\<in>set rs. \<not> br_deleted b \<and> br_id b = r)"
  shows "\<exists>ids. collectDescendantBranchIds roots rs = Some ids \<and> set ids = {i. \<exists>r\<in>set roots. (i, r) \<in> (below rs)\<^sup>*}"
proof -
  have "map trim roots = roots" using d trim_digits by (simp add: map_idI)
  moreover have "filter (\<lambda>s. s \<noteq> []) roots = roots" using d by (auto simp: is_digits_def filter_id_conv)
  ultimately have run: "collectDescendantBranchIds roots rs = (if roots = [] then Some []
      else recursive_query [] (map br_id (filter (\<lambda>b. br_id b \<in> set roots \<and> \<not> br_deleted b) rs)) rs)"
    by (simp add: collectDescendantBranchIds_def)
  have "br_id ` {b \<in> set rs. br_id b \<in> set roots \<and> \<not> br_deleted b} = set roots" using d by (auto simp: image_iff)
  then show ?thesis using recursive_query_returns [OF tree_ranked [OF t], of "[]" "map br_id (filter (\<lambda>b. br_id b \<in> set roots \<and> \<not> br_deleted b) rs)"]
    unfolding run by auto
qed

text \<open>
  C18. A requester who is not an administrator reads exactly the branches assigned to them and
  those below a branch they manage, and writes exactly the branches they manage.
\<close>

theorem branch_access:
  assumes reach: "branch_reach hqCode db" and rq: "\<not> isSystemPrivileged rq" "bigint (trim (str_or_empty (rq_id rq))) = Some n"
  shows "(assertCanReadBranch i rq db = Some (Inr ()) \<longleftrightarrow>
       (\<exists>u\<in>set (branch_users db). \<not> bu_deleted u \<and> id_num (bu_user_id u) = n
          \<and> (i = bu_branch_id u \<or> bu_role u = BU_MANAGER \<and> (i, bu_branch_id u) \<in> (below (branches db))\<^sup>+)))
    \<and> (assertCanWriteBranch i rq db = Some (Inr ()) \<longleftrightarrow>
       (\<exists>u\<in>set (branch_users db). \<not> bu_deleted u \<and> id_num (bu_user_id u) = n \<and> bu_role u = BU_MANAGER \<and> i = bu_branch_id u))"
proof -
  note inv = reach_inv [OF reach]
  define mine where "mine = filter (\<lambda>u. id_num (bu_user_id u) = n \<and> \<not> bu_deleted u) (branch_users db)"
  define managed where "managed = map bu_branch_id (filter (\<lambda>u. bu_role u = BU_MANAGER) mine)"
  have mine: "is_digits (bu_branch_id u) \<and> (\<exists>b\<in>set (branches db). \<not> br_deleted b \<and> br_id b = bu_branch_id u)" if "u \<in> set mine" for u
    using that live_assignment_branch [OF inv, of u] unfolding mine_def set_filter by (metis (mono_tags, lifting) mem_Collect_eq)
  obtain ids where ids: "collectDescendantBranchIds managed (branches db) = Some ids"
    "set ids = {i. \<exists>r\<in>set managed. (i, r) \<in> (below (branches db))\<^sup>*}"
    using collect_set [OF branch_invD(1) [OF inv], of managed] mine unfolding managed_def by auto
  have "filter (\<lambda>i. i \<noteq> []) (map bu_branch_id mine) = map bu_branch_id mine" using mine by (auto simp: filter_id_conv is_digits_def)
  moreover have "bigint [] = None" by (simp add: bigint_def trim_def)
  then have "trim (str_or_empty (rq_id rq)) \<noteq> []" using rq(2) by (metis option.distinct(1))
  ultimately have scope: "resolveAccessScope rq db = Some (Inr (map bu_branch_id mine @ ids, managed))"
    using rq ids(1) by (simp add: resolveAccessScope_def Let_def as_bigint_def mine_def managed_def)
  have mem: "u \<in> set mine \<longleftrightarrow> u \<in> set (branch_users db) \<and> \<not> bu_deleted u \<and> id_num (bu_user_id u) = n" for u by (auto simp: mine_def)
  have "assertCanReadBranch i rq db = Some (Inr ()) \<longleftrightarrow> i \<in> bu_branch_id ` set mine \<union> set ids"
    using rq(1) by (simp add: assertCanReadBranch_def scope require_Inr)
  also have "\<dots> \<longleftrightarrow> (\<exists>u\<in>set mine. i = bu_branch_id u \<or> bu_role u = BU_MANAGER \<and> (i, bu_branch_id u) \<in> (below (branches db))\<^sup>+)"
    unfolding ids(2) managed_def rtrancl_eq_or_trancl by (simp add: image_iff Bex_def) blast
  finally have read: "assertCanReadBranch i rq db = Some (Inr ()) \<longleftrightarrow> (\<exists>u\<in>set mine. i = bu_branch_id u \<or> bu_role u = BU_MANAGER \<and> (i, bu_branch_id u) \<in> (below (branches db))\<^sup>+)" .
  have "assertCanWriteBranch i rq db = Some (Inr ()) \<longleftrightarrow> i \<in> set managed"
    using rq(1) by (simp add: assertCanWriteBranch_def scope require_Inr)
  also have "\<dots> \<longleftrightarrow> (\<exists>u\<in>set mine. bu_role u = BU_MANAGER \<and> i = bu_branch_id u)" by (auto simp: managed_def image_iff Bex_def)
  finally show ?thesis unfolding read Bex_def mem by (simp only: conj_assoc)
qed

definition demo_manager :: requester where
  "demo_manager = \<lparr>rq_id = Some ''7'', rq_roles = [''manager''], rq_branch_id = None\<rparr>"

theorem branch_access_witness:
  "assertCanWriteBranch ''2'' demo_manager demo_staffed = Some (Inr ()) \<and> assertCanWriteBranch ''1'' demo_manager demo_staffed \<noteq> Some (Inr ())"
proof -
  have h: "\<not> isSystemPrivileged demo_manager" "bigint (trim (str_or_empty (rq_id demo_manager))) = Some 7" by code_simp+
  have u: "map (\<lambda>u. (bu_deleted u, id_num (bu_user_id u), bu_role u, bu_branch_id u)) (branch_users demo_staffed) = [(False, 7, BU_MANAGER, ''2'')]"
    by code_simp
  then obtain v where v: "branch_users demo_staffed = [v]" "\<not> bu_deleted v" "id_num (bu_user_id v) = 7" "bu_role v = BU_MANAGER" "bu_branch_id v = ''2''"
    by (cases "branch_users demo_staffed") simp_all
  show ?thesis using branch_access [OF demo_staffed_reached(2) h, of "''2''"] branch_access [OF demo_staffed_reached(2) h, of "''1''"]
    unfolding v(1) using v(2-5) by simp
qed

subsection \<open>A branch that becomes its own parent\<close>

lemma lookup_number:
  assumes wf: "bt.wf n rs" and q: "q \<in> set rs" "\<not> br_deleted q" and s: "bigint s = Some (id_num (br_id q))"
  shows "branch_by_id s rs = Inr (Some q)"
proof -
  let ?P = "\<lambda>b. id_num (br_id b) = id_num (br_id q) \<and> \<not> br_deleted b"
  obtain b where b: "find ?P rs = Some b" using q by (cases "find ?P rs") (auto simp: find_None_iff)
  then have m: "b \<in> set rs" "id_num (br_id b) = id_num (br_id q)" using find_Some_mem [OF b] by simp_all
  then have "br_id b = br_id q" using row_canonical [OF wf m(1)] row_canonical [OF wf q(1)] by auto
  then have "b = q" by (rule bt.mem_unique [OF wf m(1) q(1)])
  then show ?thesis using b s by (simp add: branch_by_id_def as_bigint_def)
qed

lemma lookup_row:
  assumes t: "tree_ok n rs" and q: "q \<in> set rs" "\<not> br_deleted q"
  shows "branch_by_id (br_id q) rs = Inr (Some q)"
proof (rule lookup_number [OF tree_wf [OF t] q])
  obtain k where k: "br_id q = string_of_nat k" "k < n" using tree_wf [OF t] q(1) unfolding bt.wf_def by blast
  then have "k < 2 ^ 63" using t unfolding tree_ok_def by simp
  then show "bigint (br_id q) = Some (id_num (br_id q))" unfolding k(1) by (simp add: bigint_canonical)
qed

text \<open>The cycle check passes on a branch whose ancestors are neither the branch nor visited.\<close>

lemma cyclic_loop_passes:
  assumes "tree_ok n rs" and "q \<in> set rs" "\<not> br_deleted q" and "\<forall>a. (br_id q, a) \<in> (below rs)\<^sup>* \<longrightarrow> a \<noteq> i \<and> a \<notin> set visited"
  shows "cyclic_loop i (Some (br_id q)) visited rs = Inr ()"
  using assms
proof (induction i "Some (br_id q)" visited rs arbitrary: q rule: cyclic_loop.induct)
  case (1 i visited rs)
  note q = 1(3,4)
  have found: "branch_by_id (br_id q) rs = Inr (Some q)" by (rule lookup_row [OF 1(2) q])
  have here: "br_id q \<noteq> i" "br_id q \<notin> set visited" using 1(5) by blast+
  have rest: "cyclic_loop i (br_parent_id q) (br_id q # visited) rs = Inr ()"
  proof (cases "br_parent_id q")
    case None
    then show ?thesis by (simp add: cyclic_loop.simps)
  next
    case (Some p)
    obtain r where r: "r \<in> set rs" "\<not> br_deleted r" "br_id r = p" using parent_row [OF _ q Some] 1(2) unfolding tree_ok_def by metis
    have e: "(br_id q, p) \<in> below rs" using q Some unfolding below_def by blast
    have "a \<noteq> i \<and> a \<notin> set (br_id q # visited)" if "(p, a) \<in> (below rs)\<^sup>*" for a
      using 1(5) below_levels [OF 1(2) rtrancl_into_trancl2 [OF e that]] converse_rtrancl_into_rtrancl [OF e that] by auto
    then have up: "\<forall>a. (br_id r, a) \<in> (below rs)\<^sup>* \<longrightarrow> a \<noteq> i \<and> a \<notin> set (br_id q # visited)" using r(3) by blast
    have "is_digits (br_id q)" using row_canonical [OF tree_wf [OF 1(2)] q(1)] is_digits_string_of_nat by metis
    then have "br_id q \<noteq> []" by (auto simp: is_digits_def)
    from 1(1) [OF refl this here found refl _ 1(2) r(1,2) up] show ?thesis using r(3) Some by simp
  qed
  then show ?case using here found by (subst cyclic_loop.simps) simp
qed

text \<open>A branch in the queue that is its own child keeps the queue going.\<close>

lemma rebalance_own_child:
  assumes "rebalance_loop queue rs = Some rs'"
  shows "\<not> (\<exists>b\<in>set rs. \<not> br_deleted b \<and> br_parent_id b = Some (br_id b) \<and> br_id b \<in> fst ` set queue)"
proof (rule rebalance_loop.raw_induct [OF _ assms, where P = "\<lambda>queue rs _. \<not> (\<exists>b\<in>set rs. \<not> br_deleted b \<and> br_parent_id b = Some (br_id b) \<and> br_id b \<in> fst ` set queue)"])
  fix loop queue rs rs'
  assume IH: "\<And>queue rs rs'. loop queue rs = Some rs' \<Longrightarrow> \<not> (\<exists>b\<in>set rs. \<not> br_deleted b \<and> br_parent_id b = Some (br_id b) \<and> br_id b \<in> fst ` set queue)"
    and run: "(case queue of [] \<Rightarrow> Some rs | (i, l) # q \<Rightarrow> loop (q @ map (\<lambda>c. (br_id c, l + 1)) (children i rs)) (set_levels i (l + 1) rs)) = Some rs'"
  show "\<not> (\<exists>b\<in>set rs. \<not> br_deleted b \<and> br_parent_id b = Some (br_id b) \<and> br_id b \<in> fst ` set queue)"
  proof
    assume "\<exists>b\<in>set rs. \<not> br_deleted b \<and> br_parent_id b = Some (br_id b) \<and> br_id b \<in> fst ` set queue"
    then obtain b where b: "b \<in> set rs" "\<not> br_deleted b" "br_parent_id b = Some (br_id b)" "br_id b \<in> fst ` set queue" by blast
    then obtain i l q where queue: "queue = (i, l) # q" by (cases queue) auto
    let ?b = "if br_parent_id b = Some i \<and> \<not> br_deleted b then b\<lparr>br_level := l + 1\<rparr> else b"
    let ?queue = "q @ map (\<lambda>c. (br_id c, l + 1)) (children i rs)"
    have run': "loop ?queue (set_levels i (l + 1) rs) = Some rs'" using run unfolding queue by simp
    have step: False if "x \<in> set (set_levels i (l + 1) rs)" "\<not> br_deleted x" "br_parent_id x = Some (br_id x)" "br_id x \<in> fst ` set ?queue" for x
      using IH [OF run'] that by blast
    have mem: "?b \<in> set (set_levels i (l + 1) rs)" unfolding update_where_def set_map using b(1) by (rule imageI)
    have kept: "\<not> br_deleted ?b" "br_parent_id ?b = Some (br_id ?b)" "br_id ?b = br_id b" using b(2,3) by simp_all
    have "br_id b \<in> fst ` set ?queue"
    proof (cases "br_id b = i")
      case True
      then have "b \<in> set (children i rs)" using b by (simp add: children_def)
      then have "(br_id b, l + 1) \<in> set ?queue" by simp
      then show ?thesis by (metis fst_conv imageI)
    next
      case False
      then show ?thesis using b(4) unfolding queue by auto
    qed
    then show False by (intro step [OF mem kept(1,2)]) (simp only: kept(3))
  qed
qed



end
