(* ===== verification/Transfer_Batch.thy ===== *)
theory Transfer_Batch
  imports Order_Store
begin

text \<open>
  Transfer batches between branches:
  \<open>apps/order-service/src/transfer-batch/branch-transfer-batch.service.ts\<close> and its entities.

  Identifiers of a request are taken in their canonical form. The float columns of prices are exact.
  The clock, the random part of a QR token and of a generated request key are arguments. Every
  operation but \<open>sendBranchTransferBatch\<close> runs in one transaction: \<open>Inl\<close> leaves the tables as they
  were. Sending does not, so its result carries the tables in either case.
\<close>

datatype BranchTransferDirection = FORWARD | RETURN

datatype BranchTransferBatchStatus = TB_PENDING | TB_SENT | TB_RECEIVED | TB_CANCELLED

datatype BranchTransferBatchAction = TA_CREATED | TA_SENT | TA_RECEIVED | TA_CANCELLED

record transfer_batch =
  tb_id :: ident
  tb_qr_code_token :: string
  tb_source_branch_id :: ident
  tb_request_key :: string
  tb_destination_branch_id :: ident
  tb_direction :: BranchTransferDirection
  tb_target_region_id :: ident
  tb_status :: BranchTransferBatchStatus
  tb_order_count :: int
  tb_total_price :: money
  tb_vehicle_plate :: "string option"
  tb_driver_name :: "string option"
  tb_driver_phone :: "string option"
  tb_sent_at :: "time option"
  tb_received_at :: "time option"
  tb_received_by_user_id :: "ident option"
  tb_cancelled_at :: "time option"
  tb_deleted :: bool

record batch_item =
  ti_id :: ident
  ti_batch_id :: ident
  ti_order_id :: ident
  ti_snapshot_price :: money
  ti_snapshot_market_id :: ident
  ti_sent_at :: "time option"
  ti_deleted :: bool

record batch_history =
  th_batch_id :: ident
  th_user_id :: ident
  th_action :: BranchTransferBatchAction
  th_notes :: "string option"

record transfer_db =
  tx_orders :: order_db
  tx_batches :: "transfer_batch list"
  tx_batch_seq :: nat
  tx_items :: "batch_item list"
  tx_item_seq :: nat
  tx_history :: "batch_history list"
  tx_inbox :: "(string \<times> string) list"

interpretation tbt: table tb_id .
interpretation tit: table ti_id .

text \<open>The clock, the attempts at the random part of the n-th QR token, and the stamp of a generated key.\<close>

record transfer_env =
  te_now :: time
  te_suffix :: "nat \<Rightarrow> nat \<Rightarrow> string"
  te_stamp :: string

subsection \<open>Inputs\<close>

definition transferTokenPrefix :: "BranchTransferDirection \<Rightarrow> string" where
  "transferTokenPrefix d = (if d = RETURN then ''BTR'' else ''BTB'')"

definition normalizeTransferDirection :: "string option \<Rightarrow> rpc_error + BranchTransferDirection" where
  "normalizeTransferDirection v =
     (let n = upper (trim (str_or_empty v)) in
      if n = ''FORWARD'' then Inr FORWARD else if n = ''RETURN'' then Inr RETURN
      else Inl (badRequest ''direction must be one of: FORWARD, RETURN''))"

definition key_char :: "char \<Rightarrow> bool" where
  "key_char c \<longleftrightarrow> c \<in> set ''ABCDEFGHIJKLMNOPQRSTUVWXYZabcdefghijklmnopqrstuvwxyz0123456789_-''"

definition normalizeTransferRequestKey :: "string option \<Rightarrow> rpc_error + string" where
  "normalizeTransferRequestKey v =
     (let n = trim (str_or_empty v) in
      rbind (require (n \<noteq> []) (badRequest ''request_key is required'')) (\<lambda>_.
      rbind (require (8 \<le> length n \<and> length n \<le> 80 \<and> list_all key_char n)
               (badRequest ''request_key must match /^[A-Za-z0-9_-]{8,80}$/'')) (\<lambda>_. Inr n)))"

definition normalizeInboxMessageId :: "string option \<Rightarrow> rpc_error + string" where
  "normalizeInboxMessageId v =
     (let n = trim (str_or_empty v) in
      rbind (require (n \<noteq> []) (badRequest ''message_id is required'')) (\<lambda>_.
      rbind (require (8 \<le> length n \<and> length n \<le> 128 \<and> list_all (\<lambda>c. key_char c \<or> c = CHR '':'') n)
               (badRequest ''message_id must match /^[A-Za-z0-9:_-]{8,128}$/'')) (\<lambda>_. Inr n)))"

definition id_list :: "string list \<Rightarrow> ident list" where
  "id_list xs = dedup (filter (\<lambda>s. s \<noteq> []) (map trim xs))"

definition trimmed_note :: "string option \<Rightarrow> string option" where
  "trimmed_note n = nonempty_or_null (map_option trim n)"

definition requester_or_zero :: "string option \<Rightarrow> ident" where
  "requester_or_zero r = (let t = trim (str_or_empty r) in if t = [] then ''0'' else t)"

fun join :: "string \<Rightarrow> string list \<Rightarrow> string" where
  "join sep [] = []"
| "join sep [x] = x"
| "join sep (x # y # ys) = x @ sep @ join sep (y # ys)"

text \<open>The groups of a JavaScript map filled in order.\<close>

definition group_by :: "('a \<Rightarrow> 'k) \<Rightarrow> 'a list \<Rightarrow> ('k \<times> 'a list) list" where
  "group_by f xs = map (\<lambda>k. (k, filter (\<lambda>x. f x = k) xs)) (dedup (map f xs))"

text \<open>Up to twelve attempts at a token no batch in use has.\<close>

definition generateTransferQrToken :: "transfer_env \<Rightarrow> nat \<Rightarrow> BranchTransferDirection \<Rightarrow> transfer_batch list \<Rightarrow> rpc_error + string" where
  "generateTransferQrToken env n d rs =
     (case find (\<lambda>c. find (\<lambda>b. tb_qr_code_token b = c \<and> \<not> tb_deleted b) rs = None)
             (map (\<lambda>k. transferTokenPrefix d @ ''-'' @ lower (te_suffix env n k)) [0..<12]) of
        Some c \<Rightarrow> Inr c
      | None \<Rightarrow> Inl (internalError ''QR token generate failed''))"

subsection \<open>Rows\<close>

definition get_batch :: "ident \<Rightarrow> transfer_db \<Rightarrow> rpc_error + transfer_batch" where
  "get_batch i t = find_or (notFound ''Transfer batch not found'') (\<lambda>b. tb_id b = i \<and> \<not> tb_deleted b) (tx_batches t)"

text \<open>The unique indexes of the table cover the rows out of use too.\<close>

definition insert_batch :: "transfer_batch \<Rightarrow> transfer_db \<Rightarrow> rpc_error + transfer_db \<times> ident" where
  "insert_batch b t =
     (let i = string_of_nat (tx_batch_seq t) in
      if list_all (\<lambda>x. tb_qr_code_token x \<noteq> tb_qr_code_token b
           \<and> \<not> (tb_source_branch_id x = tb_source_branch_id b \<and> tb_request_key x = tb_request_key b)) (tx_batches t)
      then Inr (t\<lparr>tx_batches := tx_batches t @ [b\<lparr>tb_id := i\<rparr>], tx_batch_seq := Suc (tx_batch_seq t)\<rparr>, i)
      else Inl db_error)"

definition set_batch :: "ident \<Rightarrow> (transfer_batch \<Rightarrow> transfer_batch) \<Rightarrow> transfer_db \<Rightarrow> transfer_db" where
  "set_batch i f t = t\<lparr>tx_batches := update_where (\<lambda>b. tb_id b = i) f (tx_batches t)\<rparr>"

definition set_orders :: "(order \<Rightarrow> bool) \<Rightarrow> (order \<Rightarrow> order) \<Rightarrow> transfer_db \<Rightarrow> transfer_db" where
  "set_orders P f t = t\<lparr>tx_orders := (tx_orders t)\<lparr>db_orders := update_where (\<lambda>x. P x \<and> \<not> ord_deleted x) f (db_orders (tx_orders t))\<rparr>\<rparr>"

definition live_orders :: "(order \<Rightarrow> bool) \<Rightarrow> transfer_db \<Rightarrow> order list" where
  "live_orders P t = filter (\<lambda>x. P x \<and> \<not> ord_deleted x) (db_orders (tx_orders t))"

definition batch_items :: "ident \<Rightarrow> transfer_db \<Rightarrow> batch_item list" where
  "batch_items i t = filter (\<lambda>x. ti_batch_id x = i \<and> \<not> ti_deleted x) (tx_items t)"

definition insert_item :: "batch_item \<Rightarrow> transfer_db \<Rightarrow> rpc_error + transfer_db" where
  "insert_item x t =
     (if list_all (\<lambda>y. \<not> (ti_batch_id y = ti_batch_id x \<and> ti_order_id y = ti_order_id x)) (tx_items t)
      then Inr (t\<lparr>tx_items := tx_items t @ [x\<lparr>ti_id := string_of_nat (tx_item_seq t)\<rparr>], tx_item_seq := Suc (tx_item_seq t)\<rparr>)
      else Inl db_error)"

fun insert_items :: "batch_item list \<Rightarrow> transfer_db \<Rightarrow> rpc_error + transfer_db" where
  "insert_items [] t = Inr t"
| "insert_items (x # xs) t = rbind (insert_item x t) (insert_items xs)"

definition add_batch_history :: "batch_history list \<Rightarrow> transfer_db \<Rightarrow> transfer_db" where
  "add_batch_history hs t = t\<lparr>tx_history := tx_history t @ hs\<rparr>"

definition log_transfer :: "audit_entry \<Rightarrow> transfer_db \<Rightarrow> transfer_db" where
  "log_transfer a t = t\<lparr>tx_orders := (tx_orders t)\<lparr>db_audit := db_audit (tx_orders t) @ [a]\<rparr>\<rparr>"

definition track :: "tracking list \<Rightarrow> transfer_db \<Rightarrow> transfer_db" where
  "track ts t = t\<lparr>tx_orders := (tx_orders t)\<lparr>db_tracking := db_tracking (tx_orders t) @ ts\<rparr>\<rparr>"

definition take_custody :: "custody list \<Rightarrow> transfer_db \<Rightarrow> transfer_db" where
  "take_custody cs t = t\<lparr>tx_orders := (tx_orders t)\<lparr>db_custody := db_custody (tx_orders t) @ cs\<rparr>\<rparr>"

definition new_batch :: "string \<Rightarrow> string \<Rightarrow> ident \<Rightarrow> ident \<Rightarrow> BranchTransferDirection \<Rightarrow> ident \<Rightarrow> int \<Rightarrow> money \<Rightarrow> transfer_batch" where
  "new_batch token key source dest d region n price =
     \<lparr>tb_id = [], tb_qr_code_token = token, tb_source_branch_id = source, tb_request_key = key,
      tb_destination_branch_id = dest, tb_direction = d, tb_target_region_id = region, tb_status = TB_PENDING,
      tb_order_count = n, tb_total_price = price, tb_vehicle_plate = None, tb_driver_name = None, tb_driver_phone = None,
      tb_sent_at = None, tb_received_at = None, tb_received_by_user_id = None, tb_cancelled_at = None, tb_deleted = False\<rparr>"

definition new_item :: "ident \<Rightarrow> order \<Rightarrow> batch_item" where
  "new_item batch ord = \<lparr>ti_id = [], ti_batch_id = batch, ti_order_id = ord_id ord, ti_snapshot_price = ord_total_price ord,
     ti_snapshot_market_id = ord_market_id ord, ti_sent_at = None, ti_deleted = False\<rparr>"

definition history_row :: "ident \<Rightarrow> ident \<Rightarrow> BranchTransferBatchAction \<Rightarrow> string option \<Rightarrow> batch_history" where
  "history_row batch user action notes = \<lparr>th_batch_id = batch, th_user_id = user, th_action = action, th_notes = notes\<rparr>"

definition price_sum :: "order list \<Rightarrow> money" where
  "price_sum os = (\<Sum>x\<leftarrow>os. ord_total_price x)"

text \<open>The batches a repeated request finds.\<close>

definition same_request :: "ident \<Rightarrow> string \<Rightarrow> transfer_db \<Rightarrow> transfer_batch list" where
  "same_request source key t =
     filter (\<lambda>b. tb_source_branch_id b = source \<and> tb_request_key b = key \<and> tb_status b \<noteq> TB_CANCELLED \<and> \<not> tb_deleted b) (tx_batches t)"

text \<open>Orders enter a batch only while they are in none; the rows that changed are counted.\<close>

definition bind_orders :: "transfer_env \<Rightarrow> ident list \<Rightarrow> ident \<Rightarrow> transfer_db \<Rightarrow> rpc_error + transfer_db" where
  "bind_orders env ids batch t =
     (let free = (\<lambda>x. ord_id x \<in> set ids \<and> ord_current_batch_id x = None) in
      rbind (require (length (live_orders free t) = length ids) (conflict ''Some orders are already assigned to another batch'')) (\<lambda>_.
        Inr (set_orders free (\<lambda>x. x\<lparr>ord_current_batch_id := Some batch, ord_updated_at := te_now env\<rparr>) t)))"

subsection \<open>Creating forward batches\<close>

record transfer_input =
  ci_source :: "string option"
  ci_destination :: "string option"
  ci_order_ids :: "string list"
  ci_direction :: "string option"
  ci_request_key :: "string option"
  ci_requester :: "string option"

abbreviation maxRegionalPendingBatches :: nat where
  "maxRegionalPendingBatches \<equiv> 13"

text \<open>The orders a request takes, grouped by region.\<close>

definition transfer_candidates :: "ident \<Rightarrow> ident list \<Rightarrow> transfer_db \<Rightarrow> rpc_error + (ident \<times> order list) list" where
  "transfer_candidates source ids t =
     (let unassigned = live_orders (\<lambda>x. ord_branch_id x = Some source \<and> ord_current_batch_id x = None \<and> ord_status x = NEW
                          \<and> (ids \<noteq> [] \<longrightarrow> ord_id x \<in> set ids)) t;
          candidates = filter (\<lambda>x. truthy (ord_region_id x)) unassigned
      in rbind (require (ids = [] \<or> length unassigned = length ids)
                 (badRequest ''Some orders are not found, not NEW, or already assigned to another batch'')) (\<lambda>_.
         rbind (require (candidates \<noteq> []) (badRequest ''Unassigned orders for transfer not found'')) (\<lambda>_.
           Inr (group_by (\<lambda>x. str_or_empty (ord_region_id x)) candidates))))"

text \<open>The first pending batch of each region on this way.\<close>

definition pending_of :: "ident \<Rightarrow> ident \<Rightarrow> BranchTransferDirection \<Rightarrow> transfer_db \<Rightarrow> (ident \<times> ident) list" where
  "pending_of source dest d t =
     map (\<lambda>b. (tb_target_region_id b, tb_id b))
       (filter (\<lambda>b. tb_source_branch_id b = source \<and> tb_destination_branch_id b = dest \<and> tb_direction b = d
                  \<and> tb_status b = TB_PENDING \<and> \<not> tb_deleted b) (tx_batches t))"

text \<open>All tokens are drawn before the first batch is saved.\<close>

fun draw_tokens :: "transfer_env \<Rightarrow> nat \<Rightarrow> BranchTransferDirection \<Rightarrow> transfer_batch list \<Rightarrow> 'r list \<Rightarrow> rpc_error + ('r \<times> string) list" where
  "draw_tokens env n d rs [] = Inr []"
| "draw_tokens env n d rs (r # regions) =
     rbind (generateTransferQrToken env n d rs) (\<lambda>token.
     rbind (draw_tokens env (Suc n) d rs regions) (\<lambda>rest. Inr ((r, token) # rest)))"

fun open_batches :: "string \<Rightarrow> ident \<Rightarrow> ident \<Rightarrow> BranchTransferDirection \<Rightarrow> (ident \<times> string) list \<Rightarrow> transfer_db
    \<Rightarrow> rpc_error + transfer_db \<times> (ident \<times> ident) list" where
  "open_batches key source dest d [] t = Inr (t, [])"
| "open_batches key source dest d ((region, token) # rest) t =
     rbind (insert_batch (new_batch token key source dest d region 0 0) t) (\<lambda>(t1, i).
     rbind (open_batches key source dest d rest t1) (\<lambda>(t2, opened). Inr (t2, (region, i) # opened)))"

definition grow_batch :: "order list \<Rightarrow> transfer_batch \<Rightarrow> transfer_batch" where
  "grow_batch os b = b\<lparr>tb_order_count := tb_order_count b + int (length os), tb_total_price := tb_total_price b + price_sum os\<rparr>"

text \<open>The groups are put into their batches one by one; the items are collected and saved at the end.\<close>

fun fill_batches :: "transfer_env \<Rightarrow> (ident \<times> ident) list \<Rightarrow> (ident \<times> order list) list \<Rightarrow> transfer_db
    \<Rightarrow> rpc_error + transfer_db \<times> batch_item list" where
  "fill_batches env by_region [] t = Inr (t, [])"
| "fill_batches env by_region ((region, os) # groups) t =
     (case map_of by_region region of
        None \<Rightarrow> Inl (internalError ''Batch create failed'')
      | Some i \<Rightarrow>
          rbind (bind_orders env (map ord_id os) i t) (\<lambda>t1.
          rbind (fill_batches env by_region groups (set_batch i (grow_batch os) t1)) (\<lambda>(t2, items).
            Inr (t2, map (new_item i) os @ items))))"

definition createBranchTransferBatches :: "transfer_env \<Rightarrow> transfer_input \<Rightarrow> transfer_db \<Rightarrow> rpc_error + transfer_db \<times> ident list" where
  "createBranchTransferBatches env input t =
     (let source = trim (str_or_empty (ci_source input)); dest = trim (str_or_empty (ci_destination input));
          requester = requester_or_zero (ci_requester input) in
      rbind (normalizeTransferDirection (ci_direction input)) (\<lambda>d.
      rbind (normalizeTransferRequestKey (ci_request_key input)) (\<lambda>key.
      rbind (require (source \<noteq> [] \<and> dest \<noteq> []) (badRequest ''source_branch_id and destination_branch_id are required'')) (\<lambda>_.
      if same_request source key t \<noteq> [] then Inr (t, map tb_id (same_request source key t))
      else
      rbind (transfer_candidates source (id_list (ci_order_ids input)) t) (\<lambda>groups.
      let pending = pending_of source dest d t;
          missing = filter (\<lambda>r. r \<notin> fst ` set pending) (map fst groups) in
      rbind (require (length (dedup (map fst pending)) + length missing \<le> maxRegionalPendingBatches)
              (badRequest ''Maximum 13 ta pending transfer batch bo'lishi mumkin'')) (\<lambda>_.
      rbind (draw_tokens env 0 d (tx_batches t) missing) (\<lambda>tokens.
      rbind (open_batches key source dest d tokens t) (\<lambda>(t1, opened).
      rbind (fill_batches env (pending @ opened) groups t1) (\<lambda>(t2, items).
      rbind (insert_items items t2) (\<lambda>t3.
        let touched = map (\<lambda>(r, _). the (map_of (pending @ opened) r)) groups;
            rows = concat (map (\<lambda>(r, _). let i = the (map_of (pending @ opened) r) in
                     [history_row i requester TA_CREATED (Some (if r \<in> set missing then ''[STEP] BATCH_CREATED'' else ''[STEP] BATCH_REUSED'')),
                      history_row i requester TA_CREATED (Some ''[STEP] ORDERS_ASSIGNED'')]) groups)
        in Inr (log_transfer (audit_row ''BranchTransferBatch'' (hd touched) ''created'' (Some requester))
                  (add_batch_history rows t3), touched)))))))))))"

subsection \<open>Creating return batches\<close>

record return_input =
  ri_source :: "string option"
  ri_order_ids :: "string list"
  ri_request_key :: "string option"
  ri_requester :: "string option"
  ri_notes :: "string option"

definition resolveReturnDestination :: "order \<Rightarrow> ident" where
  "resolveReturnDestination x =
     trim (str_or_empty (case ord_home_branch_id x of Some b \<Rightarrow> Some b | None \<Rightarrow> ord_branch_id x))"

definition may_return :: "Order_status \<Rightarrow> bool" where
  "may_return st \<longleftrightarrow> st \<notin> {SOLD, PAID, PARTLY_PAID, RETURNED_TO_MARKET, CLOSED}"

definition return_candidates :: "ident \<Rightarrow> ident list \<Rightarrow> transfer_db \<Rightarrow> rpc_error + (ident \<times> order list) list" where
  "return_candidates source ids t =
     (let os = live_orders (\<lambda>x. ord_id x \<in> set ids \<and> ord_current_batch_id x = None) t;
          ineligible = filter (\<lambda>x. \<not> may_return (ord_status x)) os in
      rbind (require (length os = length ids) (badRequest ''Some orders are not found or already assigned to another batch'')) (\<lambda>_.
      rbind (require (ineligible = []) (badRequest (''Quyidagi buyurtmalar holati return paketiga mos emas (avval rollback qiling): ''
               @ join '', '' (map ord_id ineligible)))) (\<lambda>_.
      rbind (require (list_all (\<lambda>x. resolveReturnDestination x \<noteq> source) os)
              (badRequest ''Bu order allaqachon o'z (home) filialida - uni return paket bilan emas, to'g'ridan-to'g'ri market egasiga topshiring'')) (\<lambda>_.
      rbind (case find (\<lambda>x. resolveReturnDestination x = []) os of
               None \<Rightarrow> Inr ()
             | Some x \<Rightarrow> Inl (badRequest (''Order '' @ ord_id x @ '' has no home branch_id''))) (\<lambda>_.
        Inr (group_by resolveReturnDestination os))))))"

text \<open>A group is given the newest pending batch of its way and region, or a new one.\<close>

definition return_batch :: "transfer_env \<Rightarrow> nat \<Rightarrow> string \<Rightarrow> ident \<Rightarrow> ident \<Rightarrow> ident \<Rightarrow> order list \<Rightarrow> transfer_db
    \<Rightarrow> rpc_error + transfer_db \<times> ident \<times> bool" where
  "return_batch env n key source dest region os t =
     (case find (\<lambda>b. tb_source_branch_id b = source \<and> tb_destination_branch_id b = dest \<and> tb_direction b = RETURN
              \<and> tb_target_region_id b = region \<and> tb_status b = TB_PENDING \<and> \<not> tb_deleted b) (rev (tx_batches t)) of
        Some b \<Rightarrow> Inr (set_batch (tb_id b) (grow_batch os) t, tb_id b, False)
      | None \<Rightarrow>
          rbind (generateTransferQrToken env n RETURN (tx_batches t)) (\<lambda>token.
          rbind (insert_batch (new_batch token key source dest RETURN region (int (length os)) (price_sum os)) t) (\<lambda>(t1, i).
            Inr (t1, i, True))))"

text \<open>A result tells the destination, the batch and whether it is new.\<close>

fun return_batches :: "transfer_env \<Rightarrow> nat \<Rightarrow> string \<Rightarrow> ident \<Rightarrow> (ident \<times> order list) list \<Rightarrow> transfer_db
    \<Rightarrow> rpc_error + transfer_db \<times> (ident \<times> ident \<times> bool) list" where
  "return_batches env n key source [] t = Inr (t, [])"
| "return_batches env n key source ((dest, os) # groups) t =
     (let region = trim (str_or_empty (case os of [] \<Rightarrow> None | x # _ \<Rightarrow> ord_region_id x)) in
      rbind (require (region \<noteq> []) (badRequest (''Orders for destination branch '' @ dest @ '' must have region_id''))) (\<lambda>_.
      rbind (return_batch env n key source dest region os t) (\<lambda>(t1, i, fresh).
      rbind (return_batches env (Suc n) key source groups t1) (\<lambda>(t2, rest). Inr (t2, (dest, i, fresh) # rest)))))"

fun fill_returns :: "transfer_env \<Rightarrow> (ident \<times> ident \<times> bool) list \<Rightarrow> (ident \<times> order list) list \<Rightarrow> transfer_db
    \<Rightarrow> rpc_error + transfer_db \<times> batch_item list" where
  "fill_returns env by_dest [] t = Inr (t, [])"
| "fill_returns env by_dest ((dest, os) # groups) t =
     (case map_of by_dest dest of
        None \<Rightarrow> Inl (internalError ''Return batch create failed'')
      | Some (i, _) \<Rightarrow>
          rbind (bind_orders env (map ord_id os) i t) (\<lambda>t1.
          rbind (fill_returns env by_dest groups t1) (\<lambda>(t2, items). Inr (t2, map (new_item i) os @ items))))"

definition return_note :: "return_input \<Rightarrow> bool \<Rightarrow> string" where
  "return_note input fresh =
     (if fresh then ''[STEP] RETURN_BATCH_CREATED'' else ''[STEP] RETURN_BATCH_APPENDED'')
     @ (if truthy (ri_notes input) then '' | '' @ trim (str_or_empty (ri_notes input)) else [])"

definition createBranchReturnBatches :: "transfer_env \<Rightarrow> return_input \<Rightarrow> transfer_db \<Rightarrow> rpc_error + transfer_db \<times> ident list" where
  "createBranchReturnBatches env input t =
     (let source = trim (str_or_empty (ri_source input)); requester = requester_or_zero (ri_requester input);
          ids = id_list (ri_order_ids input) in
      rbind (normalizeTransferRequestKey (ri_request_key input)) (\<lambda>key.
      rbind (require (source \<noteq> []) (badRequest ''source_branch_id is required'')) (\<lambda>_.
      rbind (require (ids \<noteq> []) (badRequest ''order_ids is required'')) (\<lambda>_.
      if same_request source key t \<noteq> [] then Inr (t, map tb_id (same_request source key t))
      else
      rbind (return_candidates source ids t) (\<lambda>groups.
      rbind (return_batches env 0 key source groups t) (\<lambda>(t1, by_dest).
      rbind (fill_returns env by_dest groups t1) (\<lambda>(t2, items).
      rbind (insert_items items t2) (\<lambda>t3.
        let touched = dedup (map (\<lambda>(_, i, _). i) by_dest);
            rows = concat (map (\<lambda>(_, i, fresh).
                     [history_row i requester TA_CREATED (Some (return_note input fresh)),
                      history_row i requester TA_CREATED (Some ''[STEP] ORDERS_ASSIGNED'')]) by_dest)
        in Inr (log_transfer (audit_row ''BranchTransferBatch'' (hd touched) ''created'' (Some requester))
                  (add_batch_history rows t3), touched)))))))))"

subsection \<open>Commands of other services\<close>

definition cancelBranchTransferBatches ::
  "transfer_env \<Rightarrow> string list \<Rightarrow> bool \<Rightarrow> string option \<Rightarrow> string option \<Rightarrow> transfer_db \<Rightarrow> rpc_error + transfer_db" where
  "cancelBranchTransferBatches env batch_ids remove_order_bindings requester_id notes t =
     (let ids = id_list batch_ids; requester = requester_or_zero requester_id in
      rbind (require (ids \<noteq> []) (badRequest ''batch_ids is required'')) (\<lambda>_.
      rbind (require (set ids \<subseteq> tb_id ` set (tx_batches t)) db_error) (\<lambda>_.
      let t1 = t\<lparr>tx_batches := update_where (\<lambda>b. tb_id b \<in> set ids \<and> \<not> tb_deleted b)
                  (\<lambda>b. b\<lparr>tb_status := TB_CANCELLED, tb_cancelled_at := Some (te_now env)\<rparr>) (tx_batches t)\<rparr>;
          t2 = (if remove_order_bindings
                then set_orders (\<lambda>x. \<exists>i\<in>set ids. ord_current_batch_id x = Some i)
                       (\<lambda>x. x\<lparr>ord_current_batch_id := None, ord_updated_at := te_now env\<rparr>) t1
                else t1);
          t3 = add_batch_history (map (\<lambda>i. history_row i requester TA_CANCELLED (trimmed_note notes)) ids) t2
      in Inr (log_transfer (audit_row ''BranchTransferBatch'' (hd ids) ''status_change'' (Some requester)) t3))))"

text \<open>A command is recorded in the inbox with its message; a repeated message changes nothing.\<close>

definition bulkAssignBatch :: "transfer_env \<Rightarrow> string option \<Rightarrow> string list \<Rightarrow> string option \<Rightarrow> transfer_db \<Rightarrow> rpc_error + transfer_db" where
  "bulkAssignBatch env batch_id order_ids message_id t =
     (let batchId = trim (str_or_empty batch_id); ids = id_list order_ids in
      rbind (require (batchId \<noteq> []) (badRequest ''batch_id is required'')) (\<lambda>_.
      rbind (normalizeInboxMessageId message_id) (\<lambda>m.
      rbind (require (ids \<noteq> []) (badRequest ''order_ids is required'')) (\<lambda>_.
      if (''order.bulk_assign_batch'', m) \<in> set (tx_inbox t) then Inr t
      else
      let free = (\<lambda>x. ord_id x \<in> set ids \<and> ord_current_batch_id x = None) in
      rbind (require (length (live_orders free t) = length ids)
               (conflict ''Some orders are not found or already assigned to another batch'')) (\<lambda>_.
        Inr (log_transfer (audit_row ''Order'' batchId ''assign'' None)
          ((set_orders free (\<lambda>x. x\<lparr>ord_current_batch_id := Some batchId, ord_updated_at := te_now env\<rparr>) t)
             \<lparr>tx_inbox := tx_inbox t @ [(''order.bulk_assign_batch'', m)]\<rparr>)))))))"

definition bulkRemoveFromBatch :: "transfer_env \<Rightarrow> string option \<Rightarrow> string option \<Rightarrow> transfer_db \<Rightarrow> rpc_error + transfer_db" where
  "bulkRemoveFromBatch env batch_id message_id t =
     (let batchId = trim (str_or_empty batch_id) in
      rbind (require (batchId \<noteq> []) (badRequest ''batch_id is required'')) (\<lambda>_.
      rbind (normalizeInboxMessageId message_id) (\<lambda>m.
      if (''order.bulk_remove_from_batch'', m) \<in> set (tx_inbox t) then Inr t
      else
        Inr (log_transfer (audit_row ''Order'' batchId ''unassign'' None)
          ((set_orders (\<lambda>x. ord_current_batch_id x = Some batchId) (\<lambda>x. x\<lparr>ord_current_batch_id := None, ord_updated_at := te_now env\<rparr>) t)
             \<lparr>tx_inbox := tx_inbox t @ [(''order.bulk_remove_from_batch'', m)]\<rparr>)))))"

definition parse_action :: "string option \<Rightarrow> rpc_error + BranchTransferBatchAction" where
  "parse_action a =
     (let n = upper (trim (case a of None \<Rightarrow> ''CREATED'' | Some s \<Rightarrow> s)) in
      if n = ''CREATED'' then Inr TA_CREATED else if n = ''SENT'' then Inr TA_SENT
      else if n = ''RECEIVED'' then Inr TA_RECEIVED else if n = ''CANCELLED'' then Inr TA_CANCELLED
      else Inl (badRequest ''action must be one of: CREATED, SENT, RECEIVED, CANCELLED''))"

definition addBranchTransferBatchHistory ::
  "string option \<Rightarrow> string option \<Rightarrow> string option \<Rightarrow> string option \<Rightarrow> transfer_db \<Rightarrow> rpc_error + transfer_db" where
  "addBranchTransferBatchHistory batch_id user_id action notes t =
     (let batchId = trim (str_or_empty batch_id); user = requester_or_zero user_id in
      rbind (require (batchId \<noteq> []) (badRequest ''batch_id is required'')) (\<lambda>_.
      rbind (parse_action action) (\<lambda>act.
      rbind (get_batch batchId t) (\<lambda>_.
        Inr (log_transfer (audit_row ''BranchTransferBatchHistory'' batchId ''created'' (Some user))
          (add_batch_history [history_row batchId user act (trimmed_note notes)] t))))))"

definition findBranchTransferBatchById :: "string option \<Rightarrow> transfer_db \<Rightarrow> rpc_error + transfer_batch \<times> batch_item list" where
  "findBranchTransferBatchById batch_id t =
     (let i = trim (str_or_empty batch_id) in
      rbind (require (i \<noteq> []) (badRequest ''batch_id is required'')) (\<lambda>_.
      rbind (get_batch i t) (\<lambda>b. Inr (b, batch_items (tb_id b) t))))"

subsection \<open>Sending\<close>

record send_input =
  si_batch_id :: "string option"
  si_order_ids :: "string list"
  si_vehicle_plate :: "string option"
  si_driver_name :: "string option"
  si_driver_phone :: "string option"
  si_requester :: "string option"
  si_requester_name :: "string option"
  si_requester_roles :: "string list"

text \<open>The batch and the items of the request that were not sent before.\<close>

definition send_check :: "send_input \<Rightarrow> transfer_db \<Rightarrow> rpc_error + transfer_batch \<times> batch_item list" where
  "send_check input t =
     (let batchId = trim (str_or_empty (si_batch_id input)); ids = id_list (si_order_ids input) in
      rbind (require (batchId \<noteq> []) (badRequest ''batch_id is required'')) (\<lambda>_.
      rbind (require (ids \<noteq> []) (badRequest ''orderIds is required'')) (\<lambda>_.
      rbind (require (trim (str_or_empty (si_vehicle_plate input)) \<noteq> [] \<and> trim (str_or_empty (si_driver_name input)) \<noteq> []
                \<and> trim (str_or_empty (si_driver_phone input)) \<noteq> []) (badRequest ''Avtomobil ma'lumotlari majburiy'')) (\<lambda>_.
      rbind (get_batch batchId t) (\<lambda>b.
      rbind (require (tb_status b \<noteq> TB_CANCELLED) (badRequest ''Bekor qilingan paketni jo'natib bo'lmaydi'')) (\<lambda>_.
      rbind (require (tb_status b \<noteq> TB_RECEIVED) (badRequest ''Qabul qilingan paketni qayta jo'natib bo'lmaydi'')) (\<lambda>_.
      let selected = List.map_filter (\<lambda>i. find (\<lambda>x. ti_order_id x = i) (batch_items batchId t)) ids in
      rbind (require (length selected = length ids) (badRequest ''Some orderIds are not part of this batch'')) (\<lambda>_.
      let toMark = filter (\<lambda>x. ti_sent_at x = None) selected in
      rbind (require (toMark \<noteq> []) (badRequest ''Tanlangan orderlar allaqachon jo'natilgan'')) (\<lambda>_.
        Inr (b, toMark))))))))))"

definition item_sum :: "batch_item list \<Rightarrow> money" where
  "item_sum xs = (\<Sum>x\<leftarrow>xs. ti_snapshot_price x)"

definition set_items :: "(batch_item \<Rightarrow> bool) \<Rightarrow> (batch_item \<Rightarrow> batch_item) \<Rightarrow> transfer_db \<Rightarrow> transfer_db" where
  "set_items P f t = t\<lparr>tx_items := update_where P f (tx_items t)\<rparr>"

definition depart :: "transfer_env \<Rightarrow> send_input \<Rightarrow> transfer_batch \<Rightarrow> transfer_batch" where
  "depart env input b = b\<lparr>tb_status := TB_SENT, tb_sent_at := Some (te_now env),
     tb_vehicle_plate := Some (trim (str_or_empty (si_vehicle_plate input))),
     tb_driver_name := Some (trim (str_or_empty (si_driver_name input))),
     tb_driver_phone := Some (trim (str_or_empty (si_driver_phone input)))\<rparr>"

text \<open>A part of the batch leaves in a batch of its own; the rest stays pending.\<close>

definition leaving_batch :: "transfer_env \<Rightarrow> send_input \<Rightarrow> transfer_batch \<Rightarrow> batch_item list \<Rightarrow> string \<Rightarrow> transfer_batch" where
  "leaving_batch env input b toMark token =
     depart env input (new_batch token (''split_send_'' @ tb_id b @ ''_'' @ te_stamp env) (tb_source_branch_id b)
       (tb_destination_branch_id b) (tb_direction b) (tb_target_region_id b) (int (length toMark)) (item_sum toMark))"

definition stay_behind :: "batch_item list \<Rightarrow> transfer_batch \<Rightarrow> transfer_batch" where
  "stay_behind remaining b = b\<lparr>tb_status := TB_PENDING, tb_sent_at := None, tb_order_count := int (length remaining),
     tb_total_price := item_sum remaining, tb_vehicle_plate := None, tb_driver_name := None, tb_driver_phone := None\<rparr>"

definition split_batch :: "transfer_env \<Rightarrow> send_input \<Rightarrow> transfer_batch \<Rightarrow> batch_item list \<Rightarrow> transfer_db \<Rightarrow> rpc_error + transfer_db \<times> ident" where
  "split_batch env input b toMark t =
     rbind (generateTransferQrToken env 0 (tb_direction b) (tx_batches t)) (\<lambda>token.
     rbind (insert_batch (leaving_batch env input b toMark token) t) (\<lambda>(t1, i).
       let remaining = filter (\<lambda>x. ti_sent_at x = None) (batch_items (tb_id b) t);
           t2 = set_items (\<lambda>x. ti_batch_id x = tb_id b \<and> ti_order_id x \<in> ti_order_id ` set toMark \<and> \<not> ti_deleted x)
                  (\<lambda>x. x\<lparr>ti_batch_id := i\<rparr>) t1
       in Inr (set_batch (tb_id b) (stay_behind remaining) t2, i)))"

text \<open>A tracking event for each of the orders whose status changes; \<open>prior\<close> holds the rows before the change.\<close>

definition status_tracking :: "order list \<Rightarrow> ident list \<Rightarrow> Order_status \<Rightarrow> ident \<Rightarrow> string \<Rightarrow> string \<Rightarrow> string \<Rightarrow> string \<Rightarrow> tracking list" where
  "status_tracking prior ids to_status requester role act description note =
     List.map_filter (\<lambda>i. case find (\<lambda>x. ord_id x = i) prior of
         None \<Rightarrow> None
       | Some x \<Rightarrow> if ord_status x = to_status then None
                   else Some (createTrackingEvent i (Some (ord_status x)) to_status requester role (Some act) (Some description) (Some note))) ids"

text \<open>The orders follow their items into the batch that leaves.\<close>

definition sent_orders :: "transfer_env \<Rightarrow> send_input \<Rightarrow> transfer_batch \<Rightarrow> ident list \<Rightarrow> ident \<Rightarrow> transfer_db \<Rightarrow> transfer_db" where
  "sent_orders env input b ids sent t =
     (let requester = requester_or_zero (si_requester input); role = toTrackingRole (si_requester_roles input);
          prior = live_orders (\<lambda>x. ord_id x \<in> set ids) t;
          t1 = set_orders (\<lambda>x. ord_id x \<in> set ids \<and> ord_current_batch_id x = Some (tb_id b))
                 (\<lambda>x. if tb_direction b = FORWARD
                      then x\<lparr>ord_current_batch_id := Some sent, ord_status := ON_THE_ROAD, ord_updated_at := te_now env\<rparr>
                      else x\<lparr>ord_current_batch_id := Some sent, ord_updated_at := te_now env\<rparr>) t;
          t2 = track (if tb_direction b = FORWARD
                then status_tracking prior ids ON_THE_ROAD requester role ''branch_batch_sent''
                       (''Pochta #'' @ sent @ '' filialdan jo'natildi'') (''Batch #'' @ sent @ '' jo'natildi'')
                else []) t1;
          actor = (let n = trim (str_or_empty (si_requester_name input)); u = trim (str_or_empty (si_requester input))
                   in if n \<noteq> [] then n else if u \<noteq> [] then u else ''unknown'');
          t3 = add_batch_history [history_row sent requester TA_SENT (Some (''Operator '' @ actor @ '' paketni jo'natdi. Avtomobil: ''
                 @ trim (str_or_empty (si_vehicle_plate input))))] t2
      in log_transfer (audit_row ''BranchTransferBatch'' sent ''status_change''
           (nonempty_or_null (Some (trim (str_or_empty (si_requester input)))))) t3)"

text \<open>The items to mark are never none, so neither are the items of the batch read again afterwards.\<close>

definition sendBranchTransferBatch :: "transfer_env \<Rightarrow> send_input \<Rightarrow> transfer_db \<Rightarrow> (rpc_error + ident) \<times> transfer_db" where
  "sendBranchTransferBatch env input t =
     (case send_check input t of
        Inl e \<Rightarrow> (Inl e, t)
      | Inr (b, toMark) \<Rightarrow>
          let t1 = set_items (\<lambda>x. ti_id x \<in> ti_id ` set toMark) (\<lambda>x. x\<lparr>ti_sent_at := Some (te_now env)\<rparr>) t;
              allSent = list_all (\<lambda>x. ti_sent_at x \<noteq> None) (batch_items (tb_id b) t1)
          in (case (if allSent then Inr (set_batch (tb_id b) (depart env input) t1, tb_id b) else split_batch env input b toMark t1) of
                Inl e \<Rightarrow> (Inl e, t1)
              | Inr (t2, sent) \<Rightarrow> (Inr sent, sent_orders env input b (map ti_order_id toMark) sent t2)))"

subsection \<open>Receiving\<close>

record receive_input =
  vi_batch_id :: "string option"
  vi_requester :: "string option"
  vi_requester_name :: "string option"
  vi_requester_roles :: "string list"

definition name_or_id :: "string option \<Rightarrow> string option \<Rightarrow> string" where
  "name_or_id name requester = (let n = trim (str_or_empty name) in if n \<noteq> [] then n else requester_or_zero requester)"

text \<open>The batch to receive from; the texts differ between the two requests by a word.\<close>

definition sent_batch :: "string \<Rightarrow> ident \<Rightarrow> transfer_db \<Rightarrow> rpc_error + transfer_batch" where
  "sent_batch what batchId t =
     rbind (get_batch batchId t) (\<lambda>b.
       case tb_status b of
         TB_RECEIVED \<Rightarrow> Inl (badRequest ''Bu paket allaqachon qabul qilingan'')
       | TB_PENDING \<Rightarrow> Inl (badRequest (''Hali jo'natilmagan '' @ what @ '' qabul qilib bo'lmaydi''))
       | TB_CANCELLED \<Rightarrow> Inl (badRequest (''Bekor qilingan '' @ what @ '' qabul qilib bo'lmaydi''))
       | TB_SENT \<Rightarrow> Inr b)"

definition arrive :: "transfer_env \<Rightarrow> ident \<Rightarrow> transfer_batch \<Rightarrow> transfer_batch" where
  "arrive env requester b = b\<lparr>tb_status := TB_RECEIVED, tb_received_at := Some (te_now env), tb_received_by_user_id := Some requester\<rparr>"

text \<open>The receiving branch holds the order.\<close>

definition hand_over :: "transfer_env \<Rightarrow> ident \<Rightarrow> ident \<Rightarrow> order \<Rightarrow> order" where
  "hand_over env dest requester x = x\<lparr>ord_current_batch_id := None, ord_branch_id := Some dest, ord_holder_type := H_BRANCH,
     ord_holder_branch_id := Some dest, ord_holder_courier_id := None, ord_last_handover_at := Some (te_now env),
     ord_last_handover_by := Some requester, ord_updated_at := te_now env\<rparr>"

definition handover_events :: "ident \<Rightarrow> ident \<Rightarrow> ident \<Rightarrow> string \<Rightarrow> (ident \<times> order option) list \<Rightarrow> custody list" where
  "handover_events batchId dest requester role xs =
     List.map_filter (\<lambda>(i, prior).
       let holder = map_option ord_holder_type prior; branch = Option.bind prior ord_holder_branch_id;
           courier = Option.bind prior ord_holder_courier_id in
       if holder \<noteq> Some H_BRANCH \<or> str_or_empty branch \<noteq> dest \<or> truthy courier
       then Some \<lparr>cu_order_id = i, cu_from_holder_type = holder, cu_to_holder_type = H_BRANCH, cu_from_branch_id = branch,
                  cu_to_branch_id = Some dest, cu_from_courier_id = courier, cu_to_courier_id = None, cu_changed_by = requester,
                  cu_changed_by_role = role, cu_note = Some (''Batch #'' @ batchId @ '' dan filialga qabul qilindi'')\<rparr>
       else None) xs"

text \<open>What receiving a whole batch does: orders of the region of the batch are received, the others go on.\<close>

definition receive_all :: "transfer_env \<Rightarrow> receive_input \<Rightarrow> transfer_batch \<Rightarrow> transfer_db \<Rightarrow> transfer_db" where
  "receive_all env input b t =
     (let batchId = tb_id b; requester = requester_or_zero (vi_requester input); role = toTrackingRole (vi_requester_roles input);
          ids = map ti_order_id (batch_items batchId t); dest = tb_destination_branch_id b;
          prior = live_orders (\<lambda>x. ord_id x \<in> set ids) t;
          here = (\<lambda>x. str_or_empty (ord_region_id x) = tb_target_region_id b);
          local_ids = map ord_id (filter here prior); transit_ids = map ord_id (filter (\<lambda>x. \<not> here x) prior);
          t1 = set_batch batchId (arrive env requester) t;
          t2 = set_orders (\<lambda>x. ord_id x \<in> set ids) (hand_over env dest requester) t1;
          t3 = set_orders (\<lambda>x. ord_id x \<in> set local_ids) (\<lambda>x. x\<lparr>ord_status := RECEIVED\<rparr>) t2;
          t4 = set_orders (\<lambda>x. ord_id x \<in> set transit_ids) (\<lambda>x. x\<lparr>ord_status := NEW\<rparr>) t3;
          t5 = track (status_tracking prior local_ids RECEIVED requester role ''branch_batch_received''
                 (''Pochta #'' @ batchId @ '' filial tomonidan qabul qilindi'') (''Batch #'' @ batchId @ '' qabul qilindi'')) t4;
          t6 = track (status_tracking prior transit_ids NEW requester role ''branch_batch_requeued''
                 (''Pochta #'' @ batchId @ '' tranzit uchun qayta navbatga qo'yildi'')
                 (''Batch #'' @ batchId @ '' tranzit uchun qayta navbatga qo'yildi'')) t5;
          t7 = take_custody (handover_events batchId dest requester role (map (\<lambda>x. (ord_id x, Some x)) prior)) t6;
          t8 = add_batch_history [history_row batchId requester TA_RECEIVED (Some (''Xodim '' @ name_or_id (vi_requester_name input) (vi_requester input)
                 @ '' paketni qabul qildi''))] t7
      in log_transfer (audit_row ''BranchTransferBatch'' batchId ''status_change'' (Some requester)) t8)"

definition receiveBranchTransferBatch :: "transfer_env \<Rightarrow> receive_input \<Rightarrow> transfer_db \<Rightarrow> rpc_error + transfer_db" where
  "receiveBranchTransferBatch env input t =
     (let batchId = trim (str_or_empty (vi_batch_id input)) in
      rbind (require (batchId \<noteq> []) (badRequest ''batch_id is required'')) (\<lambda>_.
      rbind (sent_batch ''paketni'' batchId t) (\<lambda>b. Inr (receive_all env input b t))))"

text \<open>
  Receiving some orders of a batch. The rest is detached, and after the commit put into a new batch
  of the same direction. A failure of that second step does not undo the first; the caller then gets
  the failure of rolling back a transaction that is over, for which the failure itself stands here.
\<close>

definition receive_some :: "transfer_env \<Rightarrow> receive_input \<Rightarrow> transfer_batch \<Rightarrow> batch_item list \<Rightarrow> transfer_db \<Rightarrow> transfer_db \<times> ident list" where
  "receive_some env input b selected t =
     (let batchId = tb_id b; requester = requester_or_zero (vi_requester input); role = toTrackingRole (vi_requester_roles input);
          ids = map ti_order_id selected; dest = tb_destination_branch_id b;
          prior = live_orders (\<lambda>x. ord_id x \<in> set ids) t;
          t1 = set_orders (\<lambda>x. ord_id x \<in> set ids) (\<lambda>x. (hand_over env dest requester x)\<lparr>ord_status := RECEIVED\<rparr>) t;
          t2 = track (status_tracking prior ids RECEIVED requester role ''branch_batch_received''
                 (''Pochta #'' @ batchId @ '' dan tanlangan buyurtma qabul qilindi'') (''Batch #'' @ batchId @ '' dan qabul qilindi'')) t1;
          t3 = take_custody (handover_events batchId dest requester role (map (\<lambda>i. (i, find (\<lambda>x. ord_id x = i) prior)) ids)) t2;
          t4 = set_items (\<lambda>x. ti_batch_id x = batchId \<and> ti_order_id x \<in> set ids \<and> \<not> ti_deleted x) (\<lambda>x. x\<lparr>ti_deleted := True\<rparr>) t3;
          rest = map ti_order_id (batch_items batchId t4);
          rest_prior = live_orders (\<lambda>x. ord_id x \<in> set rest) t4;
          t5 = set_orders (\<lambda>x. ord_id x \<in> set rest)
                 (\<lambda>x. if tb_direction b = RETURN then x\<lparr>ord_current_batch_id := None, ord_updated_at := te_now env\<rparr>
                      else x\<lparr>ord_current_batch_id := None, ord_status := NEW, ord_updated_at := te_now env\<rparr>) t4;
          t6 = track (if tb_direction b = FORWARD
                then status_tracking rest_prior (map ord_id rest_prior) NEW requester role ''branch_batch_requeued''
                       (''Pochta #'' @ batchId @ '' qisman qabul qilindi, buyurtma jo'natuvchiga qaytarildi'')
                       (''Batch #'' @ batchId @ '' qisman qabul qilindi, order qayta navbatga qo'yildi'')
                else []) t5;
          t7 = set_items (\<lambda>x. ti_batch_id x = batchId \<and> ti_order_id x \<in> set rest \<and> \<not> ti_deleted x) (\<lambda>x. x\<lparr>ti_deleted := True\<rparr>) t6;
          t8 = set_batch batchId (\<lambda>b. (arrive env requester b)\<lparr>tb_order_count := int (length selected), tb_total_price := item_sum selected\<rparr>) t7;
          remark = ''Xodim '' @ name_or_id (vi_requester_name input) (vi_requester input) @ '' batchdan '' @ string_of_nat (length ids)
                 @ '' ta order qabul qildi'' @ (if rest = [] then [] else '', '' @ string_of_nat (length rest) @ '' ta order qayta batchlandi'')
      in (add_batch_history [history_row batchId requester TA_RECEIVED (Some remark)] t8, rest))"

definition receive_check :: "receive_input \<Rightarrow> string list \<Rightarrow> transfer_db \<Rightarrow> rpc_error + transfer_batch \<times> batch_item list" where
  "receive_check input order_ids t =
     (let batchId = trim (str_or_empty (vi_batch_id input)); unique_ids = id_list order_ids in
      rbind (require (batchId \<noteq> []) (badRequest ''batch_id is required'')) (\<lambda>_.
      rbind (require (unique_ids \<noteq> []) (badRequest ''order_ids bo'sh bo'lmasligi kerak'')) (\<lambda>_.
      rbind (sent_batch ''paketdan'' batchId t) (\<lambda>b.
      let selected = filter (\<lambda>x. ti_order_id x \<in> set unique_ids) (batch_items batchId t); ids = map ti_order_id selected;
          missing = filter (\<lambda>i. i \<notin> set ids) unique_ids;
          unsent = map ti_order_id (filter (\<lambda>x. ti_sent_at x = None) selected) in
      rbind (require (selected \<noteq> []) (badRequest ''Berilgan orderlar bu batch ichida topilmadi'')) (\<lambda>_.
      rbind (require (missing = []) (badRequest (''Quyidagi orderlar batch ichida yo'q: '' @ join '', '' missing))) (\<lambda>_.
      rbind (require (unsent = []) (badRequest (''Quyidagi orderlar hali jo'natilmagan: '' @ join '', '' unsent))) (\<lambda>_.
        Inr (b, selected))))))))"

definition rebatch :: "transfer_env \<Rightarrow> transfer_batch \<Rightarrow> ident list \<Rightarrow> ident \<Rightarrow> transfer_db \<Rightarrow> rpc_error + transfer_db \<times> ident list" where
  "rebatch env b rest requester t =
     (if rest = [] then Inr (t, [])
      else if tb_direction b = RETURN
      then createBranchReturnBatches env \<lparr>ri_source = Some (tb_source_branch_id b), ri_order_ids = rest,
             ri_request_key = Some (''rtn_from_partial_receive_'' @ tb_id b @ ''_'' @ te_stamp env), ri_requester = Some requester,
             ri_notes = None\<rparr> t
      else createBranchTransferBatches env \<lparr>ci_source = Some (tb_source_branch_id b), ci_destination = Some (tb_destination_branch_id b),
             ci_order_ids = rest, ci_direction = Some ''FORWARD'',
             ci_request_key = Some (''fwd_from_partial_receive_'' @ tb_id b @ ''_'' @ te_stamp env), ci_requester = Some requester\<rparr> t)"

definition receiveBranchTransferBatchOrders :: "transfer_env \<Rightarrow> receive_input \<Rightarrow> string list \<Rightarrow> transfer_db
    \<Rightarrow> (rpc_error + unit) \<times> transfer_db" where
  "receiveBranchTransferBatchOrders env input order_ids t =
     (case receive_check input order_ids t of
        Inl e \<Rightarrow> (Inl e, t)
      | Inr (b, selected) \<Rightarrow>
          let (t1, rest) = receive_some env input b selected t; requester = requester_or_zero (vi_requester input) in
          (case rebatch env b rest requester t1 of
             Inl e \<Rightarrow> (Inl e, t1)
           | Inr (t2, _) \<Rightarrow> (Inr (), log_transfer (audit_row ''BranchTransferBatch'' (tb_id b) ''status_change'' (Some requester)) t2)))"

subsection \<open>Cancelling\<close>

definition cancel_open :: "transfer_env \<Rightarrow> receive_input \<Rightarrow> string \<Rightarrow> transfer_batch \<Rightarrow> transfer_db \<Rightarrow> transfer_db" where
  "cancel_open env input reason b t =
     (let batchId = tb_id b; requester = requester_or_zero (vi_requester input); role = toTrackingRole (vi_requester_roles input);
          inside = (\<lambda>x. ord_current_batch_id x = Some batchId);
          t1 = set_batch batchId (\<lambda>b. b\<lparr>tb_status := TB_CANCELLED, tb_cancelled_at := Some (te_now env)\<rparr>) t;
          prior = live_orders inside t;
          requeue = (tb_direction b = FORWARD \<and> prior \<noteq> []);
          t2 = set_orders inside (\<lambda>x. if requeue then x\<lparr>ord_current_batch_id := None, ord_status := NEW, ord_updated_at := te_now env\<rparr>
                                     else x\<lparr>ord_current_batch_id := None, ord_updated_at := te_now env\<rparr>) t1;
          t3 = track (if requeue
                then status_tracking prior (map ord_id prior) NEW requester role ''branch_batch_cancelled''
                       (''Pochta #'' @ batchId @ '' bekor qilindi, buyurtma qayta yangi holatga qaytarildi'')
                       (''Batch #'' @ batchId @ '' bekor qilindi'')
                else []) t2;
          t4 = add_batch_history [history_row batchId requester TA_CANCELLED (Some (''Operator ''
                 @ name_or_id (vi_requester_name input) (vi_requester input) @ '' paketni bekor qildi. Sabab: '' @ reason))] t3
      in log_transfer (audit_row ''BranchTransferBatch'' batchId ''status_change'' (Some requester)) t4)"

definition cancelBranchTransferBatch :: "transfer_env \<Rightarrow> receive_input \<Rightarrow> string option \<Rightarrow> transfer_db \<Rightarrow> rpc_error + transfer_db" where
  "cancelBranchTransferBatch env input why t =
     (let batchId = trim (str_or_empty (vi_batch_id input)); reason = trim (str_or_empty why) in
      rbind (require (batchId \<noteq> []) (badRequest ''batch_id is required'')) (\<lambda>_.
      rbind (require (10 \<le> length reason) (badRequest ''Bekor qilish sababi kamida 10 ta belgidan iborat bo'lishi kerak'')) (\<lambda>_.
      rbind (get_batch batchId t) (\<lambda>b.
      rbind (require (tb_status b \<noteq> TB_RECEIVED) (badRequest ''RECEIVED paketni bekor qilib bo'lmaydi'')) (\<lambda>_.
      rbind (require (tb_status b \<noteq> TB_CANCELLED) (badRequest ''Bekor qilingan paketni qayta bekor qilib bo'lmaydi'')) (\<lambda>_.
        Inr (cancel_open env input reason b t)))))))"

end
