(* ===== verification/Transfer_Invariant.thy ===== *)
theory Transfer_Invariant
  imports Transfer_Batch
begin

text \<open>
  The invariant of the transfer batches: what a batch says it holds is what its items say, an item
  is marked as sent exactly when its batch is, and an order in an open batch points to that batch,
  so no order is in two open batches.
\<close>

section \<open>The books\<close>

definition active :: "transfer_batch \<Rightarrow> bool" where
  "active b \<longleftrightarrow> (tb_status b = TB_PENDING \<or> tb_status b = TB_SENT) \<and> \<not> tb_deleted b"

abbreviation in_batch :: "ident \<Rightarrow> batch_item list \<Rightarrow> batch_item list" where
  "in_batch i xs \<equiv> filter (\<lambda>x. ti_batch_id x = i \<and> \<not> ti_deleted x) xs"

definition tallied :: "transfer_batch \<Rightarrow> batch_item list \<Rightarrow> bool" where
  "tallied b xs \<longleftrightarrow> tb_order_count b = int (length (in_batch (tb_id b) xs)) \<and> tb_total_price b = item_sum (in_batch (tb_id b) xs)
     \<and> (\<forall>x\<in>set (in_batch (tb_id b) xs). ti_sent_at x \<noteq> None \<longleftrightarrow> tb_status b = TB_SENT)"

definition bound :: "ident \<Rightarrow> batch_item list \<Rightarrow> order list \<Rightarrow> bool" where
  "bound i xs os \<longleftrightarrow> (\<forall>x\<in>set (in_batch i xs). \<forall>ord\<in>set os. ord_id ord = ti_order_id x \<and> \<not> ord_deleted ord
     \<longrightarrow> ord_current_batch_id ord = Some i)"

definition books :: "transfer_batch list \<Rightarrow> batch_item list \<Rightarrow> order list \<Rightarrow> bool" where
  "books bs xs os \<longleftrightarrow> (\<forall>b\<in>set bs. active b \<longrightarrow> tallied b xs \<and> bound (tb_id b) xs os)"

abbreviation orders_of :: "transfer_db \<Rightarrow> order list" where
  "orders_of t \<equiv> db_orders (tx_orders t)"

definition transfer_inv :: "transfer_db \<Rightarrow> bool" where
  "transfer_inv t \<longleftrightarrow> tbt.wf (tx_batch_seq t) (tx_batches t) \<and> tit.wf (tx_item_seq t) (tx_items t) \<and> distinct (map ord_id (orders_of t))
     \<and> distinct (map (\<lambda>x. (ti_batch_id x, ti_order_id x)) (tx_items t))
     \<and> (\<forall>x\<in>set (tx_items t). ti_batch_id x \<in> tb_id ` set (tx_batches t))
     \<and> books (tx_batches t) (tx_items t) (orders_of t)"

lemma transfer_invD:
  assumes "transfer_inv t"
  shows "tbt.wf (tx_batch_seq t) (tx_batches t)" "tit.wf (tx_item_seq t) (tx_items t)" "distinct (map ord_id (orders_of t))"
    "distinct (map (\<lambda>x. (ti_batch_id x, ti_order_id x)) (tx_items t))"
    "\<And>x. x \<in> set (tx_items t) \<Longrightarrow> ti_batch_id x \<in> tb_id ` set (tx_batches t)"
    "books (tx_batches t) (tx_items t) (orders_of t)"
  using assms unfolding transfer_inv_def by blast+

subsection \<open>What the writers leave alone\<close>

lemma rows_kept [simp]:
  "tx_batches (log_transfer a t) = tx_batches t" "tx_items (log_transfer a t) = tx_items t" "orders_of (log_transfer a t) = orders_of t"
  "tx_batch_seq (log_transfer a t) = tx_batch_seq t" "tx_item_seq (log_transfer a t) = tx_item_seq t"
  "tx_batches (add_batch_history h t) = tx_batches t" "tx_items (add_batch_history h t) = tx_items t" "orders_of (add_batch_history h t) = orders_of t"
  "tx_batch_seq (add_batch_history h t) = tx_batch_seq t" "tx_item_seq (add_batch_history h t) = tx_item_seq t"
  "tx_batches (track tr t) = tx_batches t" "tx_items (track tr t) = tx_items t" "orders_of (track tr t) = orders_of t"
  "tx_batch_seq (track tr t) = tx_batch_seq t" "tx_item_seq (track tr t) = tx_item_seq t"
  "tx_batches (take_custody cs t) = tx_batches t" "tx_items (take_custody cs t) = tx_items t" "orders_of (take_custody cs t) = orders_of t"
  "tx_batch_seq (take_custody cs t) = tx_batch_seq t" "tx_item_seq (take_custody cs t) = tx_item_seq t"
  by (simp_all add: log_transfer_def add_batch_history_def track_def take_custody_def)

lemma rows_set [simp]:
  "tx_batches (set_batch i f t) = update_where (\<lambda>b. tb_id b = i) f (tx_batches t)" "tx_items (set_batch i f t) = tx_items t"
  "orders_of (set_batch i f t) = orders_of t" "tx_batch_seq (set_batch i f t) = tx_batch_seq t" "tx_item_seq (set_batch i f t) = tx_item_seq t"
  "tx_batches (set_orders P g t) = tx_batches t" "tx_items (set_orders P g t) = tx_items t"
  "orders_of (set_orders P g t) = update_where (\<lambda>x. P x \<and> \<not> ord_deleted x) g (orders_of t)"
  "tx_batch_seq (set_orders P g t) = tx_batch_seq t" "tx_item_seq (set_orders P g t) = tx_item_seq t"
  "tx_batches (set_items Q h t) = tx_batches t" "tx_items (set_items Q h t) = update_where Q h (tx_items t)"
  "orders_of (set_items Q h t) = orders_of t" "tx_batch_seq (set_items Q h t) = tx_batch_seq t" "tx_item_seq (set_items Q h t) = tx_item_seq t"
  by (simp_all add: set_batch_def set_orders_def set_items_def)

subsection \<open>Updates of one table\<close>

text \<open>Orders: an update may only detach an order that no open batch holds.\<close>

lemma bound_orders:
  assumes b: "bound i xs os" and g: "\<And>ord. ord_id (g ord) = ord_id ord" "\<And>ord. ord_deleted (g ord) = ord_deleted ord"
    and keep: "\<And>ord x. ord \<in> set os \<Longrightarrow> P ord \<Longrightarrow> \<not> ord_deleted ord \<Longrightarrow> x \<in> set (in_batch i xs) \<Longrightarrow> ord_id ord = ti_order_id x
      \<Longrightarrow> ord_current_batch_id ord = Some i \<Longrightarrow> ord_current_batch_id (g ord) = Some i"
  shows "bound i xs (update_where (\<lambda>x. P x \<and> \<not> ord_deleted x) g os)"
  unfolding bound_def
proof (intro ballI impI, elim conjE)
  fix x ord'
  assume x: "x \<in> set (in_batch i xs)" and o': "ord' \<in> set (update_where (\<lambda>x. P x \<and> \<not> ord_deleted x) g os)"
    and m: "ord_id ord' = ti_order_id x" "\<not> ord_deleted ord'"
  from o' obtain ord where ord: "ord \<in> set os" "ord' = (if P ord \<and> \<not> ord_deleted ord then g ord else ord)"
    unfolding update_where_def set_map by (rule imageE)
  have m': "ord_id ord = ti_order_id x" "\<not> ord_deleted ord" using m ord(2) g by (simp_all split: if_splits)
  then have "ord_current_batch_id ord = Some i" using b x ord(1) unfolding bound_def by blast
  then show "ord_current_batch_id ord' = Some i" using keep [OF ord(1) _ m'(2) x m'(1)] ord(2) by simp
qed

lemma orders_distinct:
  "(\<And>ord. ord_id (g ord) = ord_id ord) \<Longrightarrow> map ord_id (update_where P g os) = map ord_id os"
  by (simp add: update_where_def)

lemma books_orders:
  assumes "books bs xs os" and "\<And>ord. ord_id (g ord) = ord_id ord" "\<And>ord. ord_deleted (g ord) = ord_deleted ord"
    and "\<And>ord x b. ord \<in> set os \<Longrightarrow> P ord \<Longrightarrow> \<not> ord_deleted ord \<Longrightarrow> b \<in> set bs \<Longrightarrow> active b \<Longrightarrow> x \<in> set (in_batch (tb_id b) xs)
      \<Longrightarrow> ord_id ord = ti_order_id x \<Longrightarrow> ord_current_batch_id ord = Some (tb_id b) \<Longrightarrow> ord_current_batch_id (g ord) = Some (tb_id b)"
  shows "books bs xs (update_where (\<lambda>x. P x \<and> \<not> ord_deleted x) g os)"
  unfolding books_def
proof (intro ballI impI)
  fix b
  assume b: "b \<in> set bs" "active b"
  then have k: "tallied b xs" "bound (tb_id b) xs os" using assms(1) unfolding books_def by blast+
  have "bound (tb_id b) xs (update_where (\<lambda>x. P x \<and> \<not> ord_deleted x) g os)"
    by (rule bound_orders [OF k(2) assms(2,3)]) (rule assms(4) [OF _ _ _ b])
  with k(1) show "tallied b xs \<and> bound (tb_id b) xs (update_where (\<lambda>x. P x \<and> \<not> ord_deleted x) g os)" by (rule conjI)
qed

text \<open>Batches: an update that closes a batch, or keeps what the books say of it.\<close>

lemma books_batches:
  assumes k: "books bs xs os" and f: "\<And>b. b \<in> set bs \<Longrightarrow> P b \<Longrightarrow> tb_id (f b) = tb_id b"
    and keep: "\<And>b. b \<in> set bs \<Longrightarrow> P b \<Longrightarrow> active (f b) \<Longrightarrow> (active b \<Longrightarrow> tallied b xs \<and> bound (tb_id b) xs os) \<Longrightarrow> tallied (f b) xs \<and> bound (tb_id b) xs os"
  shows "books (update_where P f bs) xs os"
  unfolding books_def
proof (intro ballI impI)
  fix c
  assume "c \<in> set (update_where P f bs)" and a: "active c"
  then obtain b where b: "b \<in> set bs" "c = (if P b then f b else b)" unfolding update_where_def set_map by blast
  have kb: "active b \<Longrightarrow> tallied b xs \<and> bound (tb_id b) xs os" using k b(1) unfolding books_def by blast
  show "tallied c xs \<and> bound (tb_id c) xs os"
  proof (cases "P b")
    case True
    then show ?thesis using keep [OF b(1) True] kb a b(2) f [OF b(1) True] by simp
  next
    case False
    then show ?thesis using kb a b(2) by simp
  qed
qed

lemma batch_ids: "(\<And>b. tb_id (f b) = tb_id b) \<Longrightarrow> tb_id ` set (update_where P f bs) = tb_id ` set bs"
  unfolding update_where_def set_map image_image by (rule image_cong) simp_all

text \<open>The one open batch of an order.\<close>

lemma one_batch:
  assumes k: "books bs xs os" and b: "b \<in> set bs" "active b" "x \<in> set (in_batch (tb_id b) xs)"
    and c: "c \<in> set bs" "active c" "y \<in> set (in_batch (tb_id c) xs)"
    and od: "ord \<in> set os" "\<not> ord_deleted ord" "ord_id ord = ti_order_id x" "ord_id ord = ti_order_id y"
  shows "tb_id b = tb_id c"
proof -
  have "ord_current_batch_id ord = Some (tb_id b)" using k b od unfolding books_def bound_def by blast
  moreover have "ord_current_batch_id ord = Some (tb_id c)" using k c od unfolding books_def bound_def by blast
  ultimately show ?thesis by simp
qed

lemma open_batch_of_current:
  assumes "books bs xs os" and "b \<in> set bs" "active b" "x \<in> set (in_batch (tb_id b) xs)"
    and "ord \<in> set os" "\<not> ord_deleted ord" "ord_id ord = ti_order_id x"
  shows "ord_current_batch_id ord = Some (tb_id b)"
  using assms unfolding books_def bound_def by blast

subsection \<open>Putting orders into batches\<close>

lemma bind_all:
  assumes d: "distinct (map ord_id os)" "distinct ids"
    and len: "length (filter (\<lambda>x. (ord_id x \<in> set ids \<and> ord_current_batch_id x = None) \<and> \<not> ord_deleted x) os) = length ids"
    and ord: "ord \<in> set os" "ord_id ord \<in> set ids"
  shows "ord_current_batch_id ord = None"
proof -
  define free where "free = filter (\<lambda>x. (ord_id x \<in> set ids \<and> ord_current_batch_id x = None) \<and> \<not> ord_deleted x) os"
  have "distinct (map ord_id free)" unfolding free_def by (rule distinct_map_filter [OF d(1)])
  then have "card (ord_id ` set free) = length free" using distinct_card [of "map ord_id free"] by simp
  then have "card (ord_id ` set free) = card (set ids)" using len distinct_card [OF d(2)] by (simp add: free_def)
  moreover have "ord_id ` set free \<subseteq> set ids" by (auto simp only: free_def set_filter)
  ultimately have "ord_id ` set free = set ids" by (intro card_subset_eq) simp_all
  then obtain y where y: "y \<in> set free" "ord_id y = ord_id ord" using ord(2) by (metis imageE)
  then have "y \<in> set os" "ord_current_batch_id y = None" by (simp_all add: free_def)
  moreover have "y = ord" using d(1) \<open>y \<in> set os\<close> ord(1) y(2) by (simp add: distinct_map inj_on_def)
  ultimately show ?thesis by simp
qed

lemma bind_orders_Inr:
  assumes "bind_orders env ids i t = Inr t1"
  shows "tx_batches t1 = tx_batches t" "tx_items t1 = tx_items t" "tx_batch_seq t1 = tx_batch_seq t" "tx_item_seq t1 = tx_item_seq t"
    and "orders_of t1 = update_where (\<lambda>x. (ord_id x \<in> set ids \<and> ord_current_batch_id x = None) \<and> \<not> ord_deleted x)
           (\<lambda>x. x\<lparr>ord_current_batch_id := Some i, ord_updated_at := te_now env\<rparr>) (orders_of t)"
    and "length (filter (\<lambda>x. (ord_id x \<in> set ids \<and> ord_current_batch_id x = None) \<and> \<not> ord_deleted x) (orders_of t)) = length ids"
  using assms by (auto simp: bind_orders_def Let_def result_simps live_orders_def simp del: rbind.simps)

lemma new_items:
  "in_batch i (map (new_item j) os) = (if i = j then map (new_item j) os else [])" "item_sum (map (new_item j) os) = price_sum os"
  by (simp_all add: filter_map comp_def new_item_def item_sum_def price_sum_def)

lemma item_sum_append [simp]: "item_sum (xs @ ys) = item_sum xs + item_sum ys"
  by (simp add: item_sum_def)

lemma tallied_grow:
  assumes "tallied b xs" and "tb_status b = TB_PENDING"
  shows "tallied (grow_batch os b) (xs @ map (new_item (tb_id b)) os)"
  using assms by (auto simp: tallied_def grow_batch_def new_items) (simp add: new_item_def)

lemma tallied_other:
  assumes "tallied b xs" and "tb_id b \<noteq> i"
  shows "tallied b (xs @ map (new_item i) os)"
  using assms by (simp add: tallied_def new_items)

definition tallies :: "transfer_batch list \<Rightarrow> batch_item list \<Rightarrow> bool" where
  "tallies bs xs \<longleftrightarrow> (\<forall>b\<in>set bs. active b \<longrightarrow> tallied b xs)"

definition bounds :: "transfer_batch list \<Rightarrow> batch_item list \<Rightarrow> order list \<Rightarrow> bool" where
  "bounds bs xs os \<longleftrightarrow> (\<forall>b\<in>set bs. active b \<longrightarrow> bound (tb_id b) xs os)"

lemma books_split: "books bs xs os \<longleftrightarrow> tallies bs xs \<and> bounds bs xs os"
  unfolding books_def tallies_def bounds_def by blast

text \<open>One group into its batch.\<close>

lemma bound_fill:
  assumes b: "bound j xs os" and d: "distinct (map ord_id os)" "distinct (map ord_id grp)"
    and len: "length (filter (\<lambda>x. (ord_id x \<in> set (map ord_id grp) \<and> ord_current_batch_id x = None) \<and> \<not> ord_deleted x) os) = length (map ord_id grp)"
  shows "bound j (xs @ map (new_item i) grp)
      (update_where (\<lambda>x. (ord_id x \<in> set (map ord_id grp) \<and> ord_current_batch_id x = None) \<and> \<not> ord_deleted x)
         (\<lambda>x. x\<lparr>ord_current_batch_id := Some i, ord_updated_at := n\<rparr>) os)" (is "bound j ?xs ?os")
proof -
  have old: "bound j xs ?os" by (rule bound_orders [OF b]) simp_all
  have new: "ord_current_batch_id ord' = Some i" if o': "ord' \<in> set ?os" "\<not> ord_deleted ord'" "ord_id ord' \<in> set (map ord_id grp)" for ord'
  proof -
    from o'(1) obtain ord where ord: "ord \<in> set os"
      "ord' = (if (ord_id ord \<in> set (map ord_id grp) \<and> ord_current_batch_id ord = None) \<and> \<not> ord_deleted ord
               then ord\<lparr>ord_current_batch_id := Some i, ord_updated_at := n\<rparr> else ord)"
      unfolding update_where_def set_map by (rule imageE)
    then have "ord_id ord \<in> set (map ord_id grp)" "\<not> ord_deleted ord" using o'(2,3) by (simp_all split: if_splits)
    with bind_all [OF d len ord(1)] ord(2) show ?thesis by simp
  qed
  show ?thesis unfolding bound_def
  proof (intro ballI impI, elim conjE)
    fix x ord
    assume x: "x \<in> set (in_batch j ?xs)" and od: "ord \<in> set ?os" "ord_id ord = ti_order_id x" "\<not> ord_deleted ord"
    show "ord_current_batch_id ord = Some j"
    proof (cases "x \<in> set (in_batch j xs)")
      case True
      then show ?thesis using old od unfolding bound_def by blast
    next
      case False
      then have "i = j \<and> x \<in> set (map (new_item i) grp)" using x by (auto simp: new_items filter_append split: if_splits)
      then have "i = j" "ord_id ord \<in> set (map ord_id grp)" using od(2) by (auto simp: new_item_def)
      then show ?thesis using new [OF od(1,3)] by simp
    qed
  qed
qed

lemma tallies_fill:
  assumes k: "tallies bs xs" and p: "\<And>b. b \<in> set bs \<Longrightarrow> tb_id b = i \<Longrightarrow> tb_status b = TB_PENDING"
  shows "tallies (update_where (\<lambda>b. tb_id b = i) (grow_batch grp) bs) (xs @ map (new_item i) grp)"
  unfolding tallies_def
proof (intro ballI impI)
  fix c
  assume "c \<in> set (update_where (\<lambda>b. tb_id b = i) (grow_batch grp) bs)" and a: "active c"
  then obtain b where b: "b \<in> set bs" "c = (if tb_id b = i then grow_batch grp b else b)" unfolding update_where_def set_map by blast
  have "active b" using a b(2) by (simp add: active_def grow_batch_def split: if_splits)
  then have kb: "tallied b xs" using k b(1) unfolding tallies_def by blast
  show "tallied c (xs @ map (new_item i) grp)"
  proof (cases "tb_id b = i")
    case True
    then show ?thesis using tallied_grow [OF kb p [OF b(1) True], of grp] b(2) by simp
  next
    case False
    then show ?thesis using tallied_other [OF kb False] b(2) by simp
  qed
qed

lemma grow_kept: "tb_id (grow_batch grp b) = tb_id b" "tb_status (grow_batch grp b) = tb_status b" "active (grow_batch grp b) = active b"
  by (simp_all add: grow_batch_def active_def)

text \<open>An update of a batch that keeps its identifier and its state.\<close>

lemma update_row:
  assumes "c \<in> set (update_where P f bs)" and "\<And>b. tb_id (f b) = tb_id b" "\<And>b. tb_status (f b) = tb_status b" "\<And>b. active (f b) = active b"
  obtains b where "b \<in> set bs" "tb_id c = tb_id b" "tb_status c = tb_status b" "active c = active b"
proof -
  from assms(1) obtain b where "b \<in> set bs" "c = (if P b then f b else b)" unfolding update_where_def set_map by (rule imageE)
  then show thesis using that assms(2-4) by (cases "P b") simp_all
qed

lemma bounds_grow: "bounds bs xs os \<Longrightarrow> bounds (update_where P (grow_batch grp) bs) xs os"
  unfolding bounds_def by (metis grow_kept update_row)

lemma fill_batches_books:
  assumes "fill_batches env by_region groups t = Inr (t', items)" and "books (tx_batches t) xs (orders_of t)"
    and "distinct (map ord_id (orders_of t))" and "\<forall>(r, os)\<in>set groups. distinct (map ord_id os)"
    and "\<forall>i\<in>snd ` set by_region. \<forall>b\<in>set (tx_batches t). tb_id b = i \<longrightarrow> tb_status b = TB_PENDING"
  shows "books (tx_batches t') (xs @ items) (orders_of t') \<and> map ord_id (orders_of t') = map ord_id (orders_of t)
    \<and> map tb_id (tx_batches t') = map tb_id (tx_batches t) \<and> tx_batch_seq t' = tx_batch_seq t
    \<and> tx_items t' = tx_items t \<and> tx_item_seq t' = tx_item_seq t \<and> ti_batch_id ` set items \<subseteq> snd ` set by_region"
  using assms
proof (induction groups arbitrary: t t' xs items)
  case Nil
  then show ?case by simp
next
  case (Cons g groups)
  obtain r grp where g: "g = (r, grp)" by (cases g)
  from Cons.prems(1) obtain i t1 rest where i: "map_of by_region r = Some i" and t1: "bind_orders env (map ord_id grp) i t = Inr t1"
    and rest: "fill_batches env by_region groups (set_batch i (grow_batch grp) t1) = Inr (t', rest)" and items: "items = map (new_item i) grp @ rest"
    unfolding g by (auto simp: result_simps simp del: rbind.simps split: option.splits)
  have iv: "i \<in> snd ` set by_region" using map_of_SomeD [OF i] by force
  note B = bind_orders_Inr [OF t1]
  have dg: "distinct (map ord_id grp)" using Cons.prems(4) unfolding g by simp
  let ?t2 = "set_batch i (grow_batch grp) t1"
  have pend: "tb_status b = TB_PENDING" if "b \<in> set (tx_batches t)" "tb_id b = i" for b using Cons.prems(5) iv that by blast
  have "tallies (tx_batches ?t2) (xs @ map (new_item i) grp)"
    using tallies_fill [of "tx_batches t" xs i grp, OF _ pend] Cons.prems(2) unfolding books_split rows_set B(1) by blast
  moreover have "bounds (tx_batches ?t2) (xs @ map (new_item i) grp) (orders_of ?t2)"
    unfolding rows_set B(1,5)
    by (rule bounds_grow) (use Cons.prems(2) bound_fill [OF _ Cons.prems(3) dg B(6)] in \<open>unfold books_split bounds_def, blast\<close>)
  ultimately have 1: "books (tx_batches ?t2) (xs @ map (new_item i) grp) (orders_of ?t2)" unfolding books_split by blast
  have ids: "map ord_id (orders_of ?t2) = map ord_id (orders_of t)" "map tb_id (tx_batches ?t2) = map tb_id (tx_batches t)"
    unfolding rows_set B(1,5) by (simp_all add: update_where_def grow_kept)
  have 2: "distinct (map ord_id (orders_of ?t2))" unfolding ids by (rule Cons.prems(3))
  have 3: "\<forall>j\<in>snd ` set by_region. \<forall>b\<in>set (tx_batches ?t2). tb_id b = j \<longrightarrow> tb_status b = TB_PENDING"
    using Cons.prems(5) unfolding rows_set B(1) by (metis grow_kept update_row)
  have 4: "\<forall>(r, os)\<in>set groups. distinct (map ord_id os)" using Cons.prems(4) by simp
  note IH = Cons.IH [OF rest 1 2 4 3]
  have eqs: "tx_items ?t2 = tx_items t" "tx_batch_seq ?t2 = tx_batch_seq t" "tx_item_seq ?t2 = tx_item_seq t" by (simp_all add: B)
  have "ti_batch_id ` set (map (new_item i) grp) \<subseteq> {i}" by (auto simp: new_item_def)
  then have "ti_batch_id ` set items \<subseteq> snd ` set by_region" using IH iv unfolding items set_append image_Un by blast
  then show ?case using IH unfolding ids eqs items append_assoc by (simp only:)
qed

subsection \<open>Saving the items\<close>

lemma tallied_number:
  assumes "tallied b (xs @ x # ys)"
  shows "tallied b ((xs @ [x\<lparr>ti_id := k\<rparr>]) @ ys)"
  using assms by (auto simp: tallied_def item_sum_def)

lemma bound_number:
  assumes "bound i (xs @ x # ys) os"
  shows "bound i ((xs @ [x\<lparr>ti_id := k\<rparr>]) @ ys) os"
  using assms by (cases "ti_batch_id x = i \<and> \<not> ti_deleted x") (simp_all add: bound_def del: set_filter, blast)

lemma insert_items_books:
  assumes "insert_items items t = Inr t'" and "books (tx_batches t) (tx_items t @ items) (orders_of t)"
    and "tit.wf (tx_item_seq t) (tx_items t)" and "distinct (map (\<lambda>x. (ti_batch_id x, ti_order_id x)) (tx_items t))"
  shows "books (tx_batches t') (tx_items t') (orders_of t') \<and> tit.wf (tx_item_seq t') (tx_items t')
    \<and> distinct (map (\<lambda>x. (ti_batch_id x, ti_order_id x)) (tx_items t'))
    \<and> ti_batch_id ` set (tx_items t') = ti_batch_id ` set (tx_items t) \<union> ti_batch_id ` set items
    \<and> orders_of t' = orders_of t \<and> tx_batches t' = tx_batches t \<and> tx_batch_seq t' = tx_batch_seq t"
  using assms
proof (induction items arbitrary: t)
  case Nil
  then show ?case by simp
next
  case (Cons x items)
  let ?t1 = "t\<lparr>tx_items := tx_items t @ [x\<lparr>ti_id := string_of_nat (tx_item_seq t)\<rparr>], tx_item_seq := Suc (tx_item_seq t)\<rparr>"
  from Cons.prems(1) have u: "list_all (\<lambda>y. \<not> (ti_batch_id y = ti_batch_id x \<and> ti_order_id y = ti_order_id x)) (tx_items t)"
    and rest: "insert_items items ?t1 = Inr t'"
    by (auto simp: result_simps insert_item_def simp del: rbind.simps split: if_splits)
  have "books (tx_batches ?t1) (tx_items ?t1 @ items) (orders_of ?t1)"
    using Cons.prems(2) tallied_number [of _ "tx_items t" x items] bound_number [of _ "tx_items t" x items]
    unfolding books_def by simp
  moreover have "tit.wf (tx_item_seq ?t1) (tx_items ?t1)" using tit.wf_insert [OF Cons.prems(3)] by simp
  moreover have "distinct (map (\<lambda>x. (ti_batch_id x, ti_order_id x)) (tx_items ?t1))"
    using Cons.prems(4) u by (auto simp: list_all_iff)
  ultimately have "books (tx_batches t') (tx_items t') (orders_of t') \<and> tit.wf (tx_item_seq t') (tx_items t')
    \<and> distinct (map (\<lambda>x. (ti_batch_id x, ti_order_id x)) (tx_items t'))
    \<and> ti_batch_id ` set (tx_items t') = ti_batch_id ` set (tx_items ?t1) \<union> ti_batch_id ` set items
    \<and> orders_of t' = orders_of ?t1 \<and> tx_batches t' = tx_batches ?t1 \<and> tx_batch_seq t' = tx_batch_seq ?t1"
    by (rule Cons.IH [OF rest])
  moreover have "ti_batch_id ` set (tx_items ?t1) \<union> ti_batch_id ` set items = ti_batch_id ` set (tx_items t) \<union> ti_batch_id ` set (x # items)" by simp
  moreover have "orders_of ?t1 = orders_of t" "tx_batches ?t1 = tx_batches t" "tx_batch_seq ?t1 = tx_batch_seq t" by simp_all
  ultimately show ?case by metis
qed

subsection \<open>New batches\<close>

lemma insert_batch_Inr:
  assumes "insert_batch b t = Inr (t', i)"
  shows "i = string_of_nat (tx_batch_seq t)" "tx_batches t' = tx_batches t @ [b\<lparr>tb_id := i\<rparr>]" "tx_batch_seq t' = Suc (tx_batch_seq t)"
    "tx_items t' = tx_items t" "tx_item_seq t' = tx_item_seq t" "orders_of t' = orders_of t"
  using assms by (auto simp: insert_batch_def Let_def split: if_splits)

lemma fresh_batch:
  assumes "tbt.wf n bs" and "\<forall>x\<in>set xs. ti_batch_id x \<in> tb_id ` set bs"
  shows "in_batch (string_of_nat n) xs = []"
proof -
  have "ti_batch_id x \<noteq> string_of_nat n" if "x \<in> set xs" for x using assms(2) that tbt.fresh [OF assms(1)] by (metis imageE)
  then show ?thesis by (simp add: filter_empty_conv)
qed

lemma books_insert:
  assumes "books bs xs os" and "tbt.wf n bs" and "\<forall>x\<in>set xs. ti_batch_id x \<in> tb_id ` set bs"
    and "tb_order_count b = 0" "tb_total_price b = 0"
  shows "books (bs @ [b\<lparr>tb_id := string_of_nat n\<rparr>]) xs os"
  using assms(1) assms(4,5) fresh_batch [OF assms(2,3)] by (auto simp: books_def tallied_def bound_def item_sum_def simp del: set_filter)

lemma open_batches_books:
  assumes "open_batches key source dest d rts t = Inr (t', opened)" and "books (tx_batches t) (tx_items t) (orders_of t)"
    and "tbt.wf (tx_batch_seq t) (tx_batches t)" and "\<forall>x\<in>set (tx_items t). ti_batch_id x \<in> tb_id ` set (tx_batches t)"
  shows "books (tx_batches t') (tx_items t') (orders_of t') \<and> tbt.wf (tx_batch_seq t') (tx_batches t')
    \<and> tx_items t' = tx_items t \<and> tx_item_seq t' = tx_item_seq t \<and> orders_of t' = orders_of t
    \<and> (\<exists>new. tx_batches t' = tx_batches t @ new \<and> (\<forall>b\<in>set new. tb_status b = TB_PENDING) \<and> map (\<lambda>b. (tb_target_region_id b, tb_id b)) new = opened)"
  using assms
proof (induction rts arbitrary: t opened)
  case Nil
  then show ?case by simp
next
  case (Cons rt rts)
  obtain region token where rt: "rt = (region, token)" by (cases rt)
  from Cons.prems(1) obtain t1 i rest where ins: "insert_batch (new_batch token key source dest d region 0 0) t = Inr (t1, i)"
    and more: "open_batches key source dest d rts t1 = Inr (t', rest)" and opened: "opened = (region, i) # rest"
    unfolding rt by (auto simp: result_simps simp del: rbind.simps)
  note I = insert_batch_Inr [OF ins]
  let ?b = "new_batch token key source dest d region 0 0\<lparr>tb_id := i\<rparr>"
  have b: "tb_status ?b = TB_PENDING" "tb_target_region_id ?b = region" "tb_id ?b = i" by (simp_all add: new_batch_def)
  have 1: "books (tx_batches t1) (tx_items t1) (orders_of t1)" unfolding I
    by (rule books_insert [OF Cons.prems(2-4)]) (simp_all add: new_batch_def)
  have 2: "tbt.wf (tx_batch_seq t1) (tx_batches t1)" using tbt.wf_insert [OF Cons.prems(3), of ?b] b(3) unfolding I by simp
  have 3: "\<forall>x\<in>set (tx_items t1). ti_batch_id x \<in> tb_id ` set (tx_batches t1)" using Cons.prems(4) unfolding I by auto
  from Cons.IH [OF more 1 2 3] obtain new where new: "tx_batches t' = tx_batches t1 @ new" "\<forall>b\<in>set new. tb_status b = TB_PENDING"
    "map (\<lambda>b. (tb_target_region_id b, tb_id b)) new = rest" and rest: "books (tx_batches t') (tx_items t') (orders_of t')"
    "tbt.wf (tx_batch_seq t') (tx_batches t')" "tx_items t' = tx_items t1" "tx_item_seq t' = tx_item_seq t1" "orders_of t' = orders_of t1" by metis
  have "tx_batches t' = tx_batches t @ (?b # new)" "\<forall>c\<in>set (?b # new). tb_status c = TB_PENDING"
    "map (\<lambda>b. (tb_target_region_id b, tb_id b)) (?b # new) = opened"
    using new b unfolding I(2) opened by simp_all
  then show ?case using rest unfolding I(4-6) by metis
qed

subsection \<open>createBranchTransferBatches\<close>

lemma group_by_groups:
  assumes "distinct (map ord_id os)"
  shows "\<forall>(k, g)\<in>set (group_by f (filter P os)). distinct (map ord_id g)" and "distinct (map fst (group_by f (filter P os)))"
  using assms by (auto simp: group_by_def comp_def intro!: distinct_map_filter)

lemma transfer_groups: "transfer_candidates source ids t = Inr groups \<Longrightarrow> \<exists>f P. groups = group_by f (filter P (orders_of t))"
  by (auto simp: transfer_candidates_def Let_def result_simps live_orders_def simp del: rbind.simps)

lemma return_groups: "return_candidates source ids t = Inr groups \<Longrightarrow> \<exists>f P. groups = group_by f (filter P (orders_of t))"
  by (auto simp: return_candidates_def Let_def result_simps live_orders_def simp del: rbind.simps)

lemma pending_row:
  assumes wf: "tbt.wf n (tx_batches t)" and i: "(r, i) \<in> set (pending_of source dest d t)" and b: "b \<in> set (tx_batches t)" "tb_id b = i"
  shows "tb_status b = TB_PENDING"
proof -
  from i obtain c where c: "c \<in> set (tx_batches t)" "tb_id c = i" "tb_status c = TB_PENDING" by (auto simp only: pending_of_def set_map set_filter image_iff mem_Collect_eq prod.inject)
  then have "c = b" using tbt.mem_unique [OF wf] b by simp
  then show ?thesis using c(3) by simp
qed

lemma open_pending:
  assumes wf: "tbt.wf n (tx_batches t)" and wf1: "tbt.wf n1 (tx_batches t1)"
    and new: "tx_batches t1 = tx_batches t @ new" "\<forall>b\<in>set new. tb_status b = TB_PENDING" "map (\<lambda>b. (tb_target_region_id b, tb_id b)) new = opened"
  shows "\<forall>i\<in>snd ` set (pending_of source dest d t @ opened). \<forall>b\<in>set (tx_batches t1). tb_id b = i \<longrightarrow> tb_status b = TB_PENDING"
proof (intro ballI impI)
  fix i b
  assume i: "i \<in> snd ` set (pending_of source dest d t @ opened)" and b: "b \<in> set (tx_batches t1)" "tb_id b = i"
  show "tb_status b = TB_PENDING"
  proof (cases "b \<in> set new")
    case True
    then show ?thesis using new(2) by blast
  next
    case False
    then have bt: "b \<in> set (tx_batches t)" using b(1) unfolding new(1) by simp
    from i consider r where "(r, i) \<in> set (pending_of source dest d t)" | r where "(r, i) \<in> set opened" by auto
    then show ?thesis
    proof cases
      case 1
      then show ?thesis using pending_row [OF wf _ bt b(2)] by blast
    next
      case 2
      then obtain c where "c \<in> set new" "tb_id c = i" unfolding new(3) [symmetric] by (auto simp only: set_map image_iff prod.inject)
      then have "c = b" using tbt.mem_unique [OF wf1, of c b] b unfolding new(1) by simp
      then show ?thesis using \<open>c \<in> set new\<close> False by simp
    qed
  qed
qed

text \<open>Writers that leave the three tables alone.\<close>

lemma transfer_inv_same:
  assumes "transfer_inv t" and "tx_batches t' = tx_batches t \<and> tx_items t' = tx_items t \<and> orders_of t' = orders_of t
    \<and> tx_batch_seq t' = tx_batch_seq t \<and> tx_item_seq t' = tx_item_seq t"
  shows "transfer_inv t'"
  using assms by (simp add: transfer_inv_def)

lemma wf_same_ids: "tbt.wf n bs \<Longrightarrow> map tb_id bs' = map tb_id bs \<Longrightarrow> tbt.wf n bs'"
  unfolding tbt.wf_def by (metis (no_types, lifting) image_iff list.set_map)

lemma save_items_inv:
  assumes s: "insert_items items t = Inr t'" and k: "books (tx_batches t) (tx_items t @ items) (orders_of t)"
    and wf: "tbt.wf (tx_batch_seq t) (tx_batches t)" "tit.wf (tx_item_seq t) (tx_items t)" and d: "distinct (map ord_id (orders_of t))"
    and u: "distinct (map (\<lambda>x. (ti_batch_id x, ti_order_id x)) (tx_items t))"
    and refs: "ti_batch_id ` set (tx_items t @ items) \<subseteq> tb_id ` set (tx_batches t)"
  shows "transfer_inv t'"
proof -
  note S = insert_items_books [OF s k wf(2) u]
  have "ti_batch_id ` set (tx_items t') \<subseteq> tb_id ` set (tx_batches t')" using S refs by (simp add: image_Un)
  then have "\<forall>x\<in>set (tx_items t'). ti_batch_id x \<in> tb_id ` set (tx_batches t')" by blast
  moreover have "tbt.wf (tx_batch_seq t') (tx_batches t')" "distinct (map ord_id (orders_of t'))" using S wf(1) d by simp_all
  ultimately show ?thesis unfolding transfer_inv_def using S by blast
qed

lemma create_transfer_inv:
  assumes inv: "transfer_inv t" and c: "createBranchTransferBatches env input t = Inr (t', ids)"
  shows "transfer_inv t'"
proof (cases "tx_batches t' = tx_batches t \<and> tx_items t' = tx_items t \<and> orders_of t' = orders_of t \<and> tx_batch_seq t' = tx_batch_seq t \<and> tx_item_seq t' = tx_item_seq t")
  case True
  then show ?thesis by (rule transfer_inv_same [OF inv])
next
  case False
  note V = transfer_invD [OF inv]
  from False c obtain key source dest d ids0 groups tokens t1 opened t2 items t3 where
    g: "transfer_candidates source ids0 t = Inr groups" and op: "open_batches key source dest d tokens t = Inr (t1, opened)"
    and f: "fill_batches env (pending_of source dest d t @ opened) groups t1 = Inr (t2, items)" and s: "insert_items items t2 = Inr t3"
    and t': "tx_batches t' = tx_batches t3 \<and> tx_items t' = tx_items t3 \<and> orders_of t' = orders_of t3 \<and> tx_batch_seq t' = tx_batch_seq t3 \<and> tx_item_seq t' = tx_item_seq t3"
    by (auto simp: createBranchTransferBatches_def Let_def result_simps simp del: rbind.simps split: if_splits)
  have refs: "\<forall>x\<in>set (tx_items t). ti_batch_id x \<in> tb_id ` set (tx_batches t)" using V(5) by blast
  from open_batches_books [OF op V(6,1) refs] obtain new where O: "books (tx_batches t1) (tx_items t1) (orders_of t1)"
    "tbt.wf (tx_batch_seq t1) (tx_batches t1)" "tx_items t1 = tx_items t" "tx_item_seq t1 = tx_item_seq t" "orders_of t1 = orders_of t"
    and new: "tx_batches t1 = tx_batches t @ new" "\<forall>b\<in>set new. tb_status b = TB_PENDING" "map (\<lambda>b. (tb_target_region_id b, tb_id b)) new = opened"
    by metis
  have gd: "\<forall>(r, os)\<in>set groups. distinct (map ord_id os)"
    using transfer_groups [OF g] by (elim exE) (hypsubst, rule group_by_groups(1) [OF V(3)])
  have ids: "snd ` set (pending_of source dest d t @ opened) \<subseteq> tb_id ` set (tx_batches t1)"
    unfolding new(1) new(3) [symmetric] pending_of_def by (auto simp: image_iff)
  note pend = open_pending [OF V(1) O(2) new]
  have d1: "distinct (map ord_id (orders_of t1))" unfolding O by (rule V(3))
  from fill_batches_books [OF f O(1) d1 gd pend] have F: "books (tx_batches t2) (tx_items t2 @ items) (orders_of t2)"
    "map ord_id (orders_of t2) = map ord_id (orders_of t1)" "map tb_id (tx_batches t2) = map tb_id (tx_batches t1)" "tx_batch_seq t2 = tx_batch_seq t1"
    "tx_items t2 = tx_items t" "tx_item_seq t2 = tx_item_seq t" "ti_batch_id ` set items \<subseteq> snd ` set (pending_of source dest d t @ opened)"
    unfolding O by simp_all
  have ids2: "ti_batch_id ` set (tx_items t2 @ items) \<subseteq> tb_id ` set (tx_batches t2)"
  proof -
    have "tb_id ` set (tx_batches t2) = tb_id ` set (tx_batches t1)" using F(3) by (metis list.set_map)
    moreover have "ti_batch_id ` set (tx_items t2) \<subseteq> tb_id ` set (tx_batches t1)" using refs unfolding F(5) new(1) by auto
    moreover have "ti_batch_id ` set items \<subseteq> tb_id ` set (tx_batches t1)" using F(7) ids by (rule order_trans)
    ultimately show ?thesis by (simp add: image_Un)
  qed
  have "transfer_inv t3"
    by (rule save_items_inv [OF s F(1) _ _ _ _ ids2]) (use wf_same_ids [OF O(2) F(3)] F(4) V(2,4) d1 in \<open>simp_all add: F\<close>)
  then show ?thesis using t' by (rule transfer_inv_same)
qed

subsection \<open>createBranchReturnBatches\<close>

text \<open>The first pass counts the orders of a group before their items exist.\<close>

definition counted_items :: "(ident \<times> order list) list \<Rightarrow> (ident \<times> ident \<times> bool) list \<Rightarrow> batch_item list" where
  "counted_items groups by_dest = concat (map (\<lambda>((_, os), (_, i, _)). map (new_item i) os) (zip groups by_dest))"

lemma counted_items_simps [simp]:
  "counted_items [] [] = []" "counted_items ((d, os) # gs) ((d', i, f) # bs) = map (new_item i) os @ counted_items gs bs"
  by (simp_all add: counted_items_def)

lemma tallies_insert:
  assumes "tallies bs xs" and "tbt.wf n bs" and "\<forall>x\<in>set xs. ti_batch_id x \<in> tb_id ` set bs"
    and "tb_order_count b = int (length grp)" "tb_total_price b = price_sum grp" "tb_status b = TB_PENDING"
  shows "tallies (bs @ [b\<lparr>tb_id := string_of_nat n\<rparr>]) (xs @ map (new_item (string_of_nat n)) grp)"
  unfolding tallies_def
proof (intro ballI impI)
  fix c
  assume c: "c \<in> set (bs @ [b\<lparr>tb_id := string_of_nat n\<rparr>])" and a: "active c"
  show "tallied c (xs @ map (new_item (string_of_nat n)) grp)"
  proof (cases "c \<in> set bs")
    case True
    then show ?thesis using assms(1) a tbt.fresh [OF assms(2) True] unfolding tallies_def by (intro tallied_other) simp_all
  next
    case False
    then have "c = b\<lparr>tb_id := string_of_nat n\<rparr>" using c by simp
    then show ?thesis using fresh_batch [OF assms(2,3)] assms(4-6) by (auto simp: tallied_def new_items item_sum_def) (simp_all add: new_item_def price_sum_def comp_def)
  qed
qed

definition counted_step :: "transfer_db \<Rightarrow> batch_item list \<Rightarrow> batch_item list \<Rightarrow> transfer_db \<Rightarrow> bool" where
  "counted_step t xs ys t' \<longleftrightarrow> tallies (tx_batches t') ys \<and> tbt.wf (tx_batch_seq t') (tx_batches t')
    \<and> tx_items t' = tx_items t \<and> tx_item_seq t' = tx_item_seq t \<and> orders_of t' = orders_of t
    \<and> tb_id ` set (tx_batches t) \<subseteq> tb_id ` set (tx_batches t') \<and> ti_batch_id ` set ys \<subseteq> tb_id ` set (tx_batches t')
    \<and> (\<forall>c\<in>set (tx_batches t'). active c \<longrightarrow> (\<exists>b\<in>set (tx_batches t). active b \<and> tb_id b = tb_id c) \<or> tb_id c \<notin> tb_id ` set (tx_batches t))"

lemma return_batch_step:
  assumes r: "return_batch env n key source dest region grp t = Inr (t1, i, fresh)" and k: "tallies (tx_batches t) xs"
    and wf: "tbt.wf (tx_batch_seq t) (tx_batches t)" and refs: "ti_batch_id ` set xs \<subseteq> tb_id ` set (tx_batches t)"
  shows "counted_step t xs (xs @ map (new_item i) grp) t1"
proof (cases "find (\<lambda>b. tb_source_branch_id b = source \<and> tb_destination_branch_id b = dest \<and> tb_direction b = RETURN
              \<and> tb_target_region_id b = region \<and> tb_status b = TB_PENDING \<and> \<not> tb_deleted b) (rev (tx_batches t))")
  case None
  then obtain token where ins: "insert_batch (new_batch token key source dest RETURN region (int (length grp)) (price_sum grp)) t = Inr (t1, i)"
    using r by (auto simp: return_batch_def result_simps simp del: rbind.simps)
  note I = insert_batch_Inr [OF ins]
  let ?b = "new_batch token key source dest RETURN region (int (length grp)) (price_sum grp)"
  have refs': "\<forall>x\<in>set xs. ti_batch_id x \<in> tb_id ` set (tx_batches t)" using refs by blast
  have "tallies (tx_batches t1) (xs @ map (new_item i) grp)"
    unfolding I(2) I(1) by (rule tallies_insert [OF k wf refs']) (simp_all add: new_batch_def)
  moreover have "tbt.wf (tx_batch_seq t1) (tx_batches t1)" using tbt.wf_insert [OF wf, of "?b\<lparr>tb_id := i\<rparr>"] I by simp
  moreover have "ti_batch_id ` set (xs @ map (new_item i) grp) \<subseteq> tb_id ` set (tx_batches t1)"
    using refs unfolding I(2) by (auto simp: new_item_def)
  moreover have "tb_id c \<notin> tb_id ` set (tx_batches t)" if "c \<in> set (tx_batches t1)" "c \<notin> set (tx_batches t)" for c
    using that tbt.fresh [OF wf] unfolding I(2) I(1) by (auto simp: image_iff) metis
  then have "\<forall>c\<in>set (tx_batches t1). active c \<longrightarrow> (\<exists>b\<in>set (tx_batches t). active b \<and> tb_id b = tb_id c) \<or> tb_id c \<notin> tb_id ` set (tx_batches t)" by metis
  moreover have "tb_id ` set (tx_batches t) \<subseteq> tb_id ` set (tx_batches t1)" unfolding I(2) by auto
  ultimately show ?thesis unfolding counted_step_def I(4-6) by (simp only:)
next
  case (Some b)
  then have b: "b \<in> set (tx_batches t)" "tb_status b = TB_PENDING" using find_Some_mem [OF Some] by simp_all
  have i: "i = tb_id b" "t1 = set_batch (tb_id b) (grow_batch grp) t" using r Some by (auto simp: return_batch_def)
  have "tb_status c = TB_PENDING" if "c \<in> set (tx_batches t)" "tb_id c = tb_id b" for c using tbt.mem_unique [OF wf that(1) b(1) that(2)] b(2) by simp
  then have "tallies (tx_batches t1) (xs @ map (new_item i) grp)" unfolding i rows_set by (rule tallies_fill [OF k])
  moreover have ids: "tb_id ` set (tx_batches t1) = tb_id ` set (tx_batches t)" unfolding i rows_set by (rule batch_ids) (simp add: grow_kept)
  moreover have "tbt.wf (tx_batch_seq t1) (tx_batches t1)" unfolding i rows_set by (rule tbt.wf_update_where [OF _ wf]) (simp add: grow_kept)
  moreover have "ti_batch_id ` set (map (new_item i) grp) \<subseteq> tb_id ` set (tx_batches t)" using b(1) unfolding i by (auto simp: new_item_def)
  moreover have "\<forall>c\<in>set (tx_batches t1). active c \<longrightarrow> (\<exists>b\<in>set (tx_batches t). active b \<and> tb_id b = tb_id c)"
    unfolding i rows_set by (metis grow_kept update_row)
  ultimately show ?thesis using refs unfolding counted_step_def by (simp add: i image_Un)
qed

lemma counted_trans:
  assumes "counted_step t xs ys t1" and "counted_step t1 ys zs t2"
  shows "counted_step t xs zs t2"
  using assms unfolding counted_step_def by (metis (no_types, lifting) subset_iff image_eqI order_trans)

lemma return_batches_step:
  assumes "return_batches env n key source groups t = Inr (t', by_dest)" and "counted_step s xs ys t"
  shows "counted_step s xs (ys @ counted_items groups by_dest) t' \<and> map fst by_dest = map fst groups"
  using assms
proof (induction groups arbitrary: n t by_dest ys)
  case Nil
  then show ?case by simp
next
  case (Cons g groups)
  obtain dest grp where g: "g = (dest, grp)" by (cases g)
  from Cons.prems(1) obtain region t1 i fresh rest where one: "return_batch env n key source dest region grp t = Inr (t1, i, fresh)"
    and more: "return_batches env (Suc n) key source groups t1 = Inr (t', rest)" and by_dest: "by_dest = (dest, i, fresh) # rest"
    unfolding g by (auto simp: Let_def result_simps simp del: rbind.simps)
  have "tallies (tx_batches t) ys" "tbt.wf (tx_batch_seq t) (tx_batches t)" "ti_batch_id ` set ys \<subseteq> tb_id ` set (tx_batches t)"
    using Cons.prems(2) by (simp_all only: counted_step_def)
  then have "counted_step t ys (ys @ map (new_item i) grp) t1" by (rule return_batch_step [OF one])
  from Cons.IH [OF more counted_trans [OF Cons.prems(2) this]] show ?case unfolding g by_dest by simp
qed

text \<open>The second pass binds the orders and collects exactly the items that were counted.\<close>

lemma fill_returns_bounds:
  assumes "fill_returns env by_dest groups t = Inr (t', items)" and "distinct (map ord_id (orders_of t))"
    and "\<forall>(d, os)\<in>set groups. distinct (map ord_id os)"
  shows "(\<forall>j. bound j xs (orders_of t) \<longrightarrow> bound j (xs @ items) (orders_of t'))
    \<and> map ord_id (orders_of t') = map ord_id (orders_of t) \<and> tx_batches t' = tx_batches t \<and> tx_batch_seq t' = tx_batch_seq t
    \<and> tx_items t' = tx_items t \<and> tx_item_seq t' = tx_item_seq t
    \<and> items = concat (map (\<lambda>(d, os). map (new_item (fst (the (map_of by_dest d)))) os) groups)"
  using assms
proof (induction groups arbitrary: t xs items)
  case Nil
  then show ?case by simp
next
  case (Cons g groups)
  obtain dest grp where g: "g = (dest, grp)" by (cases g)
  from Cons.prems(1) obtain i fresh t1 rest where i: "map_of by_dest dest = Some (i, fresh)" and t1: "bind_orders env (map ord_id grp) i t = Inr t1"
    and rest: "fill_returns env by_dest groups t1 = Inr (t', rest)" and items: "items = map (new_item i) grp @ rest"
    unfolding g by (auto simp: result_simps simp del: rbind.simps split: option.splits)
  note B = bind_orders_Inr [OF t1]
  have dg: "distinct (map ord_id grp)" "\<forall>(d, os)\<in>set groups. distinct (map ord_id os)" using Cons.prems(3) unfolding g by simp_all
  have ids: "map ord_id (orders_of t1) = map ord_id (orders_of t)" unfolding B(5) by (simp add: update_where_def)
  then have d1: "distinct (map ord_id (orders_of t1))" using Cons.prems(2) by simp
  have one: "bound j xs (orders_of t) \<Longrightarrow> bound j (xs @ map (new_item i) grp) (orders_of t1)" for j
    unfolding B(5) by (rule bound_fill [OF _ Cons.prems(2) dg(1) B(6)])
  note IH = Cons.IH [OF rest d1 dg(2), of "xs @ map (new_item i) grp"]
  have "\<forall>j. bound j xs (orders_of t) \<longrightarrow> bound j (xs @ items) (orders_of t')" using IH one unfolding items append_assoc by blast
  moreover have "items = concat (map (\<lambda>(d, os). map (new_item (fst (the (map_of by_dest d)))) os) (g # groups))" using IH unfolding items g by (simp add: i)
  ultimately show ?case using IH unfolding B(1-4) ids by (simp only:)
qed

lemma counted_are_filled:
  assumes "map fst by_dest = map fst groups" and "distinct (map fst groups)"
  shows "concat (map (\<lambda>(d, os). map (new_item (fst (the (map_of by_dest d)))) os) groups) = counted_items groups by_dest"
proof -
  have len: "length groups = length by_dest" using assms(1) by (metis length_map)
  have "map (\<lambda>(d, os). map (new_item (fst (the (map_of by_dest d)))) os) groups
      = map (\<lambda>((_, os), (_, i, _)). map (new_item i) os) (zip groups by_dest)"
  proof (rule nth_equalityI)
    fix k
    assume "k < length (map (\<lambda>(d, os). map (new_item (fst (the (map_of by_dest d)))) os) groups)"
    then have k: "k < length groups" "k < length by_dest" using len by simp_all
    obtain d os where g: "groups ! k = (d, os)" by (cases "groups ! k")
    obtain d' i f where b: "by_dest ! k = (d', i, f)" by (cases "by_dest ! k")
    have "d' = d" using arg_cong [OF assms(1), of "\<lambda>l. l ! k"] k g b by simp
    then have "map_of by_dest d = Some (i, f)" using map_of_is_SomeI [of by_dest d "(i, f)"] assms nth_mem [OF k(2)] b by simp
    then show "map (\<lambda>(d, os). map (new_item (fst (the (map_of by_dest d)))) os) groups ! k
        = map (\<lambda>((_, os), (_, i, _)). map (new_item i) os) (zip groups by_dest) ! k" using k g b by simp
  qed (simp add: len)
  then show ?thesis by (simp add: counted_items_def)
qed

lemma counted_bounds:
  assumes st: "counted_step t xs ys t1" and k: "bounds (tx_batches t) xs os"
    and refs: "\<And>x. x \<in> set xs \<Longrightarrow> ti_batch_id x \<in> tb_id ` set (tx_batches t)"
  shows "bounds (tx_batches t1) xs os"
  unfolding bounds_def
proof (intro ballI impI)
  fix c
  assume c: "c \<in> set (tx_batches t1)" "active c"
  show "bound (tb_id c) xs os"
  proof (cases "tb_id c \<in> tb_id ` set (tx_batches t)")
    case True
    have "\<forall>c\<in>set (tx_batches t1). active c \<longrightarrow> (\<exists>b\<in>set (tx_batches t). active b \<and> tb_id b = tb_id c) \<or> tb_id c \<notin> tb_id ` set (tx_batches t)"
      using st unfolding counted_step_def by (elim conjE)
    then obtain b where "b \<in> set (tx_batches t)" "active b" "tb_id b = tb_id c" using c True by meson
    then show ?thesis using k unfolding bounds_def by metis
  next
    case False
    then have "ti_batch_id x \<noteq> tb_id c" if "x \<in> set xs" for x using refs [OF that] by metis
    then have "in_batch (tb_id c) xs = []" by (simp add: filter_empty_conv)
    then show ?thesis unfolding bound_def by (simp del: set_filter)
  qed
qed

lemma create_return_inv:
  assumes inv: "transfer_inv t" and c: "createBranchReturnBatches env input t = Inr (t', ids)"
  shows "transfer_inv t'"
proof (cases "tx_batches t' = tx_batches t \<and> tx_items t' = tx_items t \<and> orders_of t' = orders_of t \<and> tx_batch_seq t' = tx_batch_seq t \<and> tx_item_seq t' = tx_item_seq t")
  case True
  then show ?thesis by (rule transfer_inv_same [OF inv])
next
  case False
  note V = transfer_invD [OF inv]
  from False c obtain key source ids0 groups t1 by_dest t2 items t3 where
    g: "return_candidates source ids0 t = Inr groups" and r: "return_batches env 0 key source groups t = Inr (t1, by_dest)"
    and f: "fill_returns env by_dest groups t1 = Inr (t2, items)" and s: "insert_items items t2 = Inr t3"
    and t': "tx_batches t' = tx_batches t3 \<and> tx_items t' = tx_items t3 \<and> orders_of t' = orders_of t3 \<and> tx_batch_seq t' = tx_batch_seq t3 \<and> tx_item_seq t' = tx_item_seq t3"
    by (auto simp: createBranchReturnBatches_def Let_def result_simps simp del: rbind.simps split: if_splits)
  obtain dest P where groups: "groups = group_by dest (filter P (orders_of t))" using return_groups [OF g] by (elim exE)
  have gd: "\<forall>(d, os)\<in>set groups. distinct (map ord_id os)" and gk: "distinct (map fst groups)"
    unfolding groups by (rule group_by_groups [OF V(3)])+
  have k: "tallies (tx_batches t) (tx_items t)" "bounds (tx_batches t) (tx_items t) (orders_of t)" using V(6) unfolding books_split by blast+
  have refs: "ti_batch_id ` set (tx_items t) \<subseteq> tb_id ` set (tx_batches t)" using V(5) by blast
  have "counted_step t (tx_items t) (tx_items t) t" unfolding counted_step_def
    by (intro conjI k(1) V(1) refs refl order_refl ballI impI disjI1 bexI [of _ "c" for c]) simp_all
  from return_batches_step [OF r this] have R0: "counted_step t (tx_items t) (tx_items t @ counted_items groups by_dest) t1"
    and keys: "map fst by_dest = map fst groups" by blast+
  note R = R0 [unfolded counted_step_def]
  have d1: "distinct (map ord_id (orders_of t1))" using R V(3) by simp
  note F = fill_returns_bounds [OF f d1 gd, of "tx_items t"]
  have items: "items = counted_items groups by_dest" using F counted_are_filled [OF keys gk] by simp
  have "bounds (tx_batches t1) (tx_items t) (orders_of t)" by (rule counted_bounds [OF R0 k(2) V(5)])
  then have "bounds (tx_batches t1) (tx_items t @ items) (orders_of t2)" using F R unfolding bounds_def by metis
  then have k2: "books (tx_batches t2) (tx_items t2 @ items) (orders_of t2)" unfolding books_split items using F R by simp
  have "transfer_inv t3"
    by (rule save_items_inv [OF s k2]) (use F R V(2,3,4) items in simp_all)
  then show ?thesis using t' by (rule transfer_inv_same)
qed

end
