(* ===== verification/Transfer_Steps.thy ===== *)
theory Transfer_Steps
  imports Transfer_Invariant
begin

text \<open>
  Every operation on transfer batches keeps the invariant of Transfer_Invariant; the states the
  service can reach, and what follows for them.
\<close>

subsection \<open>Updates\<close>

lemma tallied_cong: "in_batch (tb_id b) xs' = in_batch (tb_id b) xs \<Longrightarrow> tallied b xs' = tallied b xs"
  unfolding tallied_def by (simp only:)

lemma bound_cong: "in_batch i xs' = in_batch i xs \<Longrightarrow> bound i xs' os = bound i xs os"
  unfolding bound_def by (simp only:)

lemma in_batch_other:
  "(\<And>x. x \<in> set xs \<Longrightarrow> Q x \<Longrightarrow> ti_batch_id x \<noteq> i \<and> ti_batch_id (h x) \<noteq> i) \<Longrightarrow> in_batch i (update_where Q h xs) = in_batch i xs"
  unfolding update_where_def by (induction xs) auto

lemma items_same_ids: "tit.wf n xs \<Longrightarrow> map ti_id xs' = map ti_id xs \<Longrightarrow> tit.wf n xs'"
  unfolding tit.wf_def by (metis (no_types, opaque_lifting) image_iff list.set_map)

text \<open>An update of the orders that detaches or moves only orders of one batch.\<close>

definition touched_only :: "ident \<Rightarrow> batch_item list \<Rightarrow> order list \<Rightarrow> order list \<Rightarrow> bool" where
  "touched_only i xs os os' \<longleftrightarrow> map ord_id os' = map ord_id os
     \<and> (\<forall>y\<in>set os'. \<not> ord_deleted y \<longrightarrow> (\<exists>x\<in>set os. \<not> ord_deleted x \<and> ord_id x = ord_id y
          \<and> (ord_current_batch_id y = ord_current_batch_id x \<or> ord_id x \<in> ti_order_id ` set (in_batch i xs) \<or> ord_current_batch_id x = Some i)))"

lemma touched_refl: "touched_only i xs os os"
  unfolding touched_only_def by blast

lemma touched_update:
  assumes t: "touched_only i xs os os1" and g: "\<And>x. ord_id (g x) = ord_id x" "\<And>x. ord_deleted (g x) = ord_deleted x"
    and P: "\<And>x. P x \<Longrightarrow> ord_current_batch_id (g x) = ord_current_batch_id x \<or> ord_id x \<in> ti_order_id ` set (in_batch i xs) \<or> ord_current_batch_id x = Some i"
  shows "touched_only i xs os (update_where (\<lambda>x. P x \<and> \<not> ord_deleted x) g os1)"
  unfolding touched_only_def
proof (intro conjI ballI impI)
  show "map ord_id (update_where (\<lambda>x. P x \<and> \<not> ord_deleted x) g os1) = map ord_id os"
    using t orders_distinct [OF g(1)] unfolding touched_only_def by simp
next
  fix z
  assume "z \<in> set (update_where (\<lambda>x. P x \<and> \<not> ord_deleted x) g os1)" and live: "\<not> ord_deleted z"
  then obtain y where y: "y \<in> set os1" "z = (if P y \<and> \<not> ord_deleted y then g y else y)" unfolding update_where_def set_map by (elim imageE)
  have yz: "\<not> ord_deleted y" "ord_id z = ord_id y" using live y(2) g by (simp_all split: if_splits)
  have cz: "ord_current_batch_id z = ord_current_batch_id y \<or> ord_id y \<in> ti_order_id ` set (in_batch i xs) \<or> ord_current_batch_id y = Some i"
    using P [of y] y(2) by (cases "P y \<and> \<not> ord_deleted y") simp_all
  obtain x where x: "x \<in> set os" "\<not> ord_deleted x" "ord_id x = ord_id y"
    "ord_current_batch_id y = ord_current_batch_id x \<or> ord_id x \<in> ti_order_id ` set (in_batch i xs) \<or> ord_current_batch_id x = Some i"
    using t y(1) yz(1) unfolding touched_only_def by meson
  show "\<exists>x\<in>set os. \<not> ord_deleted x \<and> ord_id x = ord_id z
      \<and> (ord_current_batch_id z = ord_current_batch_id x \<or> ord_id x \<in> ti_order_id ` set (in_batch i xs) \<or> ord_current_batch_id x = Some i)"
    by (rule bexI [OF _ x(1)]) (use x(2-4) yz(2) cz in metis)
qed

lemma bound_elsewhere:
  assumes k: "books bs xs os" and b: "b \<in> set bs" "active b" and c: "c \<in> set bs" "active c" "tb_id c \<noteq> tb_id b"
    and t: "touched_only (tb_id b) xs os os'"
  shows "bound (tb_id c) xs os'"
  unfolding bound_def
proof (intro ballI impI, elim conjE)
  fix x y
  assume x: "x \<in> set (in_batch (tb_id c) xs)" and y: "y \<in> set os'" "ord_id y = ti_order_id x" "\<not> ord_deleted y"
  obtain z where z: "z \<in> set os" "\<not> ord_deleted z" "ord_id z = ord_id y"
    "ord_current_batch_id y = ord_current_batch_id z \<or> ord_id z \<in> ti_order_id ` set (in_batch (tb_id b) xs) \<or> ord_current_batch_id z = Some (tb_id b)"
    using t y(1,3) unfolding touched_only_def by meson
  have zx: "ord_id z = ti_order_id x" using z(3) y(2) by simp
  have zc: "ord_current_batch_id z = Some (tb_id c)" by (rule open_batch_of_current [OF k c(1,2) x z(1,2) zx])
  have "ord_id z \<notin> ti_order_id ` set (in_batch (tb_id b) xs)"
  proof
    assume "ord_id z \<in> ti_order_id ` set (in_batch (tb_id b) xs)"
    then obtain w where w: "w \<in> set (in_batch (tb_id b) xs)" "ord_id z = ti_order_id w" by (elim imageE)
    have "ord_current_batch_id z = Some (tb_id b)" by (rule open_batch_of_current [OF k b w(1) z(1,2) w(2)])
    then show False using zc c(3) by simp
  qed
  then show "ord_current_batch_id y = Some (tb_id c)" using z(4) zc c(3) by simp
qed

text \<open>A batch is closed and its orders are let go; items of other batches stay as they are.\<close>

lemma settle_inv:
  assumes inv: "transfer_inv t" and b: "b \<in> set (tx_batches t)" "active b"
    and bs: "tx_batches t' = update_where (\<lambda>c. tb_id c = tb_id b) f (tx_batches t)" "tx_batch_seq t' = tx_batch_seq t"
    and f: "\<And>c. tb_id (f c) = tb_id c" "\<And>c. \<not> active (f c)"
    and items: "map (\<lambda>x. (ti_id x, ti_batch_id x, ti_order_id x)) (tx_items t') = map (\<lambda>x. (ti_id x, ti_batch_id x, ti_order_id x)) (tx_items t)"
      "\<And>j. j \<noteq> tb_id b \<Longrightarrow> in_batch j (tx_items t') = in_batch j (tx_items t)" "tx_item_seq t' = tx_item_seq t"
    and os: "touched_only (tb_id b) (tx_items t) (orders_of t) (orders_of t')"
  shows "transfer_inv t'"
proof -
  note V = transfer_invD [OF inv]
  have ids: "map ti_id (tx_items t') = map ti_id (tx_items t)" "map ti_batch_id (tx_items t') = map ti_batch_id (tx_items t)"
    "map (\<lambda>x. (ti_batch_id x, ti_order_id x)) (tx_items t') = map (\<lambda>x. (ti_batch_id x, ti_order_id x)) (tx_items t)"
    using arg_cong [OF items(1), of "map fst"] arg_cong [OF items(1), of "map (fst \<circ> snd)"] arg_cong [OF items(1), of "map snd"]
    by (simp_all add: comp_def)
  have bids: "tb_id ` set (tx_batches t') = tb_id ` set (tx_batches t)" unfolding bs by (rule batch_ids [OF f(1)])
  have 1: "tbt.wf (tx_batch_seq t') (tx_batches t')" unfolding bs by (rule tbt.wf_update_where [OF f(1) V(1)])
  have 2: "tit.wf (tx_item_seq t') (tx_items t')" unfolding items(3) by (rule items_same_ids [OF V(2) ids(1)])
  have 3: "distinct (map ord_id (orders_of t'))" using os V(3) unfolding touched_only_def by simp
  have "ti_batch_id ` set (tx_items t') \<subseteq> tb_id ` set (tx_batches t')" using V(5) ids(2) unfolding bids by (metis image_subsetI list.set_map)
  then have 4: "\<forall>x\<in>set (tx_items t'). ti_batch_id x \<in> tb_id ` set (tx_batches t')" by blast
  have "books (tx_batches t') (tx_items t') (orders_of t')" unfolding books_def
  proof (intro ballI impI)
    fix c
    assume "c \<in> set (tx_batches t')" and c: "active c"
    then obtain c0 where c0: "c0 \<in> set (tx_batches t)" "c = (if tb_id c0 = tb_id b then f c0 else c0)"
      unfolding bs update_where_def set_map by (elim imageE)
    then have cc: "c = c0" "tb_id c \<noteq> tb_id b" using c f(2) by (metis (full_types))+
    then have "tallied c (tx_items t)" using V(6) c0(1) c unfolding books_def by blast
    then show "tallied c (tx_items t') \<and> bound (tb_id c) (tx_items t') (orders_of t')"
      using tallied_cong [OF items(2) [OF cc(2)]] bound_cong [OF items(2) [OF cc(2)]]
        bound_elsewhere [OF V(6) b _ c cc(2) os] c0(1) cc(1) by blast
  qed
  with 1 2 3 4 show ?thesis using V(4) unfolding transfer_inv_def ids(3) by blast
qed

subsection \<open>Receiving and cancelling\<close>

lemma get_batch_Inr: "get_batch i t = Inr b \<Longrightarrow> b \<in> set (tx_batches t) \<and> tb_id b = i \<and> \<not> tb_deleted b"
  by (auto simp: get_batch_def result_simps dest: find_Some_mem)

lemma sent_batch_Inr:
  assumes "sent_batch what i t = Inr b"
  shows "b \<in> set (tx_batches t)" "tb_id b = i" "tb_status b = TB_SENT" "active b"
proof -
  from assms obtain c where c: "get_batch i t = Inr c" and s: "(case tb_status c of
         TB_RECEIVED \<Rightarrow> Inl (badRequest ''Bu paket allaqachon qabul qilingan'')
       | TB_PENDING \<Rightarrow> Inl (badRequest (''Hali jo'natilmagan '' @ what @ '' qabul qilib bo'lmaydi''))
       | TB_CANCELLED \<Rightarrow> Inl (badRequest (''Bekor qilingan '' @ what @ '' qabul qilib bo'lmaydi''))
       | TB_SENT \<Rightarrow> Inr c) = Inr b"
    unfolding sent_batch_def rbind_Inr by (elim exE conjE)
  then have "b = c" "tb_status b = TB_SENT" by (cases "tb_status c", simp_all)+
  then show "b \<in> set (tx_batches t)" "tb_id b = i" "tb_status b = TB_SENT" "active b"
    using get_batch_Inr [OF c] by (simp_all add: active_def)
qed

lemma hand_over_kept: "ord_id (hand_over env dest r x) = ord_id x" "ord_deleted (hand_over env dest r x) = ord_deleted x"
  by (simp_all add: hand_over_def)

lemma items_of_in_batch: "set (map ti_order_id (batch_items i t)) = ti_order_id ` set (in_batch i (tx_items t))"
  by (simp only: batch_items_def set_map)

lemma receive_all_inv:
  assumes inv: "transfer_inv t" and b: "b \<in> set (tx_batches t)" "active b"
  shows "transfer_inv (receive_all env input b t)"
proof (rule settle_inv [OF inv b, where f = "arrive env (requester_or_zero (vi_requester input))"])
  show "touched_only (tb_id b) (tx_items t) (orders_of t) (orders_of (receive_all env input b t))"
    unfolding receive_all_def Let_def rows_kept rows_set
    by (intro touched_update touched_refl) (simp_all add: hand_over_kept items_of_in_batch del: set_map set_filter)
qed (simp_all add: receive_all_def Let_def arrive_def active_def)

lemma cancel_open_inv:
  assumes inv: "transfer_inv t" and b: "b \<in> set (tx_batches t)" "active b"
  shows "transfer_inv (cancel_open env input reason b t)"
proof (rule settle_inv [OF inv b, where f = "\<lambda>b. b\<lparr>tb_status := TB_CANCELLED, tb_cancelled_at := Some (te_now env)\<rparr>"])
  show "touched_only (tb_id b) (tx_items t) (orders_of t) (orders_of (cancel_open env input reason b t))"
    unfolding cancel_open_def Let_def rows_kept rows_set
    by (intro touched_update touched_refl) simp_all
qed (simp_all add: cancel_open_def Let_def active_def)

lemma delete_items_kept:
  "map (\<lambda>x. (ti_id x, ti_batch_id x, ti_order_id x)) (update_where Q (\<lambda>x. x\<lparr>ti_deleted := True\<rparr>) xs)
   = map (\<lambda>x. (ti_id x, ti_batch_id x, ti_order_id x)) xs"
  by (simp add: update_where_def)

lemma delete_items_other:
  "j \<noteq> i \<Longrightarrow> in_batch j (update_where (\<lambda>x. ti_batch_id x = i \<and> Q x) (\<lambda>x. x\<lparr>ti_deleted := True\<rparr>) xs) = in_batch j xs"
  by (rule in_batch_other) simp

text \<open>The items left after deleting some are items of the batch before.\<close>

lemma rest_items:
  "x \<in> set (in_batch i (update_where Q (\<lambda>x. x\<lparr>ti_deleted := True\<rparr>) xs)) \<Longrightarrow> x \<in> set (in_batch i xs)"
  unfolding update_where_def by (induction xs) (auto split: if_splits)

lemma receive_some_inv:
  assumes inv: "transfer_inv t" and b: "b \<in> set (tx_batches t)" "active b" and sel: "set selected \<subseteq> set (in_batch (tb_id b) (tx_items t))"
  shows "transfer_inv (fst (receive_some env input b selected t))"
proof (rule settle_inv [OF inv b, where f = "\<lambda>c. (arrive env (requester_or_zero (vi_requester input)) c)
      \<lparr>tb_order_count := int (length selected), tb_total_price := item_sum selected\<rparr>"])
  have "ti_order_id ` set selected \<subseteq> ti_order_id ` set (in_batch (tb_id b) (tx_items t))" using sel by (rule image_mono)
  moreover have "ti_order_id ` set (in_batch (tb_id b) (update_where Q (\<lambda>x. x\<lparr>ti_deleted := True\<rparr>) (tx_items t)))
      \<subseteq> ti_order_id ` set (in_batch (tb_id b) (tx_items t))" for Q using rest_items by (intro image_mono subsetI)
  ultimately show "touched_only (tb_id b) (tx_items t) (orders_of t) (orders_of (fst (receive_some env input b selected t)))"
    unfolding receive_some_def Let_def fst_conv rows_kept rows_set batch_items_def set_map
    by (intro touched_update touched_refl) (simp_all add: hand_over_kept subset_iff del: set_filter)
  show "map (\<lambda>x. (ti_id x, ti_batch_id x, ti_order_id x)) (tx_items (fst (receive_some env input b selected t)))
      = map (\<lambda>x. (ti_id x, ti_batch_id x, ti_order_id x)) (tx_items t)"
    by (simp add: receive_some_def Let_def delete_items_kept)
  show "in_batch j (tx_items (fst (receive_some env input b selected t))) = in_batch j (tx_items t)" if "j \<noteq> tb_id b" for j
    unfolding receive_some_def Let_def fst_conv rows_kept rows_set delete_items_other [OF that] ..
qed (simp_all add: receive_some_def Let_def arrive_def active_def)

subsection \<open>Sending\<close>

lemma dedup_ids: "distinct (id_list xs)"
  by (simp add: id_list_def)

lemma selected_items:
  assumes "distinct ids"
  shows "distinct (List.map_filter (\<lambda>i. find (\<lambda>x. ti_order_id x = i) xs) ids)"
    and "set (List.map_filter (\<lambda>i. find (\<lambda>x. ti_order_id x = i) xs) ids) \<subseteq> {x \<in> set xs. ti_order_id x \<in> set ids}"
  using assms
proof (induction ids)
  case (Cons i ids)
  { case 1
    then show ?case using Cons(1,2) by (auto simp: map_filter_simps split: option.split dest: find_Some_mem) }
  { case 2
    then show ?case using Cons(1,2) by (auto simp: map_filter_simps split: option.split dest: find_Some_mem) }
qed (simp_all add: map_filter_simps)

lemma send_check_Inr:
  assumes "send_check input t = Inr (b, toMark)"
  shows "b \<in> set (tx_batches t)" "active b" "toMark \<noteq> []" "distinct toMark"
    "\<And>x. x \<in> set toMark \<Longrightarrow> x \<in> set (in_batch (tb_id b) (tx_items t)) \<and> ti_sent_at x = None"
proof -
  define ids where "ids = id_list (si_order_ids input)"
  define sel where "sel = List.map_filter (\<lambda>i. find (\<lambda>x. ti_order_id x = i) (batch_items (trim (str_or_empty (si_batch_id input))) t)) ids"
  have b: "get_batch (trim (str_or_empty (si_batch_id input))) t = Inr b" "tb_status b \<noteq> TB_CANCELLED" "tb_status b \<noteq> TB_RECEIVED"
    and m: "toMark = filter (\<lambda>x. ti_sent_at x = None) sel" "toMark \<noteq> []"
    using assms by (auto simp: send_check_def Let_def result_simps sel_def ids_def simp del: rbind.simps)
  note B = get_batch_Inr [OF b(1)]
  have d: "distinct ids" unfolding ids_def by (rule dedup_ids)
  show "b \<in> set (tx_batches t)" "active b" using B b(2,3) by (cases "tb_status b"; simp add: active_def)+
  show "toMark \<noteq> []" by (rule m(2))
  show "distinct toMark" unfolding m(1) sel_def by (intro distinct_filter selected_items(1) d)
  show "x \<in> set (in_batch (tb_id b) (tx_items t)) \<and> ti_sent_at x = None" if "x \<in> set toMark" for x
    using that selected_items(2) [OF d, of "batch_items (trim (str_or_empty (si_batch_id input))) t"] B
    unfolding m(1) sel_def set_filter batch_items_def by auto
qed

text \<open>Only a pending batch has items to send.\<close>

lemma send_pending:
  assumes k: "books bs xs os" and b: "b \<in> set bs" "active b" and x: "x \<in> set (in_batch (tb_id b) xs)" "ti_sent_at x = None"
  shows "tb_status b = TB_PENDING" and "\<And>y. y \<in> set (in_batch (tb_id b) xs) \<Longrightarrow> ti_sent_at y = None"
proof -
  have t: "tallied b xs" using k b unfolding books_def by blast
  have "tb_status b \<noteq> TB_SENT" using t x unfolding tallied_def by blast
  then show "tb_status b = TB_PENDING" using b(2) unfolding active_def by blast
  then show "\<And>y. y \<in> set (in_batch (tb_id b) xs) \<Longrightarrow> ti_sent_at y = None" using t unfolding tallied_def by (metis BranchTransferBatchStatus.distinct(1))
qed

abbreviation mark_sent :: "time \<Rightarrow> batch_item set \<Rightarrow> batch_item \<Rightarrow> batch_item" where
  "mark_sent n M x \<equiv> (if x \<in> M then x\<lparr>ti_sent_at := Some n\<rparr> else x)"

lemma mark_items:
  assumes "tit.wf k xs" and "set ms \<subseteq> set xs"
  shows "update_where (\<lambda>x. ti_id x \<in> ti_id ` set ms) (\<lambda>x. x\<lparr>ti_sent_at := Some n\<rparr>) xs = map (mark_sent n (set ms)) xs"
  unfolding update_where_def
proof (rule map_cong [OF refl])
  fix x
  assume "x \<in> set xs"
  then have "ti_id x \<in> ti_id ` set ms \<longleftrightarrow> x \<in> set ms" using tit.mem_unique [OF assms(1)] assms(2) by blast
  then show "(if ti_id x \<in> ti_id ` set ms then x\<lparr>ti_sent_at := Some n\<rparr> else x) = mark_sent n (set ms) x" by simp
qed

lemma mark_kept: "ti_id (mark_sent n M x) = ti_id x" "ti_batch_id (mark_sent n M x) = ti_batch_id x" "ti_order_id (mark_sent n M x) = ti_order_id x"
  "ti_deleted (mark_sent n M x) = ti_deleted x" "ti_snapshot_price (mark_sent n M x) = ti_snapshot_price x"
  by simp_all

lemma in_batch_mark: "in_batch i (map (mark_sent n M) xs) = map (mark_sent n M) (in_batch i xs)"
  by (induction xs) auto

lemma item_sum_mark: "item_sum (map (mark_sent n M) xs) = item_sum xs"
  unfolding item_sum_def by (induction xs) simp_all

text \<open>Marking the items of a batch does not concern the others.\<close>

lemma in_batch_mark_other:
  assumes "M \<subseteq> set (in_batch i xs)" and "j \<noteq> i"
  shows "in_batch j (map (mark_sent n M) xs) = in_batch j xs"
proof -
  have "mark_sent n M x = x" if "x \<in> set (in_batch j xs)" for x using that assms by auto
  then show ?thesis unfolding in_batch_mark by (simp add: map_idI del: set_filter)
qed

lemma tallied_depart:
  assumes t: "tallied b xs" and all: "\<And>x. x \<in> set (in_batch (tb_id b) xs) \<Longrightarrow> x \<in> M"
  shows "tallied (depart env input b) (map (mark_sent n M) xs)"
proof -
  have id: "tb_id (depart env input b) = tb_id b" "tb_status (depart env input b) = TB_SENT" "tb_order_count (depart env input b) = tb_order_count b"
    "tb_total_price (depart env input b) = tb_total_price b" by (simp_all add: depart_def)
  have "ti_sent_at y \<noteq> None" if "y \<in> set (map (mark_sent n M) (in_batch (tb_id b) xs))" for y using that all by auto
  then show ?thesis using t unfolding tallied_def id in_batch_mark length_map item_sum_mark by blast
qed

lemma bound_mark: "bound i (map (mark_sent n M) xs) os = bound i xs os"
  unfolding bound_def in_batch_mark set_map ball_simps mark_kept ..

text \<open>A moved order is still bound to its batch.\<close>

definition same_binding :: "order list \<Rightarrow> order list \<Rightarrow> bool" where
  "same_binding os os' \<longleftrightarrow> map ord_id os' = map ord_id os
     \<and> (\<forall>y\<in>set os'. \<not> ord_deleted y \<longrightarrow> (\<exists>x\<in>set os. \<not> ord_deleted x \<and> ord_id x = ord_id y \<and> ord_current_batch_id x = ord_current_batch_id y))"

lemma bound_same:
  assumes "bound i xs os" and "same_binding os os'"
  shows "bound i xs os'"
  unfolding bound_def
proof (intro ballI impI, elim conjE)
  fix x y
  assume x: "x \<in> set (in_batch i xs)" and y: "y \<in> set os'" "ord_id y = ti_order_id x" "\<not> ord_deleted y"
  obtain z where "z \<in> set os" "\<not> ord_deleted z" "ord_id z = ord_id y" "ord_current_batch_id z = ord_current_batch_id y"
    using assms(2) y(1,3) unfolding same_binding_def by meson
  then show "ord_current_batch_id y = Some i" using assms(1) x y(2) unfolding bound_def by metis
qed

lemma update_order_row:
  assumes "y \<in> set (update_where (\<lambda>x. P x \<and> \<not> ord_deleted x) g os)" and "\<And>x. ord_id (g x) = ord_id x" "\<And>x. ord_deleted (g x) = ord_deleted x"
  obtains x where "x \<in> set os" "ord_id x = ord_id y" "ord_deleted x = ord_deleted y" "y = (if P x \<and> \<not> ord_deleted x then g x else x)"
proof -
  from assms(1) obtain x where x: "x \<in> set os" "y = (if P x \<and> \<not> ord_deleted x then g x else x)" unfolding update_where_def set_map by (elim imageE)
  have "ord_id (if P x \<and> \<not> ord_deleted x then g x else x) = ord_id x" "ord_deleted (if P x \<and> \<not> ord_deleted x then g x else x) = ord_deleted x"
    by (simp_all add: assms(2,3))
  then show thesis by (intro that [OF x(1) _ _ x(2)]) (simp_all only: x(2))
qed

abbreviation sent_order :: "transfer_env \<Rightarrow> transfer_batch \<Rightarrow> ident \<Rightarrow> order \<Rightarrow> order" where
  "sent_order env b sent x \<equiv> (if tb_direction b = FORWARD
      then x\<lparr>ord_current_batch_id := Some sent, ord_status := ON_THE_ROAD, ord_updated_at := te_now env\<rparr>
      else x\<lparr>ord_current_batch_id := Some sent, ord_updated_at := te_now env\<rparr>)"

lemma sent_orders_tables:
  "tx_batches (sent_orders env input b ids sent t) = tx_batches t" "tx_items (sent_orders env input b ids sent t) = tx_items t"
  "tx_batch_seq (sent_orders env input b ids sent t) = tx_batch_seq t" "tx_item_seq (sent_orders env input b ids sent t) = tx_item_seq t"
  "orders_of (sent_orders env input b ids sent t)
   = update_where (\<lambda>x. (ord_id x \<in> set ids \<and> ord_current_batch_id x = Some (tb_id b)) \<and> \<not> ord_deleted x) (sent_order env b sent) (orders_of t)"
  unfolding sent_orders_def Let_def rows_kept rows_set by (rule refl)+

lemma sent_order_kept: "ord_id (sent_order env b sent x) = ord_id x" "ord_deleted (sent_order env b sent x) = ord_deleted x"
  "ord_current_batch_id (sent_order env b sent x) = Some sent"
  by simp_all

lemma send_same_binding:
  "same_binding os (update_where (\<lambda>x. (P x \<and> ord_current_batch_id x = Some (tb_id b)) \<and> \<not> ord_deleted x) (sent_order env b (tb_id b)) os)" (is "same_binding os ?os")
  unfolding same_binding_def
proof (intro conjI ballI impI)
  show "map ord_id ?os = map ord_id os" by (rule orders_distinct) simp
  fix y
  assume y: "y \<in> set ?os" and live: "\<not> ord_deleted y"
  obtain x where x: "x \<in> set os" "ord_id x = ord_id y" "ord_deleted x = ord_deleted y"
    "y = (if (P x \<and> ord_current_batch_id x = Some (tb_id b)) \<and> \<not> ord_deleted x then sent_order env b (tb_id b) x else x)"
    by (rule update_order_row [OF y sent_order_kept(1,2)])
  have "ord_current_batch_id x = ord_current_batch_id y" using x(4) by (cases "(P x \<and> ord_current_batch_id x = Some (tb_id b)) \<and> \<not> ord_deleted x") simp_all
  then show "\<exists>x\<in>set os. \<not> ord_deleted x \<and> ord_id x = ord_id y \<and> ord_current_batch_id x = ord_current_batch_id y"
    using x(1-3) live by (intro bexI [of _ x] conjI) simp_all
qed

text \<open>The whole batch leaves.\<close>

lemma send_all_inv:
  assumes inv: "transfer_inv t" and b: "b \<in> set (tx_batches t)" "active b" and M: "set ms \<subseteq> set (in_batch (tb_id b) (tx_items t))"
    and all: "\<And>x. x \<in> set (in_batch (tb_id b) (tx_items t)) \<Longrightarrow> x \<in> set ms"
    and t': "tx_batches t' = update_where (\<lambda>c. tb_id c = tb_id b) (depart env input) (tx_batches t)" "tx_batch_seq t' = tx_batch_seq t"
      "tx_items t' = map (mark_sent n (set ms)) (tx_items t)" "tx_item_seq t' = tx_item_seq t" "same_binding (orders_of t) (orders_of t')"
  shows "transfer_inv t'"
proof -
  note V = transfer_invD [OF inv]
  have id: "tb_id (depart env input c) = tb_id c" for c by (simp add: depart_def)
  have bids: "tb_id ` set (tx_batches t') = tb_id ` set (tx_batches t)" unfolding t' by (rule batch_ids [OF id])
  have 1: "tbt.wf (tx_batch_seq t') (tx_batches t')" unfolding t' by (rule tbt.wf_update_where [OF id V(1)])
  have 2: "tit.wf (tx_item_seq t') (tx_items t')" unfolding t' by (rule items_same_ids [OF V(2)]) (simp only: map_map comp_def mark_kept)
  have 3: "distinct (map (\<lambda>x. (ti_batch_id x, ti_order_id x)) (tx_items t'))" using V(4) unfolding t' map_map comp_def mark_kept .
  have 4: "\<forall>x\<in>set (tx_items t'). ti_batch_id x \<in> tb_id ` set (tx_batches t')" using V(5) unfolding bids t'(3) set_map ball_simps mark_kept by blast
  have "books (tx_batches t') (tx_items t') (orders_of t')" unfolding books_def
  proof (intro ballI impI)
    fix c
    assume "c \<in> set (tx_batches t')" and c: "active c"
    then obtain c0 where c0: "c0 \<in> set (tx_batches t)" "c = (if tb_id c0 = tb_id b then depart env input c0 else c0)"
      unfolding t' update_where_def set_map by (elim imageE)
    have a0: "active c0"
    proof (cases "tb_id c0 = tb_id b")
      case True
      then show ?thesis using tbt.mem_unique [OF V(1) c0(1) b(1)] b(2) by simp
    qed (use c c0(2) in simp)
    have k: "tallied c0 (tx_items t)" "bound (tb_id c0) (tx_items t) (orders_of t)" using V(6) c0(1) a0 unfolding books_def by blast+
    have idc: "tb_id c = tb_id c0" using c0(2) id by simp
    have "tallied c (tx_items t')"
    proof (cases "tb_id c0 = tb_id b")
      case True
      then have "c0 = b" by (rule tbt.mem_unique [OF V(1) c0(1) b(1)])
      then show ?thesis using tallied_depart [OF k(1)] all c0(2) unfolding t'(3) by simp
    next
      case False
      then have "in_batch (tb_id c) (tx_items t') = in_batch (tb_id c) (tx_items t)"
        using in_batch_mark_other [OF M, of "tb_id c"] c0(2) unfolding t'(3) by simp
      from tallied_cong [OF this] show ?thesis using k(1) c0(2) False by simp
    qed
    then show "tallied c (tx_items t') \<and> bound (tb_id c) (tx_items t') (orders_of t')"
      unfolding t'(3) bound_mark idc using bound_same [OF k(2) t'(5)] by blast
  qed
  with 1 2 3 4 show ?thesis using V(3) t'(5) unfolding transfer_inv_def same_binding_def by simp
qed

text \<open>A part of the batch leaves: its items are marked and moved.\<close>

abbreviation move_sent :: "time \<Rightarrow> ident \<Rightarrow> batch_item set \<Rightarrow> batch_item \<Rightarrow> batch_item" where
  "move_sent n i M x \<equiv> (if x \<in> M then x\<lparr>ti_sent_at := Some n, ti_batch_id := i\<rparr> else x)"

lemma same_pair:
  assumes "distinct (map (\<lambda>x. (ti_batch_id x, ti_order_id x)) xs)" and "x \<in> set xs" "y \<in> set xs" "ti_batch_id x = ti_batch_id y" "ti_order_id x = ti_order_id y"
  shows "x = y"
  using assms by (simp add: distinct_map inj_on_def)

lemma move_items:
  assumes u: "distinct (map (\<lambda>x. (ti_batch_id x, ti_order_id x)) xs)" and M: "M \<subseteq> set (in_batch j xs)"
  shows "update_where (\<lambda>x. ti_batch_id x = j \<and> ti_order_id x \<in> ti_order_id ` M \<and> \<not> ti_deleted x) (\<lambda>x. x\<lparr>ti_batch_id := i\<rparr>) (map (mark_sent n M) xs)
    = map (move_sent n i M) xs"
  unfolding update_where_def map_map comp_def
proof (rule map_cong [OF refl])
  fix x
  assume x: "x \<in> set xs"
  have "ti_batch_id x = j \<and> ti_order_id x \<in> ti_order_id ` M \<and> \<not> ti_deleted x \<longleftrightarrow> x \<in> M"
  proof
    assume l: "ti_batch_id x = j \<and> ti_order_id x \<in> ti_order_id ` M \<and> \<not> ti_deleted x"
    then obtain m where m: "m \<in> M" "ti_order_id x = ti_order_id m" by (elim conjE imageE)
    then have "m \<in> set xs" "ti_batch_id m = j" using M by auto
    then show "x \<in> M" using same_pair [OF u x \<open>m \<in> set xs\<close>] l m by simp
  next
    assume "x \<in> M"
    then show "ti_batch_id x = j \<and> ti_order_id x \<in> ti_order_id ` M \<and> \<not> ti_deleted x" using M by auto
  qed
  then show "(if ti_batch_id (mark_sent n M x) = j \<and> ti_order_id (mark_sent n M x) \<in> ti_order_id ` M \<and> \<not> ti_deleted (mark_sent n M x)
      then (mark_sent n M x)\<lparr>ti_batch_id := i\<rparr> else mark_sent n M x) = move_sent n i M x"
    unfolding mark_kept by simp
qed

lemma in_batch_move:
  assumes "M \<subseteq> set (in_batch j xs)" and "i \<noteq> j" and "\<And>x. x \<in> set xs \<Longrightarrow> ti_batch_id x \<noteq> i"
  shows "in_batch j (map (move_sent n i M) xs) = filter (\<lambda>x. x \<notin> M) (in_batch j xs)"
    and "in_batch i (map (move_sent n i M) xs) = map (\<lambda>x. x\<lparr>ti_sent_at := Some n, ti_batch_id := i\<rparr>) (filter (\<lambda>x. x \<in> M) (in_batch j xs))"
    and "k \<noteq> i \<Longrightarrow> k \<noteq> j \<Longrightarrow> in_batch k (map (move_sent n i M) xs) = in_batch k xs"
proof -
  have M: "\<forall>x\<in>M. ti_batch_id x = j \<and> \<not> ti_deleted x" using assms(1) by auto
  show "in_batch j (map (move_sent n i M) xs) = filter (\<lambda>x. x \<notin> M) (in_batch j xs)" using assms(2) by (induction xs) auto
  show "in_batch i (map (move_sent n i M) xs) = map (\<lambda>x. x\<lparr>ti_sent_at := Some n, ti_batch_id := i\<rparr>) (filter (\<lambda>x. x \<in> M) (in_batch j xs))"
    using assms(3) M by (induction xs) auto
  show "k \<noteq> i \<Longrightarrow> k \<noteq> j \<Longrightarrow> in_batch k (map (move_sent n i M) xs) = in_batch k xs" using M by (induction xs) auto
qed

lemma unsent_rest:
  assumes "\<And>x. x \<in> set (in_batch j xs) \<Longrightarrow> ti_sent_at x = None"
  shows "filter (\<lambda>x. ti_sent_at x = None) (in_batch j (map (mark_sent n M) xs)) = filter (\<lambda>x. x \<notin> M) (in_batch j xs)"
  unfolding in_batch_mark using assms by (induction xs) auto

lemma part_of:
  assumes "distinct (map ti_id xs)" and "distinct ms" and "set ms \<subseteq> set (in_batch j xs)"
  shows "mset (filter (\<lambda>x. x \<in> set ms) (in_batch j xs)) = mset ms"
proof -
  have "distinct (filter (\<lambda>x. x \<in> set ms) (in_batch j xs))" using assms(1) by (simp add: distinct_map)
  moreover have "set (filter (\<lambda>x. x \<in> set ms) (in_batch j xs)) = set ms" using assms(3) by auto
  ultimately show ?thesis using assms(2) by (metis set_eq_iff_mset_eq_distinct)
qed

lemma item_sum_mset: "mset xs = mset ys \<Longrightarrow> item_sum xs = item_sum ys \<and> length xs = length ys"
  unfolding item_sum_def by (metis mset_map sum_mset_sum_list size_mset)

text \<open>The bindings after a part has moved.\<close>

lemma bound_split:
  assumes k: "bound j xs os" and u: "distinct (map (\<lambda>x. (ti_batch_id x, ti_order_id x)) xs)" and M: "M \<subseteq> set (in_batch j xs)"
    and i: "i \<noteq> j" "\<And>x. x \<in> set xs \<Longrightarrow> ti_batch_id x \<noteq> i"
    and g: "\<And>x. ord_id (g x) = ord_id x" "\<And>x. ord_deleted (g x) = ord_deleted x" "\<And>x. ord_current_batch_id (g x) = Some i"
    and os': "os' = update_where (\<lambda>x. (ord_id x \<in> ti_order_id ` M \<and> ord_current_batch_id x = Some j) \<and> \<not> ord_deleted x) g os"
  shows "bound j (map (move_sent n i M) xs) os'" and "bound i (map (move_sent n i M) xs) os'"
proof -
  have row: "\<exists>z\<in>set os. ord_id z = ord_id y \<and> \<not> ord_deleted z \<and> y = (if ord_id z \<in> ti_order_id ` M \<and> ord_current_batch_id z = Some j then g z else z)"
    if yy: "y \<in> set os'" "\<not> ord_deleted y" for y
  proof -
    obtain z where z: "z \<in> set os" "ord_id z = ord_id y" "ord_deleted z = ord_deleted y"
      "y = (if (ord_id z \<in> ti_order_id ` M \<and> ord_current_batch_id z = Some j) \<and> \<not> ord_deleted z then g z else z)"
      by (rule update_order_row [OF yy(1) [unfolded os'] g(1,2)])
    have live: "\<not> ord_deleted z" using z(3) yy(2) by simp
    then have "y = (if ord_id z \<in> ti_order_id ` M \<and> ord_current_batch_id z = Some j then g z else z)" using z(4) by (simp only: not_False_eq_True simp_thms)
    with z(1,2) live show ?thesis by (intro bexI [of _ z] conjI)
  qed
  have E1: "in_batch j (map (move_sent n i M) xs) = filter (\<lambda>x. x \<notin> M) (in_batch j xs)" by (rule in_batch_move(1) [OF M i])
  show "bound j (map (move_sent n i M) xs) os'" unfolding bound_def E1
  proof (intro ballI impI, elim conjE)
    fix x y
    assume x: "x \<in> set (filter (\<lambda>x. x \<notin> M) (in_batch j xs))" and y: "y \<in> set os'" "ord_id y = ti_order_id x" "\<not> ord_deleted y"
    have xj: "x \<in> set (in_batch j xs)" "x \<notin> M" using x by simp_all
    have "ti_order_id x \<notin> ti_order_id ` M"
    proof
      assume "ti_order_id x \<in> ti_order_id ` M"
      then obtain m where m: "m \<in> M" "ti_order_id x = ti_order_id m" by (elim imageE)
      then have "m \<in> set xs" "ti_batch_id m = j" using M by auto
      then have "x = m" using same_pair [OF u, of x m] m(2) xj(1) by simp
      then show False using xj(2) m(1) by simp
    qed
    then obtain z where "z \<in> set os" "ord_id z = ord_id y" "\<not> ord_deleted z" "y = z" using row [OF y(1,3)] y(2) by (metis (full_types))
    then show "ord_current_batch_id y = Some j" using k xj(1) y(2) unfolding bound_def by blast
  qed
  have E2: "in_batch i (map (move_sent n i M) xs) = map (\<lambda>x. x\<lparr>ti_sent_at := Some n, ti_batch_id := i\<rparr>) (filter (\<lambda>x. x \<in> M) (in_batch j xs))" by (rule in_batch_move(2) [OF M i])
  show "bound i (map (move_sent n i M) xs) os'" unfolding bound_def E2
  proof (intro ballI impI, elim conjE)
    fix x y
    assume x: "x \<in> set (map (\<lambda>x. x\<lparr>ti_sent_at := Some n, ti_batch_id := i\<rparr>) (filter (\<lambda>x. x \<in> M) (in_batch j xs)))"
      and y: "y \<in> set os'" "ord_id y = ti_order_id x" "\<not> ord_deleted y"
    then obtain m where m: "m \<in> M" "m \<in> set (in_batch j xs)" "ti_order_id x = ti_order_id m" by auto
    obtain z where z: "z \<in> set os" "ord_id z = ord_id y" "\<not> ord_deleted z"
      "y = (if ord_id z \<in> ti_order_id ` M \<and> ord_current_batch_id z = Some j then g z else z)" using row [OF y(1,3)] by meson
    have "ord_current_batch_id z = Some j" using k m z(1-3) y(2) unfolding bound_def by metis
    moreover have "ord_id z \<in> ti_order_id ` M" using m z(2) y(2) by simp
    ultimately show "ord_current_batch_id y = Some i" using z(4) g(3) by simp
  qed
qed

lemma tallied_split:
  assumes d: "distinct (map ti_id xs)" "distinct ms" and M: "set ms \<subseteq> set (in_batch j xs)"
    and i: "i \<noteq> j" "\<And>x. x \<in> set xs \<Longrightarrow> ti_batch_id x \<noteq> i" and un: "\<And>x. x \<in> set (in_batch j xs) \<Longrightarrow> ti_sent_at x = None"
  shows "tb_id c = i \<Longrightarrow> tb_status c = TB_SENT \<Longrightarrow> tb_order_count c = int (length ms) \<Longrightarrow> tb_total_price c = item_sum ms
      \<Longrightarrow> tallied c (map (move_sent n i (set ms)) xs)"
    and "tb_id c = j \<Longrightarrow> tb_status c = TB_PENDING \<Longrightarrow> r = filter (\<lambda>x. x \<notin> set ms) (in_batch j xs) \<Longrightarrow> tb_order_count c = int (length r)
      \<Longrightarrow> tb_total_price c = item_sum r \<Longrightarrow> tallied c (map (move_sent n i (set ms)) xs)"
proof -
  note P = item_sum_mset [OF part_of [OF d M]]
  assume c: "tb_id c = i" "tb_status c = TB_SENT" "tb_order_count c = int (length ms)" "tb_total_price c = item_sum ms"
  have "item_sum (map (\<lambda>x. x\<lparr>ti_sent_at := Some n, ti_batch_id := i\<rparr>) ys) = item_sum ys" for ys by (simp add: item_sum_def comp_def)
  moreover have E: "in_batch i (map (move_sent n i (set ms)) xs)
      = map (\<lambda>x. x\<lparr>ti_sent_at := Some n, ti_batch_id := i\<rparr>) (filter (\<lambda>x. x \<in> set ms) (in_batch j xs))" by (rule in_batch_move(2) [OF M i])
  moreover have "ti_sent_at x \<noteq> None" if "x \<in> set (map (\<lambda>x. x\<lparr>ti_sent_at := Some n, ti_batch_id := i\<rparr>) ys)" for x ys using that by auto
  ultimately show "tallied c (map (move_sent n i (set ms)) xs)" unfolding tallied_def c(1) E length_map c(2-4) using P by simp
next
  assume c: "tb_id c = j" "tb_status c = TB_PENDING" "tb_order_count c = int (length r)" "tb_total_price c = item_sum r"
    "r = filter (\<lambda>x. x \<notin> set ms) (in_batch j xs)"
  have "ti_sent_at x = None" if "x \<in> set r" for x using that un unfolding c(5) by simp
  moreover have E: "in_batch j (map (move_sent n i (set ms)) xs) = r" unfolding c(5) by (rule in_batch_move(1) [OF M i])
  ultimately show "tallied c (map (move_sent n i (set ms)) xs)" unfolding tallied_def c(1) E c(2-4) by simp
qed

lemma split_inv:
  assumes inv: "transfer_inv t" and b: "b \<in> set (tx_batches t)" "active b" and d: "distinct ms" and M: "set ms \<subseteq> set (in_batch (tb_id b) (tx_items t))"
    and un: "\<And>x. x \<in> set (in_batch (tb_id b) (tx_items t)) \<Longrightarrow> ti_sent_at x = None"
    and i: "i = string_of_nat (tx_batch_seq t)" and new: "tb_id s = i" "tb_status s = TB_SENT" "tb_order_count s = int (length ms)" "tb_total_price s = item_sum ms"
    and f: "\<And>c. tb_id (f c) = tb_id c" "\<And>c. tb_status (f c) = TB_PENDING" "\<And>c. tb_order_count (f c) = int (length r)" "\<And>c. tb_total_price (f c) = item_sum r"
      "r = filter (\<lambda>x. x \<notin> set ms) (in_batch (tb_id b) (tx_items t))"
    and t': "tx_batches t' = update_where (\<lambda>c. tb_id c = tb_id b) f (tx_batches t @ [s])" "tx_batch_seq t' = Suc (tx_batch_seq t)"
      "tx_items t' = map (move_sent n i (set ms)) (tx_items t)" "tx_item_seq t' = tx_item_seq t"
    and os: "orders_of t' = update_where (\<lambda>x. (ord_id x \<in> ti_order_id ` set ms \<and> ord_current_batch_id x = Some (tb_id b)) \<and> \<not> ord_deleted x) g (orders_of t)"
    and g: "\<And>x. ord_id (g x) = ord_id x" "\<And>x. ord_deleted (g x) = ord_deleted x" "\<And>x. ord_current_batch_id (g x) = Some i"
  shows "transfer_inv t'"
proof -
  note V = transfer_invD [OF inv]
  have Mb: "ti_batch_id x = tb_id b" if "x \<in> set ms" for x using M that by auto
  have ij: "i \<noteq> tb_id b" using tbt.fresh [OF V(1) b(1)] i by metis
  have fresh: "ti_batch_id x \<noteq> i" if "x \<in> set (tx_items t)" for x using V(5) [OF that] tbt.fresh [OF V(1)] i by (metis imageE)
  have wf: "tbt.wf (Suc (tx_batch_seq t)) (tx_batches t @ [s])" by (rule tbt.wf_insert [OF V(1)]) (simp add: new i)
  have 1: "tbt.wf (tx_batch_seq t') (tx_batches t')" unfolding t' by (rule tbt.wf_update_where [OF f(1) wf])
  have "ti_id (move_sent n i (set ms) x) = ti_id x" "ti_order_id (move_sent n i (set ms) x) = ti_order_id x" for x by simp_all
  then have 2: "tit.wf (tx_item_seq t') (tx_items t')" unfolding t' by (intro items_same_ids [OF V(2)]) (simp only: map_map comp_def)
  have bids: "tb_id ` set (tx_batches t') = insert i (tb_id ` set (tx_batches t))" unfolding t'(1) using batch_ids [OF f(1)] new(1) by simp
  have 3: "\<forall>x\<in>set (tx_items t'). ti_batch_id x \<in> tb_id ` set (tx_batches t')" unfolding bids t'(3) using V(5) by auto
  have 4: "distinct (map (\<lambda>x. (ti_batch_id x, ti_order_id x)) (tx_items t'))"
  proof -
    have "x = y" if "x \<in> set (tx_items t)" "y \<in> set (tx_items t)"
      "ti_batch_id (move_sent n i (set ms) x) = ti_batch_id (move_sent n i (set ms) y)" "ti_order_id (move_sent n i (set ms) x) = ti_order_id (move_sent n i (set ms) y)" for x y
    proof -
      have "x \<in> set ms \<longleftrightarrow> y \<in> set ms" using that(3) fresh [OF that(1)] fresh [OF that(2)] by (auto split: if_splits)
      then have "ti_batch_id x = ti_batch_id y" "ti_order_id x = ti_order_id y" using that(3,4) Mb by (auto split: if_splits)
      then show ?thesis by (rule same_pair [OF V(4) that(1,2)])
    qed
    moreover have "distinct (tx_items t)" using V(2) unfolding tit.wf_def by (simp add: distinct_map)
    ultimately show ?thesis unfolding t'(3) by (simp add: distinct_map inj_on_def comp_def)
  qed
  have 5: "distinct (map ord_id (orders_of t'))" unfolding os orders_distinct [OF g(1)] by (rule V(3))
  have kb: "tallied b (tx_items t)" "bound (tb_id b) (tx_items t) (orders_of t)" using V(6) b unfolding books_def by blast+
  have touched: "touched_only (tb_id b) (tx_items t) (orders_of t) (orders_of t')" unfolding os
    by (rule touched_update [OF touched_refl g(1,2)]) simp
  note bounds' = bound_split [OF kb(2) V(4) M ij fresh g os]
  have d1: "distinct (map ti_id (tx_items t))" using V(2) unfolding tit.wf_def by blast
  note tallies' = tallied_split [OF d1 d M ij fresh un]
  have "books (tx_batches t') (tx_items t') (orders_of t')" unfolding books_def
  proof (intro ballI impI)
    fix c
    assume "c \<in> set (tx_batches t')" and c: "active c"
    then obtain c0 where c0: "c0 \<in> set (tx_batches t @ [s])" "c = (if tb_id c0 = tb_id b then f c0 else c0)"
      unfolding t'(1) update_where_def set_map by (elim imageE)
    consider "tb_id c = tb_id b" "c = f c0" | "c = s" "tb_id c = i" | "c \<in> set (tx_batches t)" "tb_id c \<noteq> tb_id b" "tb_id c \<noteq> i"
      using c0 f(1) new(1) ij i tbt.fresh [OF V(1)] by (cases "tb_id c0 = tb_id b") auto
    then show "tallied c (tx_items t') \<and> bound (tb_id c) (tx_items t') (orders_of t')"
    proof cases
      case 1
      then show ?thesis unfolding t'(3) using bounds'(1) tallies'(2) [of c r] f by simp
    next
      case 2
      then show ?thesis unfolding t'(3) using bounds'(2) tallies'(1) [of c] new by simp
    next
      case 3
      have eq: "in_batch (tb_id c) (tx_items t') = in_batch (tb_id c) (tx_items t)" unfolding t'(3) by (rule in_batch_move(3) [OF M ij fresh 3(3,2)])
      have "tallied c (tx_items t)" using V(6) 3(1) c unfolding books_def by blast
      then show ?thesis using tallied_cong [OF eq] bound_cong [OF eq] bound_elsewhere [OF V(6) b 3(1) c 3(2) touched] by blast
    qed
  qed
  with 1 2 3 4 5 show ?thesis unfolding transfer_inv_def by blast
qed

lemma split_batch_Inr:
  assumes "split_batch env input b ms t = Inr (t2, i)"
  obtains token t1 where "insert_batch (leaving_batch env input b ms token) t = Inr (t1, i)"
    and "t2 = set_batch (tb_id b) (stay_behind (filter (\<lambda>x. ti_sent_at x = None) (batch_items (tb_id b) t)))
      (set_items (\<lambda>x. ti_batch_id x = tb_id b \<and> ti_order_id x \<in> ti_order_id ` set ms \<and> \<not> ti_deleted x) (\<lambda>x. x\<lparr>ti_batch_id := i\<rparr>) t1)"
proof (cases "generateTransferQrToken env 0 (tb_direction b) (tx_batches t)")
  case q: (Inr token)
  show thesis
  proof (cases "insert_batch (leaving_batch env input b ms token) t")
    case ins: (Inr p)
    obtain t1 j where p: "p = (t1, j)" by (rule prod.exhaust)
    have e: "set_batch (tb_id b) (stay_behind (filter (\<lambda>x. ti_sent_at x = None) (batch_items (tb_id b) t)))
      (set_items (\<lambda>x. ti_batch_id x = tb_id b \<and> ti_order_id x \<in> ti_order_id ` set ms \<and> \<not> ti_deleted x) (\<lambda>x. x\<lparr>ti_batch_id := j\<rparr>) t1) = t2 \<and> j = i"
      using assms unfolding split_batch_def q rbind.simps ins p prod.case Let_def sum.inject prod.inject .
    note j = conjunct2 [OF e]
    show thesis by (rule that [OF ins [unfolded p j] conjunct1 [OF e, unfolded j, symmetric]])
  qed (use assms q in \<open>simp add: split_batch_def\<close>)
qed (use assms in \<open>simp add: split_batch_def\<close>)

lemma leaving_kept:
  "tb_status (leaving_batch env input b ms token) = TB_SENT" "tb_order_count (leaving_batch env input b ms token) = int (length ms)"
  "tb_total_price (leaving_batch env input b ms token) = item_sum ms"
  "tb_id (stay_behind r c) = tb_id c" "tb_status (stay_behind r c) = TB_PENDING" "tb_order_count (stay_behind r c) = int (length r)"
  "tb_total_price (stay_behind r c) = item_sum r"
  by (simp_all add: leaving_batch_def stay_behind_def depart_def new_batch_def)

lemma split_send_inv:
  assumes inv: "transfer_inv t" and b: "b \<in> set (tx_batches t)" "active b" and d: "distinct ms"
    and M: "\<And>x. x \<in> set ms \<Longrightarrow> x \<in> set (in_batch (tb_id b) (tx_items t)) \<and> ti_sent_at x = None"
    and un: "\<And>x. x \<in> set (in_batch (tb_id b) (tx_items t)) \<Longrightarrow> ti_sent_at x = None"
    and t1: "t1 = set_items (\<lambda>x. ti_id x \<in> ti_id ` set ms) (\<lambda>x. x\<lparr>ti_sent_at := Some (te_now env)\<rparr>) t"
    and s: "split_batch env input b ms t1 = Inr (t2, i)"
  shows "transfer_inv (sent_orders env input b (map ti_order_id ms) i t2)"
proof -
  note V = transfer_invD [OF inv]
  define r where "r = filter (\<lambda>x. x \<notin> set ms) (in_batch (tb_id b) (tx_items t))"
  have Mb: "set ms \<subseteq> set (in_batch (tb_id b) (tx_items t))" by (intro subsetI) (rule conjunct1 [OF M])
  then have Ms: "set ms \<subseteq> set (tx_items t)" by (rule subset_trans) simp
  have items: "tx_items t1 = map (mark_sent (te_now env) (set ms)) (tx_items t)" unfolding t1 rows_set by (rule mark_items [OF V(2) Ms])
  have rest: "filter (\<lambda>x. ti_sent_at x = None) (batch_items (tb_id b) t1) = r" unfolding batch_items_def items r_def by (rule unsent_rest [OF un])
  obtain token t3 where ins: "insert_batch (leaving_batch env input b ms token) t1 = Inr (t3, i)"
    and t2: "t2 = set_batch (tb_id b) (stay_behind r)
      (set_items (\<lambda>x. ti_batch_id x = tb_id b \<and> ti_order_id x \<in> ti_order_id ` set ms \<and> \<not> ti_deleted x) (\<lambda>x. x\<lparr>ti_batch_id := i\<rparr>) t3)"
    by (rule split_batch_Inr [OF s, unfolded rest])
  note I = insert_batch_Inr [OF ins]
  have T: "tx_batches t1 = tx_batches t" "tx_batch_seq t1 = tx_batch_seq t" "tx_item_seq t1 = tx_item_seq t" "orders_of t1 = orders_of t"
    unfolding t1 rows_set by (rule refl)+
  show ?thesis
  proof (rule split_inv [OF inv b d Mb un])
    show "i = string_of_nat (tx_batch_seq t)" using I(1) unfolding T .
    show "tx_items (sent_orders env input b (map ti_order_id ms) i t2) = map (move_sent (te_now env) i (set ms)) (tx_items t)"
      unfolding sent_orders_tables t2 rows_set I(4) items by (rule move_items [OF V(4) Mb])
    show "tx_batches (sent_orders env input b (map ti_order_id ms) i t2)
      = update_where (\<lambda>c. tb_id c = tb_id b) (stay_behind r) (tx_batches t @ [leaving_batch env input b ms token\<lparr>tb_id := i\<rparr>])"
      unfolding sent_orders_tables t2 rows_set I(2) T ..
    show "orders_of (sent_orders env input b (map ti_order_id ms) i t2)
      = update_where (\<lambda>x. (ord_id x \<in> ti_order_id ` set ms \<and> ord_current_batch_id x = Some (tb_id b)) \<and> \<not> ord_deleted x) (sent_order env b i) (orders_of t)"
      unfolding sent_orders_tables t2 rows_set I(6) T set_map ..
    show "r = filter (\<lambda>x. x \<notin> set ms) (in_batch (tb_id b) (tx_items t))" by (rule r_def)
  qed (simp_all add: sent_orders_tables t2 I T leaving_kept)
qed

lemma send_inv:
  assumes inv: "transfer_inv t" and s: "sendBranchTransferBatch env input t = (Inr sent, t')"
  shows "transfer_inv t'"
proof -
  note V = transfer_invD [OF inv]
  obtain b ms where c: "send_check input t = Inr (b, ms)" using s unfolding sendBranchTransferBatch_def by (auto split: sum.splits)
  note C = send_check_Inr [OF c]
  define t1 where "t1 = set_items (\<lambda>x. ti_id x \<in> ti_id ` set ms) (\<lambda>x. x\<lparr>ti_sent_at := Some (te_now env)\<rparr>) t"
  have m: "hd ms \<in> set ms" by (rule hd_in_set [OF C(3)])
  have un: "ti_sent_at x = None" if "x \<in> set (in_batch (tb_id b) (tx_items t))" for x
    using send_pending(2) [OF V(6) C(1,2) conjunct1 [OF C(5) [OF m]] conjunct2 [OF C(5) [OF m]] that] .
  have Mb: "set ms \<subseteq> set (in_batch (tb_id b) (tx_items t))" by (intro subsetI) (rule conjunct1 [OF C(5)])
  then have Ms: "set ms \<subseteq> set (tx_items t)" by (rule subset_trans) simp
  have items: "tx_items t1 = map (mark_sent (te_now env) (set ms)) (tx_items t)" unfolding t1_def rows_set by (rule mark_items [OF V(2) Ms])
  show ?thesis
  proof (cases "list_all (\<lambda>x. ti_sent_at x \<noteq> None) (batch_items (tb_id b) t1)")
    case True
    then have "snd (sendBranchTransferBatch env input t) = sent_orders env input b (map ti_order_id ms) (tb_id b) (set_batch (tb_id b) (depart env input) t1)"
      by (simp add: sendBranchTransferBatch_def c t1_def Let_def)
    then have t': "t' = sent_orders env input b (map ti_order_id ms) (tb_id b) (set_batch (tb_id b) (depart env input) t1)" unfolding s by simp
    have all: "x \<in> set ms" if "x \<in> set (in_batch (tb_id b) (tx_items t))" for x
      using bspec [OF True [unfolded batch_items_def items in_batch_mark list_all_iff set_map ball_simps] that] un [OF that] by (simp split: if_splits)
    have T: "tx_batches t1 = tx_batches t" "tx_batch_seq t1 = tx_batch_seq t" "tx_item_seq t1 = tx_item_seq t" "orders_of t1 = orders_of t"
      unfolding t1_def rows_set by (rule refl)+
    show ?thesis
    proof (rule send_all_inv [OF inv C(1,2) Mb all])
      show "same_binding (orders_of t) (orders_of t')" unfolding t' sent_orders_tables rows_set T by (rule send_same_binding)
    qed (simp_all only: t' sent_orders_tables rows_set T items)
  next
    case False
    then obtain t2 where "split_batch env input b ms t1 = Inr (t2, sent)" "t' = sent_orders env input b (map ti_order_id ms) sent t2"
      using s unfolding sendBranchTransferBatch_def c by (auto simp: t1_def Let_def split: sum.splits)
    then show ?thesis using split_send_inv [OF inv C(1,2,4,5) un t1_def] by simp
  qed
qed

end
