(* ===== verification/Transfer_Service.thy ===== *)
theory Transfer_Service
  imports Transfer_Steps Order_Sale
begin

text \<open>
  The states the transfer batches can reach, and the properties of the service: the batches agree
  with their items and orders, a request that needs two new batches always fails, and every request
  moves each batch along its life cycle.
\<close>

section \<open>Commands\<close>

lemma cancel_many_inv:
  assumes inv: "transfer_inv t" and c: "cancelBranchTransferBatches env batch_ids removal requester notes t = Inr t'"
  shows "transfer_inv t'"
proof -
  note V = transfer_invD [OF inv]
  define ids where "ids = id_list batch_ids"
  define bs where "bs = update_where (\<lambda>b. tb_id b \<in> set ids \<and> \<not> tb_deleted b) (\<lambda>b. b\<lparr>tb_status := TB_CANCELLED, tb_cancelled_at := Some (te_now env)\<rparr>) (tx_batches t)"
  define g where "g = (\<lambda>x. x\<lparr>ord_current_batch_id := None, ord_updated_at := te_now env\<rparr> :: order)"
  define os where "os = (if removal then update_where (\<lambda>x. (\<exists>i\<in>set ids. ord_current_batch_id x = Some i) \<and> \<not> ord_deleted x) g (orders_of t) else orders_of t)"
  have T: "tx_batches t' = bs" "orders_of t' = os" "tx_items t' = tx_items t" "tx_batch_seq t' = tx_batch_seq t" "tx_item_seq t' = tx_item_seq t"
    using c unfolding cancelBranchTransferBatches_def Let_def rbind_Inr require_Inr ids_def [symmetric]
    by (auto simp: bs_def os_def g_def set_orders_def simp del: bex_simps)
  have g: "ord_id (g x) = ord_id x" "ord_deleted (g x) = ord_deleted x" for x by (simp_all add: g_def)
  have closed: "tb_id b \<notin> set ids" if "b \<in> set bs" "active b" for b
    using that unfolding bs_def update_where_def set_map by (elim imageE) (simp add: active_def split: if_splits)
  have k: "books bs (tx_items t) (orders_of t)" unfolding bs_def by (rule books_batches [OF V(6)]) (simp_all add: active_def)
  have k': "books bs (tx_items t) os"
  proof (cases removal)
    case True
    show ?thesis unfolding os_def if_P [OF True] by (rule books_orders [OF k g]) (use closed in auto)
  qed (simp add: os_def k)
  have ids: "map ord_id os = map ord_id (orders_of t)" unfolding os_def using orders_distinct [OF g(1)] by simp
  have bids: "tb_id ` set bs = tb_id ` set (tx_batches t)" unfolding bs_def by (rule batch_ids) simp
  have "tbt.wf (tx_batch_seq t) bs" unfolding bs_def by (rule tbt.wf_update_where [OF _ V(1)]) simp
  then show ?thesis unfolding transfer_inv_def T ids bids using V k' by blast
qed

lemma orders_only_inv:
  assumes inv: "transfer_inv t" and T: "tx_batches t' = tx_batches t" "tx_items t' = tx_items t" "tx_batch_seq t' = tx_batch_seq t" "tx_item_seq t' = tx_item_seq t"
    and os: "map ord_id (orders_of t') = map ord_id (orders_of t)" and k: "books (tx_batches t) (tx_items t) (orders_of t')"
  shows "transfer_inv t'"
  using transfer_invD [OF inv] k unfolding transfer_inv_def T os by blast

lemma bulk_assign_inv:
  assumes inv: "transfer_inv t" and c: "bulkAssignBatch env batch_id order_ids message_id t = Inr t'"
  shows "transfer_inv t'"
proof (cases "t' = t")
  case False
  define free where "free = (\<lambda>x :: order. ord_id x \<in> set (id_list order_ids) \<and> ord_current_batch_id x = None)"
  define g where "g = (\<lambda>x. x\<lparr>ord_current_batch_id := Some (trim (str_or_empty batch_id)), ord_updated_at := te_now env\<rparr> :: order)"
  have T: "tx_batches t' = tx_batches t" "tx_items t' = tx_items t" "tx_batch_seq t' = tx_batch_seq t" "tx_item_seq t' = tx_item_seq t"
    "orders_of t' = update_where (\<lambda>x. free x \<and> \<not> ord_deleted x) g (orders_of t)"
    using c False unfolding bulkAssignBatch_def Let_def by (auto simp: result_simps free_def g_def set_orders_def simp del: rbind.simps split: if_splits)
  have g: "ord_id (g x) = ord_id x" "ord_deleted (g x) = ord_deleted x" for x by (simp_all add: g_def)
  show ?thesis
  proof (rule orders_only_inv [OF inv T(1-4)])
    show "books (tx_batches t) (tx_items t) (orders_of t')" unfolding T
      by (rule books_orders [OF transfer_invD(6) [OF inv] g]) (simp add: free_def)
  qed (simp only: T orders_distinct [OF g(1)])
qed (use inv in simp)

text \<open>Orders may be taken out of a batch that is no longer open.\<close>

lemma bulk_remove_inv:
  assumes inv: "transfer_inv t" and c: "bulkRemoveFromBatch env batch_id message_id t = Inr t'"
    and closed: "\<forall>b\<in>set (tx_batches t). tb_id b = trim (str_or_empty batch_id) \<longrightarrow> \<not> active b"
  shows "transfer_inv t'"
proof (cases "t' = t")
  case False
  define inside where "inside = (\<lambda>x :: order. ord_current_batch_id x = Some (trim (str_or_empty batch_id)))"
  define g where "g = (\<lambda>x. x\<lparr>ord_current_batch_id := None, ord_updated_at := te_now env\<rparr> :: order)"
  have T: "tx_batches t' = tx_batches t" "tx_items t' = tx_items t" "tx_batch_seq t' = tx_batch_seq t" "tx_item_seq t' = tx_item_seq t"
    "orders_of t' = update_where (\<lambda>x. inside x \<and> \<not> ord_deleted x) g (orders_of t)"
    using c False unfolding bulkRemoveFromBatch_def Let_def by (auto simp: result_simps inside_def g_def set_orders_def simp del: rbind.simps split: if_splits)
  have g: "ord_id (g x) = ord_id x" "ord_deleted (g x) = ord_deleted x" for x by (simp_all add: g_def)
  show ?thesis
  proof (rule orders_only_inv [OF inv T(1-4)])
    show "books (tx_batches t) (tx_items t) (orders_of t')" unfolding T
      by (rule books_orders [OF transfer_invD(6) [OF inv] g]) (use closed in \<open>simp add: inside_def\<close>)
  qed (simp only: T orders_distinct [OF g(1)])
qed (use inv in simp)

lemma history_inv:
  assumes "transfer_inv t" and "addBranchTransferBatchHistory batch_id user action notes t = Inr t'"
  shows "transfer_inv t'"
  using assms(2) by (intro transfer_inv_same [OF assms(1)])
    (auto simp: addBranchTransferBatchHistory_def Let_def result_simps simp del: rbind.simps)

text \<open>Other services change orders, but leave the binding of an order that is in a batch alone.\<close>

definition orders_elsewhere :: "transfer_db \<Rightarrow> order_db \<Rightarrow> bool" where
  "orders_elsewhere t db \<longleftrightarrow> distinct (map ord_id (db_orders db))
     \<and> (\<forall>y\<in>set (db_orders db). \<not> ord_deleted y \<longrightarrow> ord_id y \<in> ti_order_id ` set (tx_items t)
          \<longrightarrow> (\<exists>x\<in>set (orders_of t). \<not> ord_deleted x \<and> ord_id x = ord_id y \<and> ord_current_batch_id x = ord_current_batch_id y))"

lemma orders_elsewhere_inv:
  assumes inv: "transfer_inv t" and e: "orders_elsewhere t db"
  shows "transfer_inv (t\<lparr>tx_orders := db\<rparr>)"
proof -
  note V = transfer_invD [OF inv]
  have "bound i (tx_items t) (db_orders db)" if b: "bound i (tx_items t) (orders_of t)" for i
    unfolding bound_def
  proof (intro ballI impI, elim conjE)
    fix x y
    assume x: "x \<in> set (in_batch i (tx_items t))" and y: "y \<in> set (db_orders db)" "ord_id y = ti_order_id x" "\<not> ord_deleted y"
    have "ord_id y \<in> ti_order_id ` set (tx_items t)" unfolding y(2) using x by (intro imageI) simp
    then obtain z where "z \<in> set (orders_of t)" "\<not> ord_deleted z" "ord_id z = ord_id y" "ord_current_batch_id z = ord_current_batch_id y"
      using e y(1,3) unfolding orders_elsewhere_def by meson
    then show "ord_current_batch_id y = Some i" using b x y(2) unfolding bound_def by metis
  qed
  then have "books (tx_batches t) (tx_items t) (db_orders db)" using V(6) unfolding books_def by blast
  then show ?thesis using V e unfolding transfer_inv_def orders_elsewhere_def by simp
qed

lemma receive_check_Inr:
  assumes "receive_check input order_ids t = Inr (b, selected)"
  shows "b \<in> set (tx_batches t)" "active b" "tb_status b = TB_SENT" "set selected \<subseteq> set (in_batch (tb_id b) (tx_items t))"
proof -
  define i where "i = trim (str_or_empty (vi_batch_id input))"
  have b: "sent_batch ''paketdan'' i t = Inr b" and s: "selected = filter (\<lambda>x. ti_order_id x \<in> set (id_list order_ids)) (batch_items i t)"
    using assms by (auto simp: receive_check_def Let_def result_simps i_def simp del: rbind.simps)
  note B = sent_batch_Inr [OF b]
  show "b \<in> set (tx_batches t)" "active b" "tb_status b = TB_SENT" by (rule B)+
  show "set selected \<subseteq> set (in_batch (tb_id b) (tx_items t))" unfolding s batch_items_def B(2) by auto
qed

lemma rebatch_inv:
  assumes r: "rebatch env b rest requester t = Inr (t', ids)" and inv: "transfer_inv t"
  shows "transfer_inv t'"
proof (cases "rest = []")
  case True
  then show ?thesis using r inv by (simp add: rebatch_def)
next
  case rest: False
  show ?thesis
  proof (cases "tb_direction b = RETURN")
    case True
    show ?thesis by (rule create_return_inv [OF inv r [unfolded rebatch_def if_not_P [OF rest] if_P [OF True]]])
  next
    case False
    show ?thesis by (rule create_transfer_inv [OF inv r [unfolded rebatch_def if_not_P [OF rest] if_not_P [OF False]]])
  qed
qed

lemma receive_orders_inv:
  assumes inv: "transfer_inv t"
  shows "transfer_inv (snd (receiveBranchTransferBatchOrders env input order_ids t))"
proof (cases "receive_check input order_ids t")
  case (Inr p)
  obtain b sel where p: "p = (b, sel)" by (rule prod.exhaust)
  note C = receive_check_Inr [OF Inr [unfolded p]]
  obtain t1 rest where s: "receive_some env input b sel t = (t1, rest)" by (rule prod.exhaust)
  have t1: "transfer_inv t1" using receive_some_inv [OF inv C(1,2,4), of env input] unfolding s by simp
  show ?thesis
  proof (cases "rebatch env b rest (requester_or_zero (vi_requester input)) t1")
    case r: (Inr q)
    obtain t2 ids where q: "q = (t2, ids)" by (rule prod.exhaust)
    have "transfer_inv t2" by (rule rebatch_inv [OF r [unfolded q] t1])
    then show ?thesis unfolding receiveBranchTransferBatchOrders_def Inr p
      by (simp only: sum.case prod.case Let_def snd_conv s r q) (rule transfer_inv_same, assumption, simp)
  qed (simp add: receiveBranchTransferBatchOrders_def Inr p s t1)
qed (simp add: receiveBranchTransferBatchOrders_def inv)

section \<open>The service\<close>

text \<open>
  The requests of the branches, at most one after another. A failed request leaves the tables as they
  were, except that sending may fail after it marked the items (no free QR token): such a run is not a
  step here. A partial receipt is a step whether or not the rest could be put into a new batch.
\<close>

inductive transfer_request :: "transfer_db \<Rightarrow> transfer_db \<Rightarrow> bool" where
  create: "createBranchTransferBatches env ci t = Inr (t', ids) \<Longrightarrow> transfer_request t t'"
| return: "createBranchReturnBatches env ri t = Inr (t', ids) \<Longrightarrow> transfer_request t t'"
| send: "sendBranchTransferBatch env si t = (Inr sent, t') \<Longrightarrow> transfer_request t t'"
| receive: "receiveBranchTransferBatch env vi t = Inr t' \<Longrightarrow> transfer_request t t'"
| receive_orders: "receiveBranchTransferBatchOrders env vi order_ids t = (r, t') \<Longrightarrow> transfer_request t t'"
| cancel: "cancelBranchTransferBatch env vi why t = Inr t' \<Longrightarrow> transfer_request t t'"

text \<open>The commands of the other services, and their changes to orders.\<close>

inductive transfer_command :: "transfer_db \<Rightarrow> transfer_db \<Rightarrow> bool" where
  cancel_many: "cancelBranchTransferBatches env batch_ids removal requester notes t = Inr t' \<Longrightarrow> transfer_command t t'"
| assign: "bulkAssignBatch env batch_id order_ids message_id t = Inr t' \<Longrightarrow> transfer_command t t'"
| remove: "bulkRemoveFromBatch env batch_id message_id t = Inr t'
    \<Longrightarrow> \<forall>b\<in>set (tx_batches t). tb_id b = trim (str_or_empty batch_id) \<longrightarrow> \<not> active b \<Longrightarrow> transfer_command t t'"
| history: "addBranchTransferBatchHistory batch_id user action notes t = Inr t' \<Longrightarrow> transfer_command t t'"
| elsewhere: "orders_elsewhere t db \<Longrightarrow> transfer_command t (t\<lparr>tx_orders := db\<rparr>)"

inductive transfer_reach :: "transfer_db \<Rightarrow> bool" where
  start: "tx_batches t = [] \<Longrightarrow> tx_items t = [] \<Longrightarrow> distinct (map ord_id (orders_of t)) \<Longrightarrow> transfer_reach t"
| request: "transfer_reach t \<Longrightarrow> transfer_request t t' \<Longrightarrow> transfer_reach t'"
| command: "transfer_reach t \<Longrightarrow> transfer_command t t' \<Longrightarrow> transfer_reach t'"

lemma receive_inv:
  assumes "transfer_inv t" and "receiveBranchTransferBatch env vi t = Inr t'"
  shows "transfer_inv t'"
proof -
  from assms(2) obtain b where "sent_batch ''paketni'' (trim (str_or_empty (vi_batch_id vi))) t = Inr b" "t' = receive_all env vi b t"
    by (auto simp: receiveBranchTransferBatch_def Let_def result_simps simp del: rbind.simps)
  then show ?thesis using receive_all_inv [OF assms(1)] sent_batch_Inr(1,4) by blast
qed

lemma cancel_Inr:
  assumes "cancelBranchTransferBatch env vi why t = Inr t'"
  obtains b reason where "b \<in> set (tx_batches t)" "active b" "t' = cancel_open env vi reason b t"
proof -
  define i where "i = trim (str_or_empty (vi_batch_id vi))"
  have "\<exists>b. get_batch i t = Inr b \<and> tb_status b \<noteq> TB_RECEIVED \<and> tb_status b \<noteq> TB_CANCELLED \<and> t' = cancel_open env vi (trim (str_or_empty why)) b t"
    using assms by (auto simp: cancelBranchTransferBatch_def Let_def result_simps i_def simp del: rbind.simps)
  then obtain b where b: "get_batch i t = Inr b" "tb_status b \<noteq> TB_RECEIVED" "tb_status b \<noteq> TB_CANCELLED" "t' = cancel_open env vi (trim (str_or_empty why)) b t"
    by (elim exE conjE)
  note B = get_batch_Inr [OF b(1)]
  have "active b" using B b(2,3) by (cases "tb_status b") (simp_all add: active_def)
  then show thesis using that B b(4) by blast
qed

lemma transfer_request_inv: "transfer_request t t' \<Longrightarrow> transfer_inv t \<Longrightarrow> transfer_inv t'"
proof (induction rule: transfer_request.induct)
  case (receive_orders env vi order_ids t r t')
  then show ?case using receive_orders_inv [of t env vi order_ids] by simp
next
  case (cancel env vi why t t')
  then show ?case by (elim cancel_Inr) (use cancel_open_inv in simp)
qed (blast intro: create_transfer_inv create_return_inv send_inv receive_inv)+

lemma transfer_command_inv: "transfer_command t t' \<Longrightarrow> transfer_inv t \<Longrightarrow> transfer_inv t'"
  by (induction rule: transfer_command.induct) (rule cancel_many_inv bulk_assign_inv bulk_remove_inv history_inv orders_elsewhere_inv; assumption)+

lemma transfer_reach_inv: "transfer_reach t \<Longrightarrow> transfer_inv t"
proof (induction rule: transfer_reach.induct)
  case (start t)
  then show ?case by (simp add: transfer_inv_def tbt.wf_def tit.wf_def books_def)
qed (blast intro: transfer_request_inv transfer_command_inv)+


section \<open>One new batch per request\<close>

lemma insert_batch_clash:
  assumes "x \<in> set (tx_batches t)" and "tb_source_branch_id x = tb_source_branch_id b" "tb_request_key x = tb_request_key b"
  shows "insert_batch b t = Inl db_error"
  using assms by (auto simp: insert_batch_def Let_def list_all_iff)

lemma open_two_fail: "open_batches key source dest d ((r1, k1) # (r2, k2) # rest) t = Inl db_error"
proof (cases "insert_batch (new_batch k1 key source dest d r1 0 0) t")
  case (Inl e)
  then show ?thesis by (auto simp: insert_batch_def Let_def split: if_splits)
next
  case (Inr p)
  obtain t1 i where p: "p = (t1, i)" by (rule prod.exhaust)
  note I = insert_batch_Inr [OF Inr [unfolded p]]
  have "insert_batch (new_batch k2 key source dest d r2 0 0) t1 = Inl db_error"
    by (rule insert_batch_clash [of "new_batch k1 key source dest d r1 0 0\<lparr>tb_id := i\<rparr>"]) (simp_all add: I new_batch_def)
  then show ?thesis by (simp add: Inr p)
qed

lemma draw_tokens_keys: "draw_tokens env n d rs regions = Inr tokens \<Longrightarrow> map fst tokens = regions"
  by (induction regions arbitrary: n tokens) (auto simp: result_simps simp del: rbind.simps)

lemma two_members:
  assumes "x \<in> set xs" "y \<in> set xs" "x \<noteq> y"
  obtains u v zs where "xs = u # v # zs"
  using assms by (cases xs; cases "tl xs") auto

text \<open>
  C31. A request to move orders of two regions, neither of which has a pending batch on this way yet,
  never succeeds: both new batches would carry the request key of the request, and the table does not
  allow it twice for a source branch. When the request is otherwise in order, and the tokens can be
  drawn, the answer is the error of the database.
\<close>

theorem two_new_regions_fail:
  assumes "normalizeTransferDirection (ci_direction input) = Inr d" and "normalizeTransferRequestKey (ci_request_key input) = Inr key"
    and "source = trim (str_or_empty (ci_source input))" "dest = trim (str_or_empty (ci_destination input))" "source \<noteq> []" "dest \<noteq> []"
    and "same_request source key t = []" and "transfer_candidates source (id_list (ci_order_ids input)) t = Inr groups"
    and "{r1, r2} \<subseteq> fst ` set groups" "r1 \<noteq> r2" "{r1, r2} \<inter> fst ` set (pending_of source dest d t) = {}"
    and "length (dedup (map fst (pending_of source dest d t))) + length (filter (\<lambda>r. r \<notin> fst ` set (pending_of source dest d t)) (map fst groups))
          \<le> maxRegionalPendingBatches"
    and "draw_tokens env 0 d (tx_batches t) (filter (\<lambda>r. r \<notin> fst ` set (pending_of source dest d t)) (map fst groups)) = Inr tokens"
  shows "createBranchTransferBatches env input t = Inl db_error"
proof -
  let ?missing = "filter (\<lambda>r. r \<notin> fst ` set (pending_of source dest d t)) (map fst groups)"
  have "r1 \<in> set (map fst tokens)" "r2 \<in> set (map fst tokens)"
    unfolding draw_tokens_keys [OF assms(13)] using assms(9,11) by auto
  then obtain u v zs where "map fst tokens = u # v # zs" using two_members [OF _ _ assms(10)] by metis
  then obtain a b rest where tokens: "tokens = (u, a) # (v, b) # rest" by (auto simp: map_eq_Cons_conv)
  show ?thesis
    unfolding createBranchTransferBatches_def Let_def assms(1,2) assms(3,4) [symmetric] assms(7,8) rbind.simps
    using assms(5,6,12,13) open_two_fail by (simp add: tokens)
qed

section \<open>The life cycle\<close>

text \<open>What a branch sees of the batches: their states.\<close>

type_synonym life = "ident \<rightharpoonup> BranchTransferBatchStatus"

inductive life_step :: "life \<Rightarrow> life \<Rightarrow> bool" where
  opened: "m i = None \<Longrightarrow> life_step m (m(i \<mapsto> TB_PENDING))"
| sent: "m i = Some TB_PENDING \<Longrightarrow> life_step m (m(i \<mapsto> TB_SENT))"
| received: "m i = Some TB_SENT \<Longrightarrow> life_step m (m(i \<mapsto> TB_RECEIVED))"
| cancelled: "m i = Some s \<Longrightarrow> s = TB_PENDING \<or> s = TB_SENT \<Longrightarrow> life_step m (m(i \<mapsto> TB_CANCELLED))"

definition states :: "transfer_batch list \<Rightarrow> (ident \<times> BranchTransferBatchStatus) list" where
  "states bs = map (\<lambda>b. (tb_id b, tb_status b)) bs"

definition life_of :: "transfer_db \<Rightarrow> life" where
  "life_of t = map_of (states (tx_batches t))"

lemma states_simps [simp]: "states [] = []" "states (b # bs) = (tb_id b, tb_status b) # states bs" "states (xs @ ys) = states xs @ states ys"
  by (simp_all add: states_def)

lemma states_keys: "fst ` set (states bs) = tb_id ` set bs" "map fst (states bs) = map tb_id bs"
  by (simp_all add: states_def comp_def image_image)

lemma life_of_batch:
  assumes "tbt.wf n (tx_batches t)" and "b \<in> set (tx_batches t)"
  shows "life_of t (tb_id b) = Some (tb_status b)"
  unfolding life_of_def
proof (rule map_of_is_SomeI)
  show "distinct (map fst (states (tx_batches t)))" unfolding states_keys using assms(1) by (simp add: tbt.wf_def)
  show "(tb_id b, tb_status b) \<in> set (states (tx_batches t))" unfolding states_def set_map by (rule imageI [OF assms(2)])
qed

lemma states_update:
  assumes "\<And>b. tb_id (f b) = tb_id b" "\<And>b. tb_status (f b) = s"
  shows "map_of (states (update_where (\<lambda>b. tb_id b = i) f bs)) = (\<lambda>j. if j = i \<and> map_of (states bs) i \<noteq> None then Some s else map_of (states bs) j)"
  using assms by (induction bs) (auto simp: update_where_def)

lemma states_kept:
  assumes "\<And>b. tb_id (f b) = tb_id b" "\<And>b. tb_status (f b) = tb_status b"
  shows "states (update_where P f bs) = states bs"
  using assms by (induction bs) (simp_all add: update_where_def)

text \<open>New pending batches are opened one after the other.\<close>

lemma life_opened:
  assumes "distinct (map fst ys)" and "\<forall>(i, s)\<in>set ys. s = TB_PENDING \<and> m i = None"
  shows "life_step\<^sup>*\<^sup>* m (m ++ map_of ys)"
  using assms
proof (induction ys)
  case (Cons y ys)
  obtain i where y: "y = (i, TB_PENDING)" "m i = None" using Cons.prems(2) by (cases y) simp
  have fresh: "map_of ys i = None" using Cons.prems(1) y(1) by (simp add: map_of_eq_None_iff)
  have "life_step\<^sup>*\<^sup>* m (m ++ map_of ys)" using Cons by simp
  moreover have "life_step (m ++ map_of ys) ((m ++ map_of ys)(i \<mapsto> TB_PENDING))" by (rule opened) (simp add: fresh y(2) map_add_None)
  moreover have "m ++ map_of (y # ys) = (m ++ map_of ys)(i \<mapsto> TB_PENDING)" by (simp add: y(1) fun_eq_iff map_add_def)
  ultimately show ?case by (simp only: rtranclp.rtrancl_into_rtrancl)
qed simp

lemma life_create:
  assumes "states (tx_batches t') = states (tx_batches t) @ new" and "\<forall>(i, s)\<in>set new. s = TB_PENDING" and "tbt.wf n (tx_batches t')"
  shows "life_step\<^sup>*\<^sup>* (life_of t) (life_of t')"
proof -
  have d: "distinct (map fst (states (tx_batches t) @ new))" using assms(3) unfolding tbt.wf_def assms(1) [symmetric] states_keys by blast
  have "life_of t' = map_of (states (tx_batches t) @ new)" unfolding life_of_def assms(1) ..
  also have "\<dots> = map_of (states (tx_batches t)) ++ map_of new"
    using d by (simp add: map_add_comm map_of_eq_None_iff dom_map_of_conv_image_fst)
  finally have e: "life_of t' = life_of t ++ map_of new" unfolding life_of_def .
  have "life_of t i = None" if "(i, s) \<in> set new" for i s
    unfolding life_of_def map_of_eq_None_iff using d imageI [OF that, of fst] by (simp add: disjoint_iff) blast
  then show ?thesis unfolding e using d assms(2) by (intro life_opened) (simp_all add: Ball_def)
qed

lemma life_same: "states (tx_batches t') = states (tx_batches t) \<Longrightarrow> life_step\<^sup>*\<^sup>* (life_of t) (life_of t')"
  by (simp add: life_of_def)

lemma life_update:
  assumes "tbt.wf n (tx_batches t)" and "b \<in> set (tx_batches t)" and "tx_batches t' = update_where (\<lambda>c. tb_id c = tb_id b) f (tx_batches t)"
    and "\<And>c. tb_id (f c) = tb_id c" "\<And>c. tb_status (f c) = s"
  shows "life_of t' = (life_of t)(tb_id b \<mapsto> s)"
  using life_of_batch [OF assms(1,2)] states_update [of f s "tb_id b", OF assms(4,5)] by (simp add: life_of_def assms(3) fun_eq_iff)

subsection \<open>Creating batches\<close>

definition only_opens :: "transfer_db \<Rightarrow> transfer_db \<Rightarrow> bool" where
  "only_opens t t' \<longleftrightarrow> (\<exists>new. states (tx_batches t') = states (tx_batches t) @ new \<and> (\<forall>(i, s)\<in>set new. s = TB_PENDING))"

lemma only_opens_same: "states (tx_batches t') = states (tx_batches t) \<Longrightarrow> only_opens t t'"
  by (simp add: only_opens_def)

lemma only_opens_trans:
  assumes "only_opens t u" and "only_opens u v"
  shows "only_opens t v"
proof -
  obtain xs ys where "states (tx_batches u) = states (tx_batches t) @ xs" "\<forall>(i, s)\<in>set xs. s = TB_PENDING"
    "states (tx_batches v) = states (tx_batches u) @ ys" "\<forall>(i, s)\<in>set ys. s = TB_PENDING"
    using assms unfolding only_opens_def by (elim exE conjE)
  then show ?thesis unfolding only_opens_def by (intro exI [of _ "xs @ ys"]) (simp add: ball_Un)
qed

lemma insert_batch_opens: "insert_batch b t = Inr (t', i) \<Longrightarrow> tb_status b = TB_PENDING \<Longrightarrow> only_opens t t'"
  unfolding only_opens_def by (frule insert_batch_Inr(2)) simp

lemma set_batch_opens: "(\<And>b. tb_id (f b) = tb_id b) \<Longrightarrow> (\<And>b. tb_status (f b) = tb_status b) \<Longrightarrow> only_opens t (set_batch i f t)"
  by (rule only_opens_same) (simp add: states_kept)

lemma bind_opens: "bind_orders env ids i t = Inr t' \<Longrightarrow> only_opens t t'"
  by (rule only_opens_same) (simp add: bind_orders_Inr(1))

lemma insert_items_opens: "insert_items xs t = Inr t' \<Longrightarrow> only_opens t t'"
proof (induction xs arbitrary: t)
  case (Cons x xs)
  then obtain t1 where t1: "insert_item x t = Inr t1" "insert_items xs t1 = Inr t'" unfolding insert_items.simps rbind_Inr by (elim exE conjE)
  have "tx_batches t1 = tx_batches t" using t1(1) by (auto simp: insert_item_def split: if_splits)
  then show ?case using only_opens_trans [OF only_opens_same Cons.IH [OF t1(2)]] by simp
qed (simp add: only_opens_same)

lemma open_batches_opens: "open_batches key source dest d rts t = Inr (t', opened) \<Longrightarrow> only_opens t t'"
proof (induction rts arbitrary: t opened)
  case (Cons rt rts)
  obtain region token where rt: "rt = (region, token)" by (rule prod.exhaust)
  from Cons.prems obtain t1 i rest where ins: "insert_batch (new_batch token key source dest d region 0 0) t = Inr (t1, i)"
    and more: "open_batches key source dest d rts t1 = Inr (t', rest)" unfolding rt by (auto simp: result_simps simp del: rbind.simps)
  have "only_opens t t1" by (rule insert_batch_opens [OF ins]) (simp add: new_batch_def)
  then show ?case by (rule only_opens_trans [OF _ Cons.IH [OF more]])
qed (simp add: only_opens_same)

lemma fill_batches_opens: "fill_batches env by_region groups t = Inr (t', items) \<Longrightarrow> only_opens t t'"
proof (induction groups arbitrary: t items)
  case (Cons g groups)
  obtain r grp where g: "g = (r, grp)" by (rule prod.exhaust)
  from Cons.prems obtain i t1 rest where t1: "bind_orders env (map ord_id grp) i t = Inr t1"
    and rest: "fill_batches env by_region groups (set_batch i (grow_batch grp) t1) = Inr (t', rest)"
    unfolding g by (auto simp: result_simps simp del: rbind.simps split: option.splits)
  have "only_opens t (set_batch i (grow_batch grp) t1)"
    by (rule only_opens_trans [OF bind_opens [OF t1] set_batch_opens]) (simp_all add: grow_kept)
  then show ?case by (rule only_opens_trans [OF _ Cons.IH [OF rest]])
qed (simp add: only_opens_same)

lemma create_transfer_opens:
  assumes "createBranchTransferBatches env ci t = Inr (t', ids)"
  shows "only_opens t t'"
proof (cases "tx_batches t' = tx_batches t")
  case False
  with assms obtain key source dest d tokens t1 opened by_region groups t2 items t3 where
    "open_batches key source dest d tokens t = Inr (t1, opened)" "fill_batches env by_region groups t1 = Inr (t2, items)"
    "insert_items items t2 = Inr t3" "tx_batches t' = tx_batches t3"
    by (auto simp: createBranchTransferBatches_def Let_def result_simps simp del: rbind.simps split: if_splits)
  then show ?thesis
    using only_opens_trans [OF only_opens_trans [OF only_opens_trans [OF open_batches_opens fill_batches_opens] insert_items_opens] only_opens_same] by metis
qed (simp add: only_opens_same)

lemma return_batches_opens: "return_batches env n key source groups t = Inr (t', by_dest) \<Longrightarrow> only_opens t t'"
proof (induction groups arbitrary: n t by_dest)
  case (Cons g groups)
  obtain dest grp where g: "g = (dest, grp)" by (rule prod.exhaust)
  from Cons.prems obtain region t1 i fresh rest where t1: "return_batch env n key source dest region grp t = Inr (t1, i, fresh)"
    and rest: "return_batches env (Suc n) key source groups t1 = Inr (t', rest)"
    unfolding g by (auto simp: result_simps Let_def simp del: rbind.simps)
  have "only_opens t t1"
  proof (cases fresh)
    case True
    then obtain token where "insert_batch (new_batch token key source dest RETURN region (int (length grp)) (price_sum grp)) t = Inr (t1, i)"
      using t1 by (auto simp: return_batch_def result_simps simp del: rbind.simps split: option.splits)
    then show ?thesis by (rule insert_batch_opens) (simp add: new_batch_def)
  next
    case False
    then obtain j where "t1 = set_batch j (grow_batch grp) t"
      using t1 by (auto simp: return_batch_def result_simps simp del: rbind.simps split: option.splits)
    then show ?thesis using set_batch_opens [of "grow_batch grp"] by (simp add: grow_kept)
  qed
  then show ?case by (rule only_opens_trans [OF _ Cons.IH [OF rest]])
qed (simp add: only_opens_same)

lemma fill_returns_opens: "fill_returns env by_dest groups t = Inr (t', items) \<Longrightarrow> only_opens t t'"
proof (induction groups arbitrary: t items)
  case (Cons g groups)
  obtain r grp where g: "g = (r, grp)" by (rule prod.exhaust)
  from Cons.prems obtain i t1 rest where t1: "bind_orders env (map ord_id grp) i t = Inr t1" and rest: "fill_returns env by_dest groups t1 = Inr (t', rest)"
    unfolding g by (auto simp: result_simps simp del: rbind.simps split: option.splits)
  show ?case by (rule only_opens_trans [OF bind_opens [OF t1] Cons.IH [OF rest]])
qed (simp add: only_opens_same)

lemma create_return_opens:
  assumes "createBranchReturnBatches env ri t = Inr (t', ids)"
  shows "only_opens t t'"
proof (cases "tx_batches t' = tx_batches t")
  case False
  with assms obtain key source t1 by_dest groups t2 items t3 where
    "return_batches env 0 key source groups t = Inr (t1, by_dest)" "fill_returns env by_dest groups t1 = Inr (t2, items)"
    "insert_items items t2 = Inr t3" "tx_batches t' = tx_batches t3"
    by (auto simp: createBranchReturnBatches_def Let_def result_simps simp del: rbind.simps split: if_splits)
  then show ?thesis
    using only_opens_trans [OF only_opens_trans [OF only_opens_trans [OF return_batches_opens fill_returns_opens] insert_items_opens] only_opens_same] by metis
qed (simp add: only_opens_same)

lemma rebatch_opens:
  assumes r: "rebatch env b rest requester t = Inr (t', ids)"
  shows "only_opens t t'"
proof (cases "rest = []")
  case rest: False
  show ?thesis
  proof (cases "tb_direction b = RETURN")
    case True
    show ?thesis by (rule create_return_opens [OF r [unfolded rebatch_def if_not_P [OF rest] if_P [OF True]]])
  next
    case False
    show ?thesis by (rule create_transfer_opens [OF r [unfolded rebatch_def if_not_P [OF rest] if_not_P [OF False]]])
  qed
qed (use r in \<open>simp add: rebatch_def only_opens_same\<close>)

lemma life_only_opens: "only_opens t t' \<Longrightarrow> transfer_inv t' \<Longrightarrow> life_step\<^sup>*\<^sup>* (life_of t) (life_of t')"
  unfolding only_opens_def by (elim exE conjE) (rule life_create, assumption+, rule transfer_invD(1))

subsection \<open>Moving batches\<close>

lemma life_moved:
  assumes inv: "transfer_inv t" and b: "b \<in> set (tx_batches t)"
    and t': "tx_batches t' = update_where (\<lambda>c. tb_id c = tb_id b) f (tx_batches t)"
    and f: "\<And>c. tb_id (f c) = tb_id c" "\<And>c. tb_status (f c) = s"
    and s: "life_step (life_of t) ((life_of t)(tb_id b \<mapsto> s))"
  shows "life_step\<^sup>*\<^sup>* (life_of t) (life_of t')"
  unfolding life_update [OF transfer_invD(1) [OF inv] b t' f] using s by (simp only: r_into_rtranclp)

lemma life_received:
  assumes inv: "transfer_inv t" and b: "b \<in> set (tx_batches t)" "tb_status b = TB_SENT"
    and t': "tx_batches t' = update_where (\<lambda>c. tb_id c = tb_id b) f (tx_batches t)"
    and f: "\<And>c. tb_id (f c) = tb_id c" "\<And>c. tb_status (f c) = TB_RECEIVED"
  shows "life_step\<^sup>*\<^sup>* (life_of t) (life_of t')"
  by (rule life_moved [OF inv b(1) t' f]) (rule received, simp add: life_of_batch [OF transfer_invD(1) [OF inv] b(1)] b(2))

lemma life_receive:
  assumes inv: "transfer_inv t" and r: "receiveBranchTransferBatch env vi t = Inr t'"
  shows "life_step\<^sup>*\<^sup>* (life_of t) (life_of t')"
proof -
  from r obtain b where b: "sent_batch ''paketni'' (trim (str_or_empty (vi_batch_id vi))) t = Inr b" "t' = receive_all env vi b t"
    by (auto simp: receiveBranchTransferBatch_def Let_def result_simps simp del: rbind.simps)
  show ?thesis
    by (rule life_received [OF inv sent_batch_Inr(1,3) [OF b(1)], of _ "arrive env (requester_or_zero (vi_requester vi))"])
      (simp_all add: b(2) receive_all_def Let_def arrive_def)
qed

lemma life_cancel:
  assumes inv: "transfer_inv t" and c: "cancelBranchTransferBatch env vi why t = Inr t'"
  shows "life_step\<^sup>*\<^sup>* (life_of t) (life_of t')"
proof -
  from c obtain b reason where b: "b \<in> set (tx_batches t)" "active b" "t' = cancel_open env vi reason b t" by (rule cancel_Inr)
  show ?thesis
  proof (rule life_moved [OF inv b(1), of _ "\<lambda>b. b\<lparr>tb_status := TB_CANCELLED, tb_cancelled_at := Some (te_now env)\<rparr>"])
    show "life_step (life_of t) ((life_of t)(tb_id b \<mapsto> TB_CANCELLED))"
      using life_of_batch [OF transfer_invD(1) [OF inv] b(1)] by (rule cancelled) (use b(2) in \<open>simp add: active_def\<close>)
  qed (simp_all add: b(3) cancel_open_def Let_def)
qed

lemma life_receive_orders:
  assumes inv: "transfer_inv t" and r: "receiveBranchTransferBatchOrders env vi order_ids t = (res, t')"
  shows "life_step\<^sup>*\<^sup>* (life_of t) (life_of t')"
proof (cases "receive_check vi order_ids t")
  case (Inl e)
  then show ?thesis using r by (simp add: receiveBranchTransferBatchOrders_def)
next
  case (Inr p)
  obtain b sel where p: "p = (b, sel)" by (rule prod.exhaust)
  note C = receive_check_Inr [OF Inr [unfolded p]]
  obtain t1 rest where s: "receive_some env vi b sel t = (t1, rest)" by (rule prod.exhaust)
  have t1: "transfer_inv t1" using receive_some_inv [OF inv C(1,2,4), of env vi] unfolding s by simp
  have b1: "tx_batches t1 = update_where (\<lambda>c. tb_id c = tb_id b)
      (\<lambda>c. (arrive env (requester_or_zero (vi_requester vi)) c)\<lparr>tb_order_count := int (length sel), tb_total_price := item_sum sel\<rparr>) (tx_batches t)"
    using arg_cong [OF s, of "\<lambda>p. tx_batches (fst p)"] by (simp add: receive_some_def Let_def)
  have 1: "life_step\<^sup>*\<^sup>* (life_of t) (life_of t1)" by (rule life_received [OF inv C(1,3) b1]) (simp_all add: arrive_def)
  show ?thesis
  proof (cases "rebatch env b rest (requester_or_zero (vi_requester vi)) t1")
    case (Inl e)
    then have "t' = t1" using r Inr p s by (simp add: receiveBranchTransferBatchOrders_def)
    then show ?thesis using 1 by simp
  next
    case q: (Inr q)
    obtain t2 ids where "q = (t2, ids)" by (rule prod.exhaust)
    then have q: "rebatch env b rest (requester_or_zero (vi_requester vi)) t1 = Inr (t2, ids)" using q by simp
    have "tx_batches (snd (receiveBranchTransferBatchOrders env vi order_ids t)) = tx_batches t2"
      by (simp add: receiveBranchTransferBatchOrders_def Inr p s q)
    then have "life_of t' = life_of t2" unfolding r by (simp add: life_of_def)
    then show ?thesis using rtranclp_trans [OF 1 life_only_opens [OF rebatch_opens [OF q] rebatch_inv [OF q t1]]] by simp
  qed
qed

text \<open>A batch that is split stays pending; the new one is opened and sent.\<close>

lemma life_split:
  assumes wf: "tbt.wf n (tx_batches t)" and b: "b \<in> set (tx_batches t)" "tb_status b = TB_PENDING"
    and t': "tx_batches t' = update_where (\<lambda>c. tb_id c = tb_id b) (stay_behind r) (tx_batches t @ [new])"
    and new: "tb_status new = TB_SENT" "tb_id new = i" "\<And>c. c \<in> set (tx_batches t) \<Longrightarrow> tb_id c \<noteq> i"
  shows "life_step\<^sup>*\<^sup>* (life_of t) (life_of t')"
proof -
  have i: "life_of t i = None" using new(3) unfolding life_of_def map_of_eq_None_iff states_keys by (metis imageE)
  have "life_of t' = (life_of t)(i \<mapsto> TB_SENT)"
    using states_update [of "stay_behind r" TB_PENDING "tb_id b" "tx_batches t @ [new]"] life_of_batch [OF wf b(1)] new(1,2) new(3) [OF b(1)] i b(2)
    by (auto simp: life_of_def t' fun_eq_iff leaving_kept map_add_def split: option.splits)
  moreover have "life_step (life_of t) ((life_of t)(i \<mapsto> TB_PENDING))" using i by (rule opened)
  moreover have "life_step ((life_of t)(i \<mapsto> TB_PENDING)) ((life_of t)(i \<mapsto> TB_SENT))" using sent [of "(life_of t)(i \<mapsto> TB_PENDING)" i] by simp
  ultimately show ?thesis by (simp only: rtranclp.rtrancl_into_rtrancl r_into_rtranclp)
qed

lemma life_send:
  assumes inv: "transfer_inv t" and s: "sendBranchTransferBatch env si t = (Inr j, t')"
  shows "life_step\<^sup>*\<^sup>* (life_of t) (life_of t')"
proof -
  note V = transfer_invD [OF inv]
  obtain b ms where c: "send_check si t = Inr (b, ms)" using s unfolding sendBranchTransferBatch_def by (auto split: sum.splits)
  note C = send_check_Inr [OF c]
  have m: "hd ms \<in> set ms" by (rule hd_in_set [OF C(3)])
  have pending: "tb_status b = TB_PENDING" by (rule send_pending(1) [OF V(6) C(1,2) conjunct1 [OF C(5) [OF m]] conjunct2 [OF C(5) [OF m]]])
  define t1 where "t1 = set_items (\<lambda>x. ti_id x \<in> ti_id ` set ms) (\<lambda>x. x\<lparr>ti_sent_at := Some (te_now env)\<rparr>) t"
  have T: "tx_batches t1 = tx_batches t" "tx_batch_seq t1 = tx_batch_seq t" unfolding t1_def rows_set by (rule refl)+
  show ?thesis
  proof (cases "list_all (\<lambda>x. ti_sent_at x \<noteq> None) (batch_items (tb_id b) t1)")
    case True
    then have "tx_batches (snd (sendBranchTransferBatch env si t)) = update_where (\<lambda>c. tb_id c = tb_id b) (depart env si) (tx_batches t)"
      by (simp add: sendBranchTransferBatch_def c t1_def Let_def sent_orders_tables)
    then have "tx_batches t' = update_where (\<lambda>c. tb_id c = tb_id b) (depart env si) (tx_batches t)" unfolding s by simp
    then show ?thesis
      by (rule life_moved [OF inv C(1), where s = TB_SENT]) (simp_all add: depart_def sent life_of_batch [OF V(1) C(1)] pending)
  next
    case False
    then obtain t2 where t2: "split_batch env si b ms t1 = Inr (t2, j)" "t' = sent_orders env si b (map ti_order_id ms) j t2"
      using s unfolding sendBranchTransferBatch_def c by (auto simp: t1_def Let_def split: sum.splits)
    obtain token t3 where ins: "insert_batch (leaving_batch env si b ms token) t1 = Inr (t3, j)"
      and t2': "tx_batches t2 = update_where (\<lambda>c. tb_id c = tb_id b) (stay_behind (filter (\<lambda>x. ti_sent_at x = None) (batch_items (tb_id b) t1))) (tx_batches t3)"
      by (rule split_batch_Inr [OF t2(1)]) (simp add: that)
    note I = insert_batch_Inr [OF ins]
    have "tb_id c \<noteq> j" if "c \<in> set (tx_batches t)" for c using tbt.fresh [OF V(1) that] unfolding I(1) T(2) by simp
    then show ?thesis
      by (intro life_split [OF V(1) C(1) pending, of _ _ "leaving_batch env si b ms token\<lparr>tb_id := j\<rparr>"])
        (simp_all add: t2(2) sent_orders_tables t2' I(2) T leaving_kept)
  qed
qed


section \<open>Examples\<close>

definition demo_transfer_env :: transfer_env where
  "demo_transfer_env = \<lparr>te_now = 9, te_suffix = (\<lambda>n k. ''a'' @ string_of_nat n), te_stamp = ''9''\<rparr>"

definition demo_waiting :: "ident \<Rightarrow> ident \<Rightarrow> order" where
  "demo_waiting i region = demo_order\<lparr>ord_id := i, ord_status := NEW, ord_region_id := Some region, ord_branch_id := Some ''1'', ord_current_batch_id := None\<rparr>"

definition demo_transfers :: "ident \<Rightarrow> transfer_db" where
  "demo_transfers region = \<lparr>tx_orders = demo_orders\<lparr>db_orders := [demo_waiting ''501'' ''7'', demo_waiting ''502'' region]\<rparr>, tx_batches = [], tx_batch_seq = 1,
     tx_items = [], tx_item_seq = 1, tx_history = [], tx_inbox = []\<rparr>"

definition demo_transfer_input :: transfer_input where
  "demo_transfer_input = \<lparr>ci_source = Some ''1'', ci_destination = Some ''2'', ci_order_ids = [], ci_direction = Some ''FORWARD'',
     ci_request_key = Some ''req-0001'', ci_requester = Some ''5''\<rparr>"

definition demo_pending :: transfer_db where
  "demo_pending = (case createBranchTransferBatches demo_transfer_env demo_transfer_input (demo_transfers ''7'') of Inr (t, _) \<Rightarrow> t | Inl _ \<Rightarrow> demo_transfers ''7'')"

definition demo_send_input :: send_input where
  "demo_send_input = \<lparr>si_batch_id = Some ''1'', si_order_ids = [''502''], si_vehicle_plate = Some ''01A'', si_driver_name = Some ''D'',
     si_driver_phone = Some ''9'', si_requester = Some ''5'', si_requester_name = None, si_requester_roles = [''manager'']\<rparr>"

definition demo_parted :: transfer_db where
  "demo_parted = snd (sendBranchTransferBatch (demo_transfer_env\<lparr>te_suffix := \<lambda>n k. ''b''\<rparr>) demo_send_input demo_pending)"

lemma demo_created: "\<exists>ids. createBranchTransferBatches demo_transfer_env demo_transfer_input (demo_transfers ''7'') = Inr (demo_pending, ids)"
proof -
  have "\<not> isl (createBranchTransferBatches demo_transfer_env demo_transfer_input (demo_transfers ''7''))" by code_simp
  then show ?thesis unfolding demo_pending_def by (cases "createBranchTransferBatches demo_transfer_env demo_transfer_input (demo_transfers ''7'')") auto
qed

lemma demo_sent: "\<exists>j. sendBranchTransferBatch (demo_transfer_env\<lparr>te_suffix := \<lambda>n k. ''b''\<rparr>) demo_send_input demo_pending = (Inr j, demo_parted)"
proof -
  have "\<not> isl (fst (sendBranchTransferBatch (demo_transfer_env\<lparr>te_suffix := \<lambda>n k. ''b''\<rparr>) demo_send_input demo_pending))" by code_simp
  then show ?thesis unfolding demo_parted_def
    by (cases "fst (sendBranchTransferBatch (demo_transfer_env\<lparr>te_suffix := \<lambda>n k. ''b''\<rparr>) demo_send_input demo_pending)") (auto simp: prod_eq_iff)
qed

lemma demo_reach: "transfer_reach demo_pending" "transfer_request demo_pending demo_parted" "transfer_reach demo_parted"
proof -
  have "transfer_reach (demo_transfers ''7'')" by (rule transfer_reach.start) code_simp+
  moreover have "transfer_request (demo_transfers ''7'') demo_pending" using demo_created by (elim exE) (rule transfer_request.create)
  ultimately show 1: "transfer_reach demo_pending" by (rule transfer_reach.request)
  show 2: "transfer_request demo_pending demo_parted" using demo_sent by (elim exE) (rule transfer_request.send)
  show "transfer_reach demo_parted" by (rule transfer_reach.request [OF 1 2])
qed



text \<open>Orders of two regions cannot be moved by one request.\<close>

theorem two_new_regions_fail_witness:
  "createBranchTransferBatches demo_transfer_env demo_transfer_input (demo_transfers ''8'') = Inl db_error"
proof -
  let ?t = "demo_transfers ''8''"
  have g: "transfer_candidates ''1'' (id_list (ci_order_ids demo_transfer_input)) ?t = Inr [(''7'', [demo_waiting ''501'' ''7'']), (''8'', [demo_waiting ''502'' ''8''])]"
    by code_simp
  have p: "pending_of ''1'' ''2'' FORWARD ?t = []" by code_simp
  have d: "draw_tokens demo_transfer_env 0 FORWARD (tx_batches ?t) [''7'', ''8''] = Inr [(''7'', ''BTB-a0''), (''8'', ''BTB-a1'')]" by code_simp
  show ?thesis
  proof (rule two_new_regions_fail [OF _ _ _ _ _ _ _ g, where dest = "''2''" and d = FORWARD and key = "''req-0001''"])
    show "{''7'', ''8''} \<subseteq> fst ` set [(''7'', [demo_waiting ''501'' ''7'']), (''8'', [demo_waiting ''502'' ''8''])]" by simp
    show "draw_tokens demo_transfer_env 0 FORWARD (tx_batches ?t) (filter (\<lambda>r. r \<notin> fst ` set (pending_of ''1'' ''2'' FORWARD ?t))
        (map fst [(''7'', [demo_waiting ''501'' ''7'']), (''8'', [demo_waiting ''502'' ''8''])])) = Inr [(''7'', ''BTB-a0''), (''8'', ''BTB-a1'')]"
      unfolding p using d by simp
  qed (simp_all add: p, code_simp+)
qed

end
