(* ===== verification/Investor.thy ===== *)
theory Investor
  imports Branch_Store Cashbox Order_Money
begin

text \<open>
  Investors, their investments and the shares of profit they are owed:
  \<open>apps/investor-service/src/investor-service.service.ts\<close> and its entities.

  A number of a request is a \<open>jsnum\<close>, as the service checks it itself. A column of two decimals
  rounds what it stores and refuses what it cannot hold; not-a-number is a value of such a column.
  Identifiers are taken in canonical form. No operation opens a transaction: calculating profits
  saves one row after the other, so its result carries the tables in either case.
\<close>

record investor =
  iv_id :: ident
  iv_user_id :: ident
  iv_name :: string
  iv_phone_number :: string
  iv_status :: Status
  iv_description :: "string option"
  iv_deleted :: bool

record investment =
  im_id :: ident
  im_investor_id :: ident
  im_branch_id :: "ident option"
  im_amount :: money
  im_invested_at :: time
  im_description :: "string option"
  im_deleted :: bool

record profit_share =
  ps_id :: ident
  ps_investor_id :: ident
  ps_amount :: jsnum
  ps_percentage :: jsnum
  ps_period_start :: time
  ps_period_end :: time
  ps_is_paid :: bool
  ps_paid_at :: "time option"
  ps_description :: "string option"
  ps_deleted :: bool

record investor_db =
  v_investors :: "investor list"
  v_investor_seq :: nat
  v_investments :: "investment list"
  v_investment_seq :: nat
  v_shares :: "profit_share list"
  v_share_seq :: nat
  v_audit :: "audit_entry list"

interpretation ivt: table iv_id .
interpretation imt: table im_id .
interpretation pst: table ps_id .
interpretation phone: live_unique iv_id iv_phone_number iv_deleted .

section \<open>Checks\<close>

text \<open>A column of fourteen digits, two of them decimals.\<close>

definition numeric_14_2 :: "money \<Rightarrow> rpc_error + money" where
  "numeric_14_2 x = rbind (require (\<bar>round2 x\<bar> < 1000000000000) db_error) (\<lambda>_. Inr (round2 x))"

definition required_date :: "string \<Rightarrow> date_input \<Rightarrow> rpc_error + time option" where
  "required_date what d = (case d of NoDate \<Rightarrow> Inr None | BadDate \<Rightarrow> Inl (badRequest (what @ '' is invalid'')) | Date x \<Rightarrow> Inr (Some x))"

definition valid_phone :: "string \<Rightarrow> bool" where
  "valid_phone s \<longleftrightarrow> take 4 s = ''+998'' \<and> length s = 13 \<and> is_digits (drop 4 s)"

definition validateUzPhoneNumber :: "string \<Rightarrow> rpc_error + unit" where
  "validateUzPhoneNumber phone =
     require (valid_phone (trim phone)) (badRequest (''phone_number must be in '' @ [CHR 0x27] @ ''+998XXXXXXXXX'' @ [CHR 0x27] @ '' format''))"

definition getInvestorOrThrow :: "ident \<Rightarrow> investor_db \<Rightarrow> rpc_error + investor" where
  "getInvestorOrThrow i db = find_or (notFound ''investor not found'') (\<lambda>x. iv_id x = i \<and> \<not> iv_deleted x) (v_investors db)"

definition getInvestmentOrThrow :: "ident \<Rightarrow> investor_db \<Rightarrow> rpc_error + investment" where
  "getInvestmentOrThrow i db = find_or (notFound ''investment not found'') (\<lambda>x. im_id x = i \<and> \<not> im_deleted x) (v_investments db)"

definition trimmed_text :: "string option \<Rightarrow> string option" where
  "trimmed_text d = (if truthy d then Some (trim (str_or_empty d)) else None)"

definition phone_taken :: "string \<Rightarrow> investor_db \<Rightarrow> bool" where
  "phone_taken phone db \<longleftrightarrow> find (\<lambda>x. iv_phone_number x = phone \<and> \<not> iv_deleted x) (v_investors db) \<noteq> None"

definition status_of :: "string \<Rightarrow> Status option" where
  "status_of s = (if s = ''active'' then Some ACTIVE else if s = ''inactive'' then Some INACTIVE else None)"

definition log_investor :: "string \<Rightarrow> ident \<Rightarrow> string \<Rightarrow> string option \<Rightarrow> investor_db \<Rightarrow> investor_db" where
  "log_investor entity i action requester db = db\<lparr>v_audit := v_audit db @ [audit_row entity i action (nonempty_or_null requester)]\<rparr>"

text \<open>A change is logged when the row differs from what was loaded.\<close>

definition log_investor_change :: "bool \<Rightarrow> string \<Rightarrow> ident \<Rightarrow> string option \<Rightarrow> investor_db \<Rightarrow> investor_db" where
  "log_investor_change changed entity i requester db = (if changed then log_investor entity i ''updated'' requester db else db)"

section \<open>Investors\<close>

record create_investor_dto =
  cv_name :: "string option"
  cv_phone_number :: "string option"
  cv_status :: "string option"
  cv_description :: "string option"
  cv_user_id :: "string option"

definition createInvestor :: "create_investor_dto \<Rightarrow> string option \<Rightarrow> investor_db \<Rightarrow> rpc_error + investor_db" where
  "createInvestor dto requester db =
     (let name = trim (str_or_empty (cv_name dto)); phone = trim (str_or_empty (cv_phone_number dto)); i = string_of_nat (v_investor_seq db) in
      rbind (require (name \<noteq> []) (badRequest ''name is required'')) (\<lambda>_.
      rbind (require (phone \<noteq> []) (badRequest ''phone_number is required'')) (\<lambda>_.
      rbind (validateUzPhoneNumber phone) (\<lambda>_.
      rbind (require (\<not> phone_taken phone db) (badRequest ''phone_number already exists'')) (\<lambda>_.
      case (case cv_status dto of None \<Rightarrow> Some ACTIVE | Some s \<Rightarrow> status_of s) of
        None \<Rightarrow> Inl db_error
      | Some st \<Rightarrow>
          Inr (log_investor ''Investor'' i ''created'' requester
            (db\<lparr>v_investors := v_investors db @ [\<lparr>iv_id = i, iv_user_id = (if truthy (cv_user_id dto) then str_or_empty (cv_user_id dto) else ''0''),
                  iv_name = name, iv_phone_number = phone, iv_status = st, iv_description = trimmed_text (cv_description dto), iv_deleted = False\<rparr>],
                v_investor_seq := Suc (v_investor_seq db)\<rparr>)))))))"

text \<open>A field of an update is absent, or null, or has a value.\<close>

record update_investor_dto =
  uv_name :: "string option option"
  uv_phone_number :: "string option option"
  uv_status :: "string option option"
  uv_description :: "string option option"

definition set_name :: "string option option \<Rightarrow> investor \<Rightarrow> rpc_error + investor" where
  "set_name x v = (case x of None \<Rightarrow> Inr v
     | Some n \<Rightarrow> let name = trim (case n of None \<Rightarrow> ''null'' | Some s \<Rightarrow> s) in
         rbind (require (name \<noteq> []) (badRequest ''name cannot be empty'')) (\<lambda>_. Inr (v\<lparr>iv_name := name\<rparr>)))"

definition set_phone :: "string option option \<Rightarrow> investor_db \<Rightarrow> investor \<Rightarrow> rpc_error + investor" where
  "set_phone x db v = (case x of None \<Rightarrow> Inr v
     | Some p \<Rightarrow> let phone = trim (str_or_empty p) in
         rbind (require (phone \<noteq> []) (badRequest ''phone_number cannot be empty'')) (\<lambda>_.
         rbind (validateUzPhoneNumber phone) (\<lambda>_.
         rbind (require (phone = iv_phone_number v \<or> \<not> phone_taken phone db) (badRequest ''phone_number already exists'')) (\<lambda>_.
           Inr (v\<lparr>iv_phone_number := phone\<rparr>)))))"

definition set_status :: "string option option \<Rightarrow> investor \<Rightarrow> rpc_error + investor" where
  "set_status x v = (case x of None \<Rightarrow> Inr v
     | Some s \<Rightarrow> (case status_of (str_or_empty s) of None \<Rightarrow> Inl (badRequest ''status must be active or inactive'')
                 | Some st \<Rightarrow> Inr (v\<lparr>iv_status := st\<rparr>)))"

definition updateInvestor :: "ident \<Rightarrow> update_investor_dto \<Rightarrow> string option \<Rightarrow> investor_db \<Rightarrow> rpc_error + investor_db" where
  "updateInvestor i dto requester db =
     rbind (getInvestorOrThrow i db) (\<lambda>before.
     rbind (set_name (uv_name dto) before) (\<lambda>v1.
     rbind (set_phone (uv_phone_number dto) db v1) (\<lambda>v2.
     rbind (set_status (uv_status dto) (case uv_description dto of None \<Rightarrow> v2 | Some d \<Rightarrow> v2\<lparr>iv_description := trimmed_text d\<rparr>)) (\<lambda>v.
       Inr (log_investor_change (v \<noteq> before) ''Investor'' (iv_id v) requester (db\<lparr>v_investors := save_row iv_id v (v_investors db)\<rparr>))))))"

definition deleteInvestor :: "ident \<Rightarrow> string option \<Rightarrow> investor_db \<Rightarrow> rpc_error + investor_db" where
  "deleteInvestor i requester db =
     rbind (getInvestorOrThrow i db) (\<lambda>v.
       Inr (log_investor ''Investor'' (iv_id v) ''deleted'' requester
         (db\<lparr>v_investors := save_row iv_id (v\<lparr>iv_deleted := True, iv_status := INACTIVE\<rparr>) (v_investors db)\<rparr>)))"

section \<open>Investments\<close>

record create_investment_dto =
  cm_investor_id :: "string option"
  cm_amount :: jsnum
  cm_invested_at :: date_input
  cm_branch_id :: "string option"
  cm_description :: "string option"

text \<open>An amount that passed the check is finite or the positive infinity, which no column holds.\<close>

definition stored_amount :: "jsnum \<Rightarrow> rpc_error + money" where
  "stored_amount x = (case x of Num r \<Rightarrow> numeric_14_2 r | _ \<Rightarrow> Inl db_error)"

definition createInvestment :: "create_investment_dto \<Rightarrow> string option \<Rightarrow> investor_db \<Rightarrow> rpc_error + investor_db" where
  "createInvestment dto requester db =
     (let owner = trim (str_or_empty (cm_investor_id dto)); i = string_of_nat (v_investment_seq db) in
      rbind (require (owner \<noteq> []) (badRequest ''investor_id is required'')) (\<lambda>_.
      rbind (getInvestorOrThrow owner db) (\<lambda>_.
      rbind (require (js_pos (cm_amount dto)) (badRequest ''amount must be greater than 0'')) (\<lambda>_.
      rbind (required_date ''invested_at'' (cm_invested_at dto)) (\<lambda>d.
      case d of None \<Rightarrow> Inl (badRequest ''invested_at is required'') | Some investedAt \<Rightarrow>
      rbind (stored_amount (cm_amount dto)) (\<lambda>amount.
        Inr (log_investor ''Investment'' i ''created'' requester
          (db\<lparr>v_investments := v_investments db @ [\<lparr>im_id = i, im_investor_id = owner, im_branch_id = nonempty_or_null (cm_branch_id dto),
                im_amount = amount, im_invested_at = investedAt, im_description = trimmed_text (cm_description dto), im_deleted = False\<rparr>],
              v_investment_seq := Suc (v_investment_seq db)\<rparr>))))))))"

record update_investment_dto =
  um_investor_id :: "string option option"
  um_amount :: "jsnum option"
  um_invested_at :: "date_input option"
  um_branch_id :: "string option option"
  um_description :: "string option option"

definition set_owner :: "string option option \<Rightarrow> investor_db \<Rightarrow> investment \<Rightarrow> rpc_error + investment" where
  "set_owner x db m = (case x of None \<Rightarrow> Inr m
     | Some i \<Rightarrow> let owner = trim (str_or_empty i) in
         rbind (require (owner \<noteq> []) (badRequest ''investor_id cannot be empty'')) (\<lambda>_.
         rbind (getInvestorOrThrow owner db) (\<lambda>_. Inr (m\<lparr>im_investor_id := owner\<rparr>))))"

definition next_amount :: "jsnum option \<Rightarrow> investment \<Rightarrow> rpc_error + jsnum" where
  "next_amount x m = (case x of None \<Rightarrow> Inr (Num (im_amount m))
     | Some a \<Rightarrow> rbind (require (js_pos a) (badRequest ''amount must be greater than 0'')) (\<lambda>_. Inr a))"

definition set_invested_at :: "date_input option \<Rightarrow> investment \<Rightarrow> rpc_error + investment" where
  "set_invested_at x m = (case x of None \<Rightarrow> Inr m
     | Some d \<Rightarrow> rbind (required_date ''invested_at'' d) (\<lambda>r. case r of None \<Rightarrow> Inl (badRequest ''invested_at is required'')
                 | Some i \<Rightarrow> Inr (m\<lparr>im_invested_at := i\<rparr>)))"

definition updateInvestment :: "ident \<Rightarrow> update_investment_dto \<Rightarrow> string option \<Rightarrow> investor_db \<Rightarrow> rpc_error + investor_db" where
  "updateInvestment i dto requester db =
     rbind (getInvestmentOrThrow i db) (\<lambda>before.
     rbind (set_owner (um_investor_id dto) db before) (\<lambda>m1.
     rbind (next_amount (um_amount dto) before) (\<lambda>a.
     rbind (set_invested_at (um_invested_at dto) (case um_branch_id dto of None \<Rightarrow> m1 | Some b \<Rightarrow> m1\<lparr>im_branch_id := trimmed_text b\<rparr>)) (\<lambda>m2.
     let m = (case um_description dto of None \<Rightarrow> m2 | Some d \<Rightarrow> m2\<lparr>im_description := trimmed_text d\<rparr>) in
     rbind (stored_amount a) (\<lambda>amount.
       Inr (log_investor_change (m \<noteq> before \<or> a \<noteq> Num (im_amount before)) ''Investment'' (im_id m) requester
         (db\<lparr>v_investments := save_row im_id (m\<lparr>im_amount := amount\<rparr>) (v_investments db)\<rparr>)))))))"

definition deleteInvestment :: "ident \<Rightarrow> string option \<Rightarrow> investor_db \<Rightarrow> rpc_error + investor_db" where
  "deleteInvestment i requester db =
     rbind (getInvestmentOrThrow i db) (\<lambda>m.
       Inr (log_investor ''Investment'' (im_id m) ''deleted'' requester
         (db\<lparr>v_investments := save_row im_id (m\<lparr>im_deleted := True\<rparr>) (v_investments db)\<rparr>)))"

section \<open>Shares of profit\<close>

text \<open>A percentage is refused when it is below 0 or above 100; not-a-number is neither.\<close>

fun percentage_refused :: "jsnum \<Rightarrow> bool" where
  "percentage_refused (Num p) = (p < 0 \<or> p > 100)"
| "percentage_refused NaN = False"
| "percentage_refused _ = True"

fun stored_percentage :: "jsnum \<Rightarrow> jsnum" where
  "stored_percentage (Num p) = Num (round2 p)"
| "stored_percentage x = x"

definition check_period :: "date_input \<Rightarrow> date_input \<Rightarrow> rpc_error + time \<times> time" where
  "check_period s e =
     rbind (required_date ''period_start'' s) (\<lambda>s. rbind (required_date ''period_end'' e) (\<lambda>e.
     case (s, e) of
       (Some a, Some b) \<Rightarrow> rbind (require (a \<le> b) (badRequest ''period_start must be less than or equal to period_end'')) (\<lambda>_. Inr (a, b))
     | _ \<Rightarrow> Inl (badRequest ''period_start and period_end are required'')))"

definition new_share :: "ident \<Rightarrow> jsnum \<Rightarrow> jsnum \<Rightarrow> time \<times> time \<Rightarrow> string option \<Rightarrow> profit_share" where
  "new_share owner amount percentage period description =
     \<lparr>ps_id = [], ps_investor_id = owner, ps_amount = amount, ps_percentage = stored_percentage percentage, ps_period_start = fst period,
      ps_period_end = snd period, ps_is_paid = False, ps_paid_at = None, ps_description = trimmed_text description, ps_deleted = False\<rparr>"

definition insert_share :: "string \<Rightarrow> string option \<Rightarrow> profit_share \<Rightarrow> investor_db \<Rightarrow> investor_db" where
  "insert_share action requester x db =
     (let i = string_of_nat (v_share_seq db) in
      log_investor ''ProfitShare'' i action requester
        (db\<lparr>v_shares := v_shares db @ [x\<lparr>ps_id := i\<rparr>], v_share_seq := Suc (v_share_seq db)\<rparr>))"

record create_share_dto =
  cs_investor_id :: "string option"
  cs_amount :: jsnum
  cs_percentage :: jsnum
  cs_period_start :: date_input
  cs_period_end :: date_input
  cs_description :: "string option"

definition createProfitShare :: "create_share_dto \<Rightarrow> string option \<Rightarrow> investor_db \<Rightarrow> rpc_error + investor_db" where
  "createProfitShare dto requester db =
     (let owner = trim (str_or_empty (cs_investor_id dto)) in
      rbind (require (owner \<noteq> []) (badRequest ''investor_id is required'')) (\<lambda>_.
      rbind (getInvestorOrThrow owner db) (\<lambda>_.
      rbind (require (js_pos (cs_amount dto) \<or> cs_amount dto = Num 0) (badRequest ''amount must be greater than or equal to 0'')) (\<lambda>_.
      rbind (require (\<not> percentage_refused (cs_percentage dto)) (badRequest ''percentage must be between 0 and 100'')) (\<lambda>_.
      rbind (check_period (cs_period_start dto) (cs_period_end dto)) (\<lambda>period.
      rbind (stored_amount (cs_amount dto)) (\<lambda>amount.
        Inr (insert_share ''created'' requester (new_share owner (Num amount) (cs_percentage dto) period (cs_description dto)) db))))))))"

record calculate_dto =
  ca_investor_id :: "string option"
  ca_period_start :: date_input
  ca_period_end :: date_input
  ca_percentage :: jsnum
  ca_description :: "string option"

text \<open>What an investor has invested up to the end of the period.\<close>

definition total_invested :: "ident \<Rightarrow> time \<Rightarrow> investor_db \<Rightarrow> money" where
  "total_invested i until db =
     (\<Sum>m\<leftarrow>filter (\<lambda>m. im_investor_id m = i \<and> \<not> im_deleted m \<and> 0 \<le> im_invested_at m \<and> im_invested_at m \<le> until) (v_investments db). im_amount m)"

fun share_amount :: "money \<Rightarrow> jsnum \<Rightarrow> rpc_error + jsnum" where
  "share_amount invested (Num p) = rbind (numeric_14_2 (invested * p / 100)) (\<lambda>x. Inr (Num x))"
| "share_amount invested x = Inr NaN"

definition has_share :: "ident \<Rightarrow> time \<times> time \<Rightarrow> investor_db \<Rightarrow> bool" where
  "has_share i period db \<longleftrightarrow>
     find (\<lambda>x. ps_investor_id x = i \<and> ps_period_start x = fst period \<and> ps_period_end x = snd period \<and> \<not> ps_deleted x) (v_shares db) \<noteq> None"

text \<open>The counts of calculated and skipped investors, or the error that ended the loop.\<close>

fun calculate_loop :: "calculate_dto \<Rightarrow> string option \<Rightarrow> time \<times> time \<Rightarrow> investor list \<Rightarrow> investor_db \<Rightarrow> (rpc_error + nat \<times> nat) \<times> investor_db" where
  "calculate_loop dto requester period [] db = (Inr (0, 0), db)"
| "calculate_loop dto requester period (v # vs) db =
     (if has_share (iv_id v) period db
      then (case calculate_loop dto requester period vs db of (r, db') \<Rightarrow> (map_sum id (\<lambda>(c, s). (c, Suc s)) r, db'))
      else case share_amount (total_invested (iv_id v) (snd period) db) (ca_percentage dto) of
             Inl e \<Rightarrow> (Inl e, db)
           | Inr amount \<Rightarrow>
               (case calculate_loop dto requester period vs (insert_share ''investor.profit_calculated'' requester
                       (new_share (iv_id v) amount (ca_percentage dto) period (ca_description dto)) db)
                of (r, db') \<Rightarrow> (map_sum id (\<lambda>(c, s). (Suc c, s)) r, db')))"

definition chosen_investors :: "string option \<Rightarrow> investor_db \<Rightarrow> rpc_error + investor list" where
  "chosen_investors i db =
     (if truthy i then rbind (getInvestorOrThrow (str_or_empty i) db) (\<lambda>v. Inr [v])
      else Inr (filter (\<lambda>v. \<not> iv_deleted v \<and> iv_status v = ACTIVE) (v_investors db)))"

definition calculateProfit :: "calculate_dto \<Rightarrow> string option \<Rightarrow> investor_db \<Rightarrow> (rpc_error + nat \<times> nat) \<times> investor_db" where
  "calculateProfit dto requester db =
     (case (rbind (check_period (ca_period_start dto) (ca_period_end dto)) (\<lambda>period.
            rbind (require (\<not> percentage_refused (ca_percentage dto)) (badRequest ''percentage must be between 0 and 100'')) (\<lambda>_.
            rbind (chosen_investors (ca_investor_id dto) db) (\<lambda>vs. Inr (period, vs))))) of
        Inl e \<Rightarrow> (Inl e, db)
      | Inr (period, vs) \<Rightarrow> calculate_loop dto requester period vs db)"

definition markProfitPaid :: "time \<Rightarrow> ident \<Rightarrow> string option \<Rightarrow> investor_db \<Rightarrow> rpc_error + investor_db" where
  "markProfitPaid now i requester db =
     rbind (find_or (notFound ''profit share not found'') (\<lambda>x. ps_id x = i \<and> \<not> ps_deleted x) (v_shares db)) (\<lambda>x.
       Inr (log_investor ''ProfitShare'' (ps_id x) ''payment'' requester
         (db\<lparr>v_shares := save_row ps_id (x\<lparr>ps_is_paid := True, ps_paid_at := Some now\<rparr>) (v_shares db)\<rparr>)))"


section \<open>What the tables hold\<close>

definition in_column :: "money \<Rightarrow> bool" where
  "in_column x \<longleftrightarrow> 0 \<le> x \<and> x < 1000000000000 \<and> round2 x = x"

fun percentage_ok :: "jsnum \<Rightarrow> bool" where
  "percentage_ok (Num p) = (0 \<le> p \<and> p \<le> 100)"
| "percentage_ok x = (x = NaN)"

fun amount_ok :: "jsnum \<Rightarrow> bool" where
  "amount_ok (Num a) = in_column a"
| "amount_ok x = (x = NaN)"

definition investor_ok :: "investor \<Rightarrow> bool" where
  "investor_ok v \<longleftrightarrow> iv_name v \<noteq> [] \<and> valid_phone (iv_phone_number v)"

definition investment_ok :: "investment \<Rightarrow> bool" where
  "investment_ok m \<longleftrightarrow> in_column (im_amount m)"

definition share_ok :: "profit_share \<Rightarrow> bool" where
  "share_ok x \<longleftrightarrow> percentage_ok (ps_percentage x) \<and> amount_ok (ps_amount x) \<and> (ps_amount x = NaN \<longrightarrow> ps_percentage x = NaN)
     \<and> ps_period_start x \<le> ps_period_end x \<and> (ps_is_paid x \<longleftrightarrow> ps_paid_at x \<noteq> None)"

definition well_formed :: "investor_db \<Rightarrow> bool" where
  "well_formed db \<longleftrightarrow> ivt.wf (v_investor_seq db) (v_investors db) \<and> imt.wf (v_investment_seq db) (v_investments db) \<and> pst.wf (v_share_seq db) (v_shares db)
     \<and> (\<forall>v\<in>set (v_investors db). investor_ok v) \<and> phone.uniq (v_investors db)
     \<and> (\<forall>m\<in>set (v_investments db). investment_ok m \<and> im_investor_id m \<in> iv_id ` set (v_investors db))
     \<and> (\<forall>x\<in>set (v_shares db). share_ok x \<and> ps_investor_id x \<in> iv_id ` set (v_investors db))"

subsection \<open>Amounts\<close>

lemma round2_nonneg: "0 \<le> x \<Longrightarrow> 0 \<le> round2 x"
  by (simp add: round2_def js_round_def)

lemma round2_idem: "round2 (round2 x) = round2 x"
  by (rule round2_id [OF two_dp_round2])

lemma numeric_14_2_ok: "numeric_14_2 x = Inr y \<Longrightarrow> 0 \<le> x \<Longrightarrow> in_column y"
  using round2_nonneg [of x] round2_idem [of x] by (auto simp: numeric_14_2_def result_simps in_column_def simp del: rbind.simps)

lemma stored_amount_ok: "stored_amount a = Inr y \<Longrightarrow> js_pos a \<or> a = Num 0 \<Longrightarrow> in_column y"
  by (cases a) (auto simp: stored_amount_def intro: numeric_14_2_ok)

lemma stored_percentage_ok: "\<not> percentage_refused p \<Longrightarrow> percentage_ok (stored_percentage p)"
proof (cases p)
  case (Num x)
  assume "\<not> percentage_refused p"
  then have x: "0 \<le> x" "x \<le> 100" using Num by simp_all
  have "\<lfloor>x * 100 + 1 / 2\<rfloor> \<le> 10000" using x(2) by (simp add: floor_le_iff)
  then have "of_int \<lfloor>x * 100 + 1 / 2\<rfloor> \<le> (10000 :: rat)" by (metis of_int_le_iff of_int_numeral)
  then show ?thesis using round2_nonneg [OF x(1)] Num by (simp add: round2_def js_round_def)
qed simp_all


subsection \<open>Operations\<close>

lemma phone_checked: "validateUzPhoneNumber (trim p) = Inr u \<Longrightarrow> valid_phone (trim p)"
  by (simp add: validateUzPhoneNumber_def result_simps trim_trim)

lemma phone_free: "\<not> phone_taken p db \<Longrightarrow> v \<in> set (v_investors db) \<Longrightarrow> \<not> iv_deleted v \<Longrightarrow> iv_phone_number v \<noteq> p"
  by (auto simp: phone_taken_def find_None_iff)

lemma getInvestor_Inr: "getInvestorOrThrow i db = Inr v \<Longrightarrow> v \<in> set (v_investors db) \<and> iv_id v = i \<and> \<not> iv_deleted v"
  by (auto simp: getInvestorOrThrow_def result_simps dest: find_Some_mem)

lemma getInvestment_Inr: "getInvestmentOrThrow i db = Inr m \<Longrightarrow> m \<in> set (v_investments db) \<and> im_id m = i \<and> \<not> im_deleted m"
  by (auto simp: getInvestmentOrThrow_def result_simps dest: find_Some_mem)

lemma owner_known: "getInvestorOrThrow i db = Inr v \<Longrightarrow> i \<in> iv_id ` set (v_investors db)"
  by (drule getInvestor_Inr) (blast intro: rev_image_eqI)

lemma well_formed_log [simp]: "well_formed (log_investor e i a r db) = well_formed db"
  by (simp add: well_formed_def log_investor_def)

lemma well_formed_log_change [simp]: "well_formed (log_investor_change c e i r db) = well_formed db"
  by (simp add: log_investor_change_def)

lemma add_investor:
  assumes w: "well_formed db" and v: "iv_id v = string_of_nat (v_investor_seq db)" "investor_ok v" "\<not> phone_taken (iv_phone_number v) db"
  shows "well_formed (db\<lparr>v_investors := v_investors db @ [v], v_investor_seq := Suc (v_investor_seq db)\<rparr>)"
proof -
  have "phone.uniq (v_investors db @ [v])"
    by (rule phone.uniq_insert) (use w phone_free [OF v(3)] in \<open>auto simp: well_formed_def\<close>)
  then show ?thesis using w ivt.wf_insert [OF _ v(1)] v(2) unfolding well_formed_def by auto
qed

lemma save_investor:
  assumes w: "well_formed db" and v0: "v0 \<in> set (v_investors db)" "iv_id v0 = iv_id v" and v: "investor_ok v"
    and p: "\<And>x. x \<in> set (v_investors db) \<Longrightarrow> iv_id x \<noteq> iv_id v \<Longrightarrow> \<not> iv_deleted x \<Longrightarrow> \<not> iv_deleted v \<Longrightarrow> iv_phone_number x \<noteq> iv_phone_number v"
  shows "well_formed (db\<lparr>v_investors := save_row iv_id v (v_investors db)\<rparr>)"
proof -
  have ids: "iv_id ` set (save_row iv_id v (v_investors db)) = iv_id ` set (v_investors db)" using ivt.keys_save by (metis list.set_map)
  have "phone.uniq (save_row iv_id v (v_investors db))" by (rule phone.uniq_save) (use w p in \<open>auto simp: well_formed_def\<close>)
  moreover have "\<forall>x\<in>set (save_row iv_id v (v_investors db)). investor_ok x" using w v ivt.mem_save unfolding well_formed_def by blast
  ultimately show ?thesis using w unfolding well_formed_def by (simp add: ids ivt.wf_save)
qed

lemma createInvestor_ok:
  assumes "well_formed db" and "createInvestor dto requester db = Inr db'"
  shows "well_formed db'"
  using assms(2) phone_checked
  by (auto simp: createInvestor_def Let_def result_simps investor_ok_def simp del: rbind.simps split: option.splits intro!: add_investor [OF assms(1)])

lemma set_name_Inr: "set_name x v = Inr v' \<Longrightarrow> iv_name v \<noteq> []
    \<Longrightarrow> iv_name v' \<noteq> [] \<and> iv_id v' = iv_id v \<and> iv_phone_number v' = iv_phone_number v \<and> iv_deleted v' = iv_deleted v"
  by (auto simp: set_name_def Let_def result_simps simp del: rbind.simps split: option.splits)

lemma set_phone_Inr: "set_phone x db v = Inr v' \<Longrightarrow> iv_id v' = iv_id v \<and> iv_name v' = iv_name v \<and> iv_deleted v' = iv_deleted v
    \<and> (iv_phone_number v' = iv_phone_number v \<or> valid_phone (iv_phone_number v') \<and> \<not> phone_taken (iv_phone_number v') db)"
  by (auto simp: set_phone_def Let_def result_simps simp del: rbind.simps split: option.splits dest: phone_checked)

lemma set_status_Inr: "set_status x v = Inr v' \<Longrightarrow> iv_id v' = iv_id v \<and> iv_name v' = iv_name v \<and> iv_phone_number v' = iv_phone_number v \<and> iv_deleted v' = iv_deleted v"
  by (auto simp: set_status_def split: option.splits)

lemma updateInvestor_ok:
  assumes w: "well_formed db" and u: "updateInvestor i dto requester db = Inr db'"
  shows "well_formed db'"
proof -
  from u obtain v0 v1 v2 v c where v0: "getInvestorOrThrow i db = Inr v0" and v1: "set_name (uv_name dto) v0 = Inr v1"
    and v2: "set_phone (uv_phone_number dto) db v1 = Inr v2"
    and v: "set_status (uv_status dto) (case uv_description dto of None \<Rightarrow> v2 | Some d \<Rightarrow> v2\<lparr>iv_description := trimmed_text d\<rparr>) = Inr v"
    and db': "db' = log_investor_change (v \<noteq> v0) ''Investor'' (iv_id v) requester (db\<lparr>v_investors := save_row iv_id v (v_investors db)\<rparr>)"
    unfolding updateInvestor_def rbind_Inr by blast
  note V = getInvestor_Inr [OF v0]
  have ok: "investor_ok v0" using w V unfolding well_formed_def by blast
  have same: "iv_id v = iv_id v0" "iv_name v \<noteq> []" "iv_phone_number v = iv_phone_number v0 \<or> valid_phone (iv_phone_number v) \<and> \<not> phone_taken (iv_phone_number v) db"
    using set_name_Inr [OF v1] set_phone_Inr [OF v2] set_status_Inr [OF v] ok unfolding investor_ok_def by (simp_all split: option.splits)
  have "well_formed (db\<lparr>v_investors := save_row iv_id v (v_investors db)\<rparr>)"
  proof (rule save_investor [OF w, of v0])
    show "investor_ok v" using ok same(2,3) unfolding investor_ok_def by metis
    fix x
    assume x: "x \<in> set (v_investors db)" "iv_id x \<noteq> iv_id v" "\<not> iv_deleted x"
    show "iv_phone_number x \<noteq> iv_phone_number v"
    proof
      assume e: "iv_phone_number x = iv_phone_number v"
      then have "iv_phone_number x = iv_phone_number v0" using same(3) phone_free [OF _ x(1,3)] by metis
      then have "x = v0" using w V x(1,3) phone.uniqD unfolding well_formed_def by metis
      then show False using x(2) same(1) by simp
    qed
  qed (use V same(1) in simp_all)
  then show ?thesis unfolding db' by simp
qed

lemma deleteInvestor_ok:
  assumes w: "well_formed db" and d: "deleteInvestor i requester db = Inr db'"
  shows "well_formed db'"
proof -
  from d obtain v where v: "getInvestorOrThrow i db = Inr v" and db': "db' = log_investor ''Investor'' (iv_id v) ''deleted'' requester
      (db\<lparr>v_investors := save_row iv_id (v\<lparr>iv_deleted := True, iv_status := INACTIVE\<rparr>) (v_investors db)\<rparr>)"
    unfolding deleteInvestor_def rbind_Inr by auto
  have "investor_ok v" using w getInvestor_Inr [OF v] unfolding well_formed_def by blast
  then show ?thesis unfolding db' well_formed_log
    by (intro save_investor [OF w, of v]) (use getInvestor_Inr [OF v] in \<open>simp_all add: investor_ok_def\<close>)
qed

lemma save_investment:
  assumes w: "well_formed db" and m: "m0 \<in> set (v_investments db)" "im_id m0 = im_id m" "investment_ok m" "im_investor_id m \<in> iv_id ` set (v_investors db)"
  shows "well_formed (db\<lparr>v_investments := save_row im_id m (v_investments db)\<rparr>)"
proof -
  have "\<forall>x\<in>set (save_row im_id m (v_investments db)). investment_ok x \<and> im_investor_id x \<in> iv_id ` set (v_investors db)"
    using w m(3,4) imt.mem_save unfolding well_formed_def by blast
  then show ?thesis using w unfolding well_formed_def by (simp add: imt.wf_save)
qed

lemma add_investment:
  assumes w: "well_formed db" and m: "im_id m = string_of_nat (v_investment_seq db)" "investment_ok m" "im_investor_id m \<in> iv_id ` set (v_investors db)"
  shows "well_formed (db\<lparr>v_investments := v_investments db @ [m], v_investment_seq := Suc (v_investment_seq db)\<rparr>)"
  using w m imt.wf_insert [OF _ m(1)] unfolding well_formed_def by auto

lemma createInvestment_ok:
  assumes "well_formed db" and "createInvestment dto requester db = Inr db'"
  shows "well_formed db'"
  using assms(2) owner_known stored_amount_ok
  by (auto simp: createInvestment_def Let_def result_simps investment_ok_def simp del: rbind.simps split: option.splits intro!: add_investment [OF assms(1)])

lemma set_owner_Inr: "set_owner x db m = Inr m' \<Longrightarrow> im_id m' = im_id m \<and> (im_investor_id m' = im_investor_id m \<or> im_investor_id m' \<in> iv_id ` set (v_investors db))"
  by (auto simp: set_owner_def Let_def result_simps simp del: rbind.simps split: option.splits dest: owner_known)

lemma set_invested_at_Inr: "set_invested_at x m = Inr m' \<Longrightarrow> im_id m' = im_id m \<and> im_investor_id m' = im_investor_id m"
  by (auto simp: set_invested_at_def result_simps simp del: rbind.simps split: option.splits)

lemma next_amount_ok:
  assumes "next_amount x m = Inr a" and "stored_amount a = Inr y" and "in_column (im_amount m)"
  shows "in_column y"
proof (cases x)
  case None
  then have "numeric_14_2 (im_amount m) = Inr y" "0 \<le> im_amount m" using assms by (auto simp: next_amount_def stored_amount_def in_column_def)
  then show ?thesis by (rule numeric_14_2_ok)
next
  case (Some b)
  then have "js_pos a" using assms(1) by (auto simp: next_amount_def result_simps simp del: rbind.simps)
  then show ?thesis using stored_amount_ok [OF assms(2)] by blast
qed

lemma updateInvestment_ok:
  assumes w: "well_formed db" and u: "updateInvestment i dto requester db = Inr db'"
  shows "well_formed db'"
proof -
  from u obtain m0 m1 a m2 amount where m0: "getInvestmentOrThrow i db = Inr m0" and m1: "set_owner (um_investor_id dto) db m0 = Inr m1"
    and a: "next_amount (um_amount dto) m0 = Inr a" "stored_amount a = Inr amount"
    and m2: "set_invested_at (um_invested_at dto) (case um_branch_id dto of None \<Rightarrow> m1 | Some b \<Rightarrow> m1\<lparr>im_branch_id := trimmed_text b\<rparr>) = Inr m2"
    and db': "\<exists>m c. m = (case um_description dto of None \<Rightarrow> m2 | Some d \<Rightarrow> m2\<lparr>im_description := trimmed_text d\<rparr>)
      \<and> db' = log_investor_change c ''Investment'' (im_id m) requester (db\<lparr>v_investments := save_row im_id (m\<lparr>im_amount := amount\<rparr>) (v_investments db)\<rparr>)"
    unfolding updateInvestment_def rbind_Inr Let_def by blast
  note V = getInvestment_Inr [OF m0]
  have ok: "in_column (im_amount m0)" "im_investor_id m0 \<in> iv_id ` set (v_investors db)" using w V unfolding well_formed_def investment_ok_def by blast+
  obtain m c where m: "m = (case um_description dto of None \<Rightarrow> m2 | Some d \<Rightarrow> m2\<lparr>im_description := trimmed_text d\<rparr>)"
    and db'': "db' = log_investor_change c ''Investment'' (im_id m) requester (db\<lparr>v_investments := save_row im_id (m\<lparr>im_amount := amount\<rparr>) (v_investments db)\<rparr>)"
    using db' by blast
  have m: "im_id m = im_id m0" "im_investor_id m \<in> iv_id ` set (v_investors db)"
    using set_owner_Inr [OF m1] set_invested_at_Inr [OF m2] ok(2) unfolding m by (auto split: option.splits)
  show ?thesis unfolding db'' well_formed_log_change
    by (rule save_investment [OF w, of m0]) (use V m next_amount_ok [OF a ok(1)] in \<open>simp_all add: investment_ok_def\<close>)
qed

lemma deleteInvestment_ok:
  assumes w: "well_formed db" and d: "deleteInvestment i requester db = Inr db'"
  shows "well_formed db'"
proof -
  from d obtain m where m: "getInvestmentOrThrow i db = Inr m" and db': "db' = log_investor ''Investment'' (im_id m) ''deleted'' requester
      (db\<lparr>v_investments := save_row im_id (m\<lparr>im_deleted := True\<rparr>) (v_investments db)\<rparr>)"
    unfolding deleteInvestment_def rbind_Inr by auto
  have "investment_ok m" "im_investor_id m \<in> iv_id ` set (v_investors db)" using w getInvestment_Inr [OF m] unfolding well_formed_def by blast+
  then show ?thesis unfolding db' well_formed_log
    by (intro save_investment [OF w, of m]) (use getInvestment_Inr [OF m] in \<open>simp_all add: investment_ok_def\<close>)
qed

lemma insert_share_ok:
  assumes w: "well_formed db" and x: "share_ok x" "ps_investor_id x \<in> iv_id ` set (v_investors db)"
  shows "well_formed (insert_share a r x db)"
proof -
  have "share_ok (x\<lparr>ps_id := i\<rparr>)" for i using x(1) by (simp add: share_ok_def)
  then show ?thesis using w x(2) pst.wf_insert [of "v_share_seq db" "v_shares db" "x\<lparr>ps_id := string_of_nat (v_share_seq db)\<rparr>"]
    unfolding insert_share_def Let_def well_formed_log by (auto simp: well_formed_def)
qed

lemma new_share_ok:
  assumes "\<not> percentage_refused p" and "amount_ok a" and "a = NaN \<longrightarrow> p = NaN" and "fst period \<le> snd period"
  shows "share_ok (new_share owner a p period description)"
  using assms stored_percentage_ok [OF assms(1)] by (auto simp: share_ok_def new_share_def)

lemma check_period_Inr: "check_period s e = Inr period \<Longrightarrow> fst period \<le> snd period"
proof -
  assume "check_period s e = Inr period"
  then obtain x y where "(case (x, y) of (Some a, Some b) \<Rightarrow> rbind (require (a \<le> b) (badRequest ''period_start must be less than or equal to period_end'')) (\<lambda>_. Inr (a, b))
     | _ \<Rightarrow> Inl (badRequest ''period_start and period_end are required'')) = Inr period"
    unfolding check_period_def rbind_Inr by blast
  then show ?thesis by (cases x; cases y) (auto simp: result_simps simp del: rbind.simps)
qed

lemma createProfitShare_ok:
  assumes w: "well_formed db" and c: "createProfitShare dto requester db = Inr db'"
  shows "well_formed db'"
proof -
  define owner where "owner = trim (str_or_empty (cs_investor_id dto))"
  obtain v period amount where v: "getInvestorOrThrow owner db = Inr v" and a: "js_pos (cs_amount dto) \<or> cs_amount dto = Num 0" "stored_amount (cs_amount dto) = Inr amount"
    and p: "\<not> percentage_refused (cs_percentage dto)" "check_period (cs_period_start dto) (cs_period_end dto) = Inr period"
    and db': "db' = insert_share ''created'' requester (new_share owner (Num amount) (cs_percentage dto) period (cs_description dto)) db"
    using c unfolding createProfitShare_def Let_def rbind_Inr require_Inr owner_def by blast
  show ?thesis unfolding db'
    by (rule insert_share_ok [OF w new_share_ok [OF p(1) _ _ check_period_Inr [OF p(2)]]])
      (use stored_amount_ok [OF a(2,1)] owner_known [OF v] in \<open>simp_all add: new_share_def\<close>)
qed

lemma share_amount_ok:
  assumes "share_amount invested p = Inr a" and "\<not> percentage_refused p" and "0 \<le> invested"
  shows "amount_ok a \<and> (a = NaN \<longrightarrow> p = NaN)"
proof (cases p)
  case (Num x)
  then show ?thesis using assms numeric_14_2_ok [of "invested * x / 100"] by (auto simp: result_simps simp del: rbind.simps)
qed (use assms in simp_all)

lemma total_invested_nonneg: "well_formed db \<Longrightarrow> 0 \<le> total_invested i until db"
  unfolding total_invested_def by (rule sum_list_nonneg) (auto simp: well_formed_def investment_ok_def in_column_def)

lemma insert_share_tables [simp]:
  "v_investors (insert_share a r x db) = v_investors db" "v_investments (insert_share a r x db) = v_investments db"
  "v_shares (insert_share a r x db) = v_shares db @ [x\<lparr>ps_id := string_of_nat (v_share_seq db)\<rparr>]"
  by (simp_all add: insert_share_def Let_def log_investor_def)

lemma total_invested_same [simp]: "total_invested i until (insert_share a r x db) = total_invested i until db"
  by (simp add: total_invested_def)

lemma calculate_loop_ok:
  assumes "well_formed db" and "\<not> percentage_refused (ca_percentage dto)" and "fst period \<le> snd period" and "iv_id ` set vs \<subseteq> iv_id ` set (v_investors db)"
  shows "well_formed (snd (calculate_loop dto requester period vs db))"
  using assms(1,4)
proof (induction vs arbitrary: db)
  case (Cons v vs)
  show ?case
  proof (cases "has_share (iv_id v) period db")
    case True
    then show ?thesis using Cons by (simp add: split_beta)
  next
    case new: False
    show ?thesis
    proof (cases "share_amount (total_invested (iv_id v) (snd period) db) (ca_percentage dto)")
      case (Inr a)
      let ?db = "insert_share ''investor.profit_calculated'' requester (new_share (iv_id v) a (ca_percentage dto) period (ca_description dto)) db"
      have "well_formed ?db"
        by (rule insert_share_ok [OF Cons.prems(1) new_share_ok])
          (use share_amount_ok [OF Inr assms(2) total_invested_nonneg [OF Cons.prems(1)]] assms(2,3) Cons.prems(2) in \<open>simp_all add: new_share_def\<close>)
      then show ?thesis using Cons new Inr by (simp add: split_beta)
    qed (use Cons.prems new in simp)
  qed
qed simp

lemma chosen_known: "chosen_investors i db = Inr vs \<Longrightarrow> iv_id ` set vs \<subseteq> iv_id ` set (v_investors db)"
  by (auto simp: chosen_investors_def result_simps simp del: rbind.simps split: if_splits dest: getInvestor_Inr)

lemma calculateProfit_ok:
  assumes w: "well_formed db"
  shows "well_formed (snd (calculateProfit dto requester db))"
proof (cases "rbind (check_period (ca_period_start dto) (ca_period_end dto)) (\<lambda>period.
     rbind (require (\<not> percentage_refused (ca_percentage dto)) (badRequest ''percentage must be between 0 and 100'')) (\<lambda>_.
     rbind (chosen_investors (ca_investor_id dto) db) (\<lambda>vs. Inr (period, vs))))")
  case (Inl e)
  then show ?thesis using w by (simp add: calculateProfit_def)
next
  case (Inr q)
  then obtain period vs where "q = (period, vs)" "check_period (ca_period_start dto) (ca_period_end dto) = Inr period"
    "\<not> percentage_refused (ca_percentage dto)" "chosen_investors (ca_investor_id dto) db = Inr vs"
    unfolding rbind_Inr require_Inr by blast
  then show ?thesis using calculate_loop_ok [OF w, of dto period vs requester] check_period_Inr chosen_known unfolding calculateProfit_def Inr by auto
qed

lemma markProfitPaid_ok:
  assumes w: "well_formed db" and m: "markProfitPaid now i requester db = Inr db'"
  shows "well_formed db'"
proof -
  from m obtain x where x: "find (\<lambda>x. ps_id x = i \<and> \<not> ps_deleted x) (v_shares db) = Some x"
    and db': "db' = log_investor ''ProfitShare'' (ps_id x) ''payment'' requester
      (db\<lparr>v_shares := save_row ps_id (x\<lparr>ps_is_paid := True, ps_paid_at := Some now\<rparr>) (v_shares db)\<rparr>)"
    unfolding markProfitPaid_def rbind_Inr find_or_Inr by auto
  have ok: "share_ok x" "ps_investor_id x \<in> iv_id ` set (v_investors db)" using w find_Some_mem [OF x] unfolding well_formed_def by blast+
  let ?x = "x\<lparr>ps_is_paid := True, ps_paid_at := Some now\<rparr>"
  have "share_ok ?x" using ok(1) by (simp add: share_ok_def)
  then have "\<forall>y\<in>set (save_row ps_id ?x (v_shares db)). share_ok y \<and> ps_investor_id y \<in> iv_id ` set (v_investors db)"
    using w ok(2) pst.mem_save [of _ ?x] unfolding well_formed_def by fastforce
  then show ?thesis using w unfolding db' well_formed_log by (simp add: well_formed_def pst.wf_save)
qed

section \<open>The service\<close>

text \<open>A request that is refused changes nothing, but a calculation may end with an error after some shares were saved.\<close>

inductive investor_reach :: "investor_db \<Rightarrow> bool" where
  start: "v_investors db = [] \<Longrightarrow> v_investments db = [] \<Longrightarrow> v_shares db = [] \<Longrightarrow> investor_reach db"
| create: "investor_reach db \<Longrightarrow> createInvestor cv requester db = Inr db' \<Longrightarrow> investor_reach db'"
| update: "investor_reach db \<Longrightarrow> updateInvestor i uv requester db = Inr db' \<Longrightarrow> investor_reach db'"
| delete: "investor_reach db \<Longrightarrow> deleteInvestor i requester db = Inr db' \<Longrightarrow> investor_reach db'"
| invest: "investor_reach db \<Longrightarrow> createInvestment cm requester db = Inr db' \<Longrightarrow> investor_reach db'"
| reinvest: "investor_reach db \<Longrightarrow> updateInvestment i um requester db = Inr db' \<Longrightarrow> investor_reach db'"
| withdraw: "investor_reach db \<Longrightarrow> deleteInvestment i requester db = Inr db' \<Longrightarrow> investor_reach db'"
| share: "investor_reach db \<Longrightarrow> createProfitShare cs requester db = Inr db' \<Longrightarrow> investor_reach db'"
| calculate: "investor_reach db \<Longrightarrow> calculateProfit ca requester db = (r, db') \<Longrightarrow> investor_reach db'"
| pay: "investor_reach db \<Longrightarrow> markProfitPaid now i requester db = Inr db' \<Longrightarrow> investor_reach db'"

lemma investor_reach_ok: "investor_reach db \<Longrightarrow> well_formed db"
proof (induction rule: investor_reach.induct)
  case (start db)
  then show ?case by (simp add: well_formed_def ivt.wf_empty imt.wf_empty pst.wf_empty phone.uniq_empty)
next
  case (calculate db ca requester r db')
  then show ?case using calculateProfit_ok [of db ca requester] by simp
qed (blast intro: createInvestor_ok updateInvestor_ok deleteInvestor_ok createInvestment_ok updateInvestment_ok deleteInvestment_ok createProfitShare_ok markProfitPaid_ok)+

text \<open>
  C36. Whatever requests the investor service handles, its rows stay well-formed: every investor has a
  name and a valid phone number, which no other investor in use has; every investment fits its column
  and belongs to an investor; every share belongs to an investor, has an ordered period, is paid
  exactly when it has a date of payment, and its percentage is between 0 and 100, as is asked of every
  request, unless it is not a number, the one value that escapes the check.
\<close>

theorem investor_rows_ok:
  assumes "investor_reach db"
  shows "list_all (\<lambda>v. iv_name v \<noteq> [] \<and> valid_phone (iv_phone_number v)) (v_investors db)
    \<and> distinct (map iv_phone_number (filter (\<lambda>v. \<not> iv_deleted v) (v_investors db)))
    \<and> list_all (\<lambda>m. 0 \<le> im_amount m \<and> im_amount m < 1000000000000 \<and> im_investor_id m \<in> iv_id ` set (v_investors db)) (v_investments db)
    \<and> list_all (\<lambda>x. ps_investor_id x \<in> iv_id ` set (v_investors db) \<and> ps_period_start x \<le> ps_period_end x \<and> (ps_is_paid x \<longleftrightarrow> ps_paid_at x \<noteq> None)
        \<and> (case ps_percentage x of Num p \<Rightarrow> 0 \<le> p \<and> p \<le> 100 | y \<Rightarrow> y = NaN)) (v_shares db)"
proof -
  note w = investor_reach_ok [OF assms, unfolded well_formed_def]
  have "percentage_ok y \<Longrightarrow> (case y of Num p \<Rightarrow> 0 \<le> p \<and> p \<le> 100 | z \<Rightarrow> z = NaN)" for y by (cases y) simp_all
  moreover have "distinct (map iv_phone_number (filter (\<lambda>v. \<not> iv_deleted v) (v_investors db)))"
    using w unfolding distinct_map ivt.wf_def phone.uniq_def by (auto simp: inj_on_def)
  ultimately show ?thesis using w by (simp add: list_all_iff investor_ok_def investment_ok_def in_column_def share_ok_def)
qed

subsection \<open>Calculating profits once\<close>

lemma has_share_iff: "has_share i period db \<longleftrightarrow> (\<exists>x\<in>set (v_shares db). ps_investor_id x = i \<and> ps_period_start x = fst period \<and> ps_period_end x = snd period \<and> \<not> ps_deleted x)"
  by (auto simp: has_share_def find_None_iff)

lemma has_share_insert [simp]:
  "has_share j period (insert_share a r (new_share i x p period d) db) \<longleftrightarrow> i = j \<or> has_share j period db"
  by (auto simp: has_share_iff new_share_def)

lemma has_share_mono: "has_share j period db \<Longrightarrow> has_share j period (snd (calculate_loop dto r period vs db))"
  by (induction vs arbitrary: db) (auto simp: split_beta split: sum.splits)

lemma calculate_Cons:
  assumes "calculate_loop dto r period (v # vs) db = (Inr (c, s), db')"
  obtains (skip) s' where "has_share (iv_id v) period db" "calculate_loop dto r period vs db = (Inr (c, s'), db')" "s = Suc s'"
  | (save) c' a where "\<not> has_share (iv_id v) period db" "share_amount (total_invested (iv_id v) (snd period) db) (ca_percentage dto) = Inr a"
      "calculate_loop dto r period vs (insert_share ''investor.profit_calculated'' r (new_share (iv_id v) a (ca_percentage dto) period (ca_description dto)) db) = (Inr (c', s), db')"
      "c = Suc c'"
proof (cases "has_share (iv_id v) period db")
  case True
  obtain q db1 where q: "calculate_loop dto r period vs db = (q, db1)" by (rule prod.exhaust)
  then show thesis using assms True skip by (cases q) auto
next
  case False
  obtain a where a: "share_amount (total_invested (iv_id v) (snd period) db) (ca_percentage dto) = Inr a"
    using assms False by (cases "share_amount (total_invested (iv_id v) (snd period) db) (ca_percentage dto)") auto
  obtain q db1 where q: "calculate_loop dto r period vs (insert_share ''investor.profit_calculated'' r
      (new_share (iv_id v) a (ca_percentage dto) period (ca_description dto)) db) = (q, db1)" by (rule prod.exhaust)
  then show thesis using assms False a save by (cases q) auto
qed

lemma calculate_counts: "calculate_loop dto r period vs db = (Inr (c, s), db') \<Longrightarrow> c + s = length vs"
proof (induction vs arbitrary: db c s)
  case (Cons v vs)
  from Cons.prems show ?case by (cases rule: calculate_Cons) (use Cons.IH in force)+
qed simp

lemma calculate_all: "calculate_loop dto r period vs db = (Inr (c, s), db') \<Longrightarrow> v \<in> set vs \<Longrightarrow> has_share (iv_id v) period db'"
proof (induction vs arbitrary: db c s)
  case (Cons u vs)
  from Cons.prems(1) show ?case
  proof (cases rule: calculate_Cons)
    case (skip s')
    then show ?thesis using Cons.IH [OF skip(2)] Cons.prems(2) has_share_mono [OF skip(1), of dto r vs] by auto
  next
    case (save c' a)
    have "has_share (iv_id u) period db'" using has_share_mono [of "iv_id u" period "insert_share ''investor.profit_calculated'' r
        (new_share (iv_id u) a (ca_percentage dto) period (ca_description dto)) db" dto r vs] save(3) by simp
    then show ?thesis using Cons.IH [OF save(3)] Cons.prems(2) by auto
  qed
qed simp

lemma calculate_tables: "calculate_loop dto r period vs db = (Inr (c, s), db') \<Longrightarrow> v_investors db' = v_investors db \<and> v_investments db' = v_investments db"
proof (induction vs arbitrary: db c s)
  case (Cons v vs)
  from Cons.prems show ?case by (cases rule: calculate_Cons) (use Cons.IH in force)+
qed simp

text \<open>A share a calculation adds: for an investor who had none, on what this investor had invested.\<close>

definition due_share :: "calculate_dto \<Rightarrow> time \<times> time \<Rightarrow> investor_db \<Rightarrow> profit_share \<Rightarrow> bool" where
  "due_share dto period db x \<longleftrightarrow> \<not> has_share (ps_investor_id x) period db \<and> \<not> ps_is_paid x \<and> (ps_period_start x, ps_period_end x) = period
     \<and> share_amount (total_invested (ps_investor_id x) (snd period) db) (ca_percentage dto) = Inr (ps_amount x)"

lemma calculate_adds:
  assumes "calculate_loop dto r period vs db = (Inr (c, s), db')"
  shows "\<exists>new. v_shares db' = v_shares db @ new \<and> length new = c \<and> list_all (due_share dto period db) new"
  using assms
proof (induction vs arbitrary: db c s)
  case (Cons v vs)
  from Cons.prems show ?case
  proof (cases rule: calculate_Cons)
    case (skip s')
    then show ?thesis using Cons.IH by blast
  next
    case (save c' a)
    let ?x = "new_share (iv_id v) a (ca_percentage dto) period (ca_description dto)\<lparr>ps_id := string_of_nat (v_share_seq db)\<rparr>"
    from Cons.IH [OF save(3)] obtain new where new: "v_shares db' = (v_shares db @ [?x]) @ new" "length new = c'"
      "list_all (due_share dto period (insert_share ''investor.profit_calculated'' r (new_share (iv_id v) a (ca_percentage dto) period (ca_description dto)) db)) new"
      by auto
    have "due_share dto period db ?x" using save(1,2) by (simp add: due_share_def new_share_def)
    moreover have "list_all (due_share dto period db) new" using new(3) by (auto simp: list_all_iff due_share_def)
    ultimately show ?thesis using new(1,2) save(4) by (intro exI [of _ "?x # new"]) simp
  qed
qed simp

lemma calculate_again: "(\<And>v. v \<in> set vs \<Longrightarrow> has_share (iv_id v) period db) \<Longrightarrow> calculate_loop dto r period vs db = (Inr (0, length vs), db)"
  by (induction vs) auto

lemma calculateProfit_runs:
  assumes "calculateProfit dto r db = (Inr q, db')"
  obtains period vs where "check_period (ca_period_start dto) (ca_period_end dto) = Inr period" "\<not> percentage_refused (ca_percentage dto)"
    "chosen_investors (ca_investor_id dto) db = Inr vs" "calculate_loop dto r period vs db = (Inr q, db')"
proof (cases "rbind (check_period (ca_period_start dto) (ca_period_end dto)) (\<lambda>period.
     rbind (require (\<not> percentage_refused (ca_percentage dto)) (badRequest ''percentage must be between 0 and 100'')) (\<lambda>_.
     rbind (chosen_investors (ca_investor_id dto) db) (\<lambda>vs. Inr (period, vs))))")
  case (Inl e)
  then show ?thesis using assms by (simp add: calculateProfit_def)
next
  case (Inr w)
  then obtain period vs where w: "w = (period, vs)" and h: "check_period (ca_period_start dto) (ca_period_end dto) = Inr period"
    "\<not> percentage_refused (ca_percentage dto)" "chosen_investors (ca_investor_id dto) db = Inr vs"
    unfolding rbind_Inr require_Inr by blast
  then show ?thesis using that [OF h] assms unfolding calculateProfit_def Inr w by simp
qed


section \<open>Examples\<close>

definition demo_investors :: investor_db where
  "demo_investors = \<lparr>v_investors = [], v_investor_seq = 1, v_investments = [], v_investment_seq = 1, v_shares = [], v_share_seq = 1, v_audit = []\<rparr>"

definition demo_investor_dto :: create_investor_dto where
  "demo_investor_dto = \<lparr>cv_name = Some ''Ali'', cv_phone_number = Some ''+998901234567'', cv_status = None, cv_description = None, cv_user_id = None\<rparr>"

definition demo_investment_dto :: create_investment_dto where
  "demo_investment_dto = \<lparr>cm_investor_id = Some ''1'', cm_amount = Num 1000, cm_invested_at = Date 5, cm_branch_id = None, cm_description = None\<rparr>"

definition demo_calculate_dto :: calculate_dto where
  "demo_calculate_dto = \<lparr>ca_investor_id = None, ca_period_start = Date 1, ca_period_end = Date 9, ca_percentage = Num 5, ca_description = None\<rparr>"

definition demo_invested :: investor_db where
  "demo_invested = projr (rbind (createInvestor demo_investor_dto None demo_investors) (createInvestment demo_investment_dto None))"

definition demo_calculated :: investor_db where
  "demo_calculated = snd (calculateProfit demo_calculate_dto None demo_invested)"

lemma demo_calculated_ok: "calculateProfit demo_calculate_dto None demo_invested = (Inr (1, 0), demo_calculated)"
proof -
  have "fst (calculateProfit demo_calculate_dto None demo_invested) = Inr (1, 0)" by code_simp
  then show ?thesis unfolding demo_calculated_def by (simp add: prod_eq_iff)
qed

lemma demo_investor_reach: "investor_reach demo_calculated"
proof -
  have r: "\<not> isl (rbind (createInvestor demo_investor_dto None demo_investors) (createInvestment demo_investment_dto None))" by code_simp
  then obtain db1 where db1: "createInvestor demo_investor_dto None demo_investors = Inr db1" "createInvestment demo_investment_dto None db1 = Inr demo_invested"
    unfolding demo_invested_def by (cases "createInvestor demo_investor_dto None demo_investors") auto
  have "investor_reach demo_investors" by (rule investor_reach.start) (simp_all add: demo_investors_def)
  from investor_reach.invest [OF investor_reach.create [OF this db1(1)] db1(2)] show ?thesis
    by (rule investor_reach.calculate) (rule demo_calculated_ok)
qed

theorem investor_rows_ok_witness:
  "map iv_phone_number (v_investors demo_calculated) = [''+998901234567''] \<and> valid_phone ''+998901234567''"
proof -
  have "map iv_phone_number (v_investors demo_calculated) = [''+998901234567'']" by code_simp
  then show ?thesis using investor_rows_ok [OF demo_investor_reach] by (cases "v_investors demo_calculated") auto
qed


end
