(* ===== verification/Spec2Isabelle.thy ===== *)
theory Spec2Isabelle
  imports Order_Partial Outbox Idempotency Cashbox_Transfers Branch_Service Transfer_Service Investor
begin

text \<open>
  A verification library for the Elchi delivery backend: a set of services that take orders from
  markets, move them through branches and couriers, collect cash on delivery and settle it between
  couriers, branches, the head office (HQ) and the markets.

  The parts and how they interact. The order service keeps orders, their custody, their tracking
  and a settlement row per sold order; it never touches a cashbox itself but puts events on a
  transactional outbox, in the transaction that changes the order. A publisher relays the events
  to the finance service, which keeps the cashboxes, their history, the company ledger and the
  operator commissions, and handles every event through an idempotency table, since the broker
  delivers at least once. When cash is handed over, the finance service puts a settlement advance
  on its own outbox, and the order service moves its settlement rows by it.

  Theories and sources.
  \<^item> Elchi_Prelude: results as sums, JavaScript numbers and strings, tables of rows with generated
    keys (locale table), handlers that apply a keyed request once (locale at_most_once).
  \<^item> Elchi_Enums: \<open>libs/common/enums/index.ts\<close>.
  \<^item> Order_Status: \<open>order-service/src/domain/order-status.machine.ts\<close>, with reachability over the
    transition table.
  \<^item> Order_Money: \<open>order-service/src/domain/order-money.ts\<close>, conservation and rounding of the legs.
  \<^item> Outbox: \<open>libs/common/src/outbox\<close>, the publisher pass and what it never loses.
  \<^item> Idempotency: \<open>libs/common/src/idempotency\<close> and \<open>rmq\<close>, at-most-once execution with a lease.
  \<^item> Cashbox and Cashbox_Transfers: the money-moving operations of
    \<open>finance-service/src/finance-service.service.ts\<close> and the condition of
    \<open>scripts/check-cashbox-invariant.ts\<close>, which every reachable state passes.
  \<^item> Finance_Ledger: the company ledger, commissions, shifts and salaries of the same service.
  \<^item> Settlement: \<open>order-service/src/settlement/order-settlement.service.ts\<close> and the settlement helpers
    of the lifecycle service.
  \<^item> Order_Custody: \<open>order-service/src/custody/order-custody.service.ts\<close>.
  \<^item> Order_Store: the order tables, \<open>updateFull\<close> and \<open>remove\<close> of
    \<open>order-service/src/lifecycle/order-lifecycle.service.ts\<close>.
  \<^item> Order_Sale: \<open>sellOrder\<close>, \<open>cancelOrder\<close>, \<open>couldNotDeliverOrder\<close> and \<open>markByProvider\<close> of the same file.
  \<^item> Order_Rollback: \<open>rollbackOrderToWaiting\<close>, \<open>initiateReturn\<close> and \<open>markReturnedToMarket\<close> of the same
    file; that a sale and its rollback cancel out, and what a rollback refuses.
  \<^item> Order_Partial: \<open>partlySellOrder\<close> of the same file; that no goods and no price are lost.
  \<^item> Branch_Store, Branch_Tree and Branch_Users: \<open>branch-service/src/branch-service.service.ts\<close>. The
    first holds the tables and the checks, the second creating, changing and deleting branches with
    the walks over the tree, the third the assignment of users, access scopes and settings.
  \<^item> Branch_Forest, Branch_Invariant and Branch_Service: trees given by parent pointers, that every
    operation keeps the branch table a tree under one HQ with correct levels, and the properties of
    the service: what is reachable, that requests return, who may read and write which branch.
  \<^item> Transfer_Batch: every writing operation of
    \<open>order-service/src/transfer-batch/branch-transfer-batch.service.ts\<close> over the tables of batches,
    items, history and inbox beside those of the orders.
  \<^item> Transfer_Invariant, Transfer_Steps and Transfer_Service: that creating, sending, receiving and
    cancelling keep the batches in agreement with their items and orders; the reachable states; that
    a request needing two new batches fails; and the refinement of the life cycle of a batch.
  \<^item> Investor: the writing operations of \<open>investor-service/src/investor-service.service.ts\<close>; what its
    rows satisfy, and that the profit of a period is calculated once.

  Modelling choices. Money is an exact rational; a numeric column of two decimals holds what the
  code rounds, and the whole-number columns refuse fractions. A numeric input that may be missing
  or not finite is a \<open>jsnum\<close>. Operations run one after the other: the code takes row or advisory
  locks around its read-modify-write sections. A transaction that fails leaves the tables as they
  were, which is the \<open>Inl\<close> result; an operation with effects before its transaction returns the
  state in both cases. Replies of other services are the \<open>remote\<close> argument. JSON snapshots in audit
  and tracking rows, log lines and the best-effort notification of an external system after a
  commit are left out. The branch service compares identifiers as whole numbers where the database
  does and as strings where the code does; levels are not bounded. The transfer batches take
  identifiers in canonical form, and exact prices where the code has floats; the clock and the random
  parts of tokens and keys are arguments. Typographic quotes in messages are plain ones.

  Loops and fuel. Loops over rows are structural recursion. The walks up and down the branch tree and
  the recursive query may run forever on a table with a cycle, so they are partial functions into
  options: that they return on every reachable table is proved, and so is that they do not on a table
  with a cycle. The publisher pass, the retries of a token (twelve) and the deliveries of a message
  are bounded by their constants in the code. No other fuel is used.

  Interfaces. The locale table (rows with generated keys) is interpreted for every table with such
  keys; at_most_once is interpreted for the handlers that carry a key; the locales of the component
  theories are interpreted on the definitions of the component that provides them.

  Not modelled. The API gateway, which checks tokens and forwards requests; the logistics,
  integration, identity, catalog, C2C, analytics, search, file and notification services,
  which keep their own tables or call external systems; migrations and scripts other than the cashbox
  check; paginated lists, statistics and exports; the synchronisation of orders with providers. What
  the modelled operations ask of these services is an argument of the model.
\<close>

end
